(* ===== verification/Prelude.thy ===== *)
theory Prelude
  imports Main "HOL-Library.Word" "HOL-Library.AList"
begin

text \<open>
  Shared vocabulary of the development: the machine integers of the Rust sources as words,
  the errors of the block utilities as a datatype, results as sums, and the result-and-state
  functions by which code that reads through a \<open>&mut\<close> cursor is modelled. A Rust function
  \<open>fn f(x: &mut S) -> Result<A, E>\<close> is a function \<open>'s \<Rightarrow> ('e + 'a) \<times> 's\<close>: the state is
  returned on the error path too, because a caller may ignore the error and go on with the
  same cursor. \<open>bnd\<close> is the question mark operator.
\<close>

unbundle bit_operations_syntax

section \<open>Machine integers\<close>

type_synonym u8 = "8 word"
type_synonym u16 = "16 word"
type_synonym u32 = "32 word"
type_synonym u64 = "64 word"
type_synonym u128 = "128 word"

text \<open>Signed 32-bit values keep their bits in a word and are read with \<open>sint\<close>.\<close>

type_synonym i32 = "32 word"

text \<open>A \<open>HashBytes\<close> is 32 bytes, read as one big-endian number.\<close>

type_synonym hash_bytes = "256 word"

named_theorems checked_simps
named_theorems rs_simps
named_theorems rs_apply

definition checked_add :: "'a::len word \<Rightarrow> 'a word \<Rightarrow> 'a word option" where
  "checked_add a b = (if unat a + unat b < 2 ^ LENGTH('a) then Some (a + b) else None)"

definition checked_mul :: "'a::len word \<Rightarrow> 'a word \<Rightarrow> 'a word option" where
  "checked_mul a b = (if unat a * unat b < 2 ^ LENGTH('a) then Some (a * b) else None)"

definition saturating_sub :: "'a::len word \<Rightarrow> 'a word \<Rightarrow> 'a word" where
  "saturating_sub a b = (if a < b then 0 else a - b)"

lemma unat_less_pow: "unat (w :: 'a::len word) < 2 ^ LENGTH('a)"
  by (rule unsigned_less)

lemma checked_add_SomeD [dest]:
  "checked_add a b = Some c \<Longrightarrow> unat c = unat a + unat b"
  by (auto simp: checked_add_def unat_word_ariths split: if_splits)

lemma checked_mul_SomeD [dest]:
  "checked_mul a b = Some c \<Longrightarrow> unat c = unat a * unat b"
  by (auto simp: checked_mul_def unat_word_ariths split: if_splits)

lemma checked_add_None_iff [checked_simps]:
  fixes a b :: "'a::len word"
  shows "checked_add a b = None \<longleftrightarrow> 2 ^ LENGTH('a) \<le> unat a + unat b"
  by (auto simp: checked_add_def)

lemma checked_mul_None_iff [checked_simps]:
  fixes a b :: "'a::len word"
  shows "checked_mul a b = None \<longleftrightarrow> 2 ^ LENGTH('a) \<le> unat a * unat b"
  by (auto simp: checked_mul_def)

lemma unat_saturating_sub [checked_simps]:
  "unat (saturating_sub a b) = unat a - unat b"
  by (simp add: saturating_sub_def word_less_nat_alt unat_sub_if')

text \<open>The checks on integers, which evaluate on binary numerals.\<close>

lemma checked_add_code [code]:
  fixes a b :: "'a::len word"
  shows "checked_add a b = (if uint a + uint b < 2 ^ LENGTH('a) then Some (a + b) else None)"
proof -
  have pow: "(2 :: int) ^ LENGTH('a) = int (2 ^ LENGTH('a))" by simp
  have "(unat a + unat b < 2 ^ LENGTH('a)) = (uint a + uint b < 2 ^ LENGTH('a))"
    unfolding uint_nat of_nat_add [symmetric] pow of_nat_less_iff ..
  then show ?thesis by (simp add: checked_add_def)
qed

lemma checked_mul_code [code]:
  fixes a b :: "'a::len word"
  shows "checked_mul a b = (if uint a * uint b < 2 ^ LENGTH('a) then Some (a * b) else None)"
proof -
  have pow: "(2 :: int) ^ LENGTH('a) = int (2 ^ LENGTH('a))" by simp
  have "(unat a * unat b < 2 ^ LENGTH('a)) = (uint a * uint b < 2 ^ LENGTH('a))"
    unfolding uint_nat of_nat_mult [symmetric] pow of_nat_less_iff ..
  then show ?thesis by (simp add: checked_mul_def)
qed

section \<open>Errors\<close>

text \<open>
  \<open>tycho_types::error::Error\<close>: the variants the sources name. Every other error the cell
  library may return is \<open>LibError\<close> with an arbitrary code. \<open>Panic\<close> is a Rust panic
  (a failed assertion, an out-of-range slice or an \<open>unwrap\<close> of a missing value).
\<close>

datatype error =
    InvalidTag | InvalidData | CellUnderflow | CellOverflow | IntOverflow
  | EmptyProof | InvalidSignature | Cancelled | LibError nat | Panic

text \<open>An \<open>anyhow::Error\<close>: a library error, or a message of the code's own.\<close>

datatype any_error = Lib error | Msg string

section \<open>Results\<close>

definition bindR :: "'e + 'a \<Rightarrow> ('a \<Rightarrow> 'e + 'b) \<Rightarrow> 'e + 'b" where
  "bindR r f = (case r of Inl e \<Rightarrow> Inl e | Inr a \<Rightarrow> f a)"

definition map_err :: "('e \<Rightarrow> 'f) \<Rightarrow> 'e + 'a \<Rightarrow> 'f + 'a" where
  "map_err g r = (case r of Inl e \<Rightarrow> Inl (g e) | Inr a \<Rightarrow> Inr a)"

definition ok_or :: "'e \<Rightarrow> 'a option \<Rightarrow> 'e + 'a" where
  "ok_or e x = (case x of None \<Rightarrow> Inl e | Some a \<Rightarrow> Inr a)"

definition ensure :: "bool \<Rightarrow> 'e \<Rightarrow> 'e + unit" where
  "ensure b e = (if b then Inr () else Inl e)"

fun is_ok :: "'e + 'a \<Rightarrow> bool" where
  "is_ok (Inr a) = True"
| "is_ok (Inl e) = False"

lemma bindR_simps [simp]:
  "bindR (Inl e) f = Inl e"
  "bindR (Inr a) f = f a"
  by (simp_all add: bindR_def)

lemma map_err_simps [simp]:
  "map_err g (Inl e) = Inl (g e)"
  "map_err g (Inr a) = Inr a"
  by (simp_all add: map_err_def)

lemma ok_or_simps [simp]:
  "ok_or e None = Inl e"
  "ok_or e (Some a) = Inr a"
  by (simp_all add: ok_or_def)

lemma ensure_simps [simp]:
  "ensure True e = Inr ()"
  "ensure False e = Inl e"
  by (simp_all add: ensure_def)

lemma bindR_InrE [elim!]:
  assumes "bindR r f = Inr b"
  obtains a where "r = Inr a" and "f a = Inr b"
  using assms by (cases r) auto

lemma map_err_Inr_iff [simp]: "map_err g r = Inr a \<longleftrightarrow> r = Inr a"
  by (cases r) auto

lemma ok_or_Inr_iff [simp]: "ok_or e x = Inr a \<longleftrightarrow> x = Some a"
  by (cases x) auto

lemma ensure_Inr_iff [simp]: "ensure b e = Inr u \<longleftrightarrow> b"
  by (cases b) auto

text \<open>\<open>iter.collect::<Result<Vec<_>, _>>()\<close>: all items, or the first error.\<close>

fun collect :: "('e + 'a) list \<Rightarrow> 'e + 'a list" where
  "collect [] = Inr []"
| "collect (Inl e # xs) = Inl e"
| "collect (Inr a # xs) = (case collect xs of Inl e \<Rightarrow> Inl e | Inr as \<Rightarrow> Inr (a # as))"

lemma collect_map_Inr [simp]: "collect (map Inr as) = Inr as"
  by (induction as) auto

lemma collect_InrD: "collect xs = Inr as \<Longrightarrow> xs = map Inr as"
  by (induction xs arbitrary: as rule: collect.induct) (auto split: sum.splits)

lemma collect_Inr_iff: "collect xs = Inr as \<longleftrightarrow> xs = map Inr as"
  using collect_InrD by auto

section \<open>Functions over a mutable cursor\<close>

type_synonym ('s, 'e, 'a) rs = "'s \<Rightarrow> ('e + 'a) \<times> 's"

definition ret :: "'a \<Rightarrow> ('s, 'e, 'a) rs" where
  "ret a s = (Inr a, s)"

definition fail :: "'e \<Rightarrow> ('s, 'e, 'a) rs" where
  "fail e s = (Inl e, s)"

definition bnd :: "('s, 'e, 'a) rs \<Rightarrow> ('a \<Rightarrow> ('s, 'e, 'b) rs) \<Rightarrow> ('s, 'e, 'b) rs" where
  "bnd m f s = (case m s of (Inl e, t) \<Rightarrow> (Inl e, t) | (Inr a, t) \<Rightarrow> f a t)"

text \<open>\<open>let _ = m;\<close> without a question mark: the effect stays, the result is dropped.\<close>

definition ignore :: "('s, 'e, 'a) rs \<Rightarrow> ('s, 'e, unit) rs" where
  "ignore m s = (Inr (), snd (m s))"

definition of_result :: "'e + 'a \<Rightarrow> ('s, 'e, 'a) rs" where
  "of_result r s = (r, s)"

definition guard :: "bool \<Rightarrow> 'e \<Rightarrow> ('s, 'e, unit) rs" where
  "guard b e = (if b then ret () else fail e)"

text \<open>\<open>m.ok().flatten()\<close>: an error counts as a missing value, the effects stay.\<close>

definition ok_flatten :: "('s, 'e, 'a option) rs \<Rightarrow> ('s, 'e, 'a option) rs" where
  "ok_flatten m s = (case m s of (Inl e, t) \<Rightarrow> (Inr None, t) | (Inr x, t) \<Rightarrow> (Inr x, t))"

text \<open>A \<open>for\<close> loop with a question mark in its body.\<close>

fun for_each :: "'x list \<Rightarrow> ('x \<Rightarrow> ('s, 'e, unit) rs) \<Rightarrow> ('s, 'e, unit) rs" where
  "for_each [] f = ret ()"
| "for_each (x # xs) f = bnd (f x) (\<lambda>_. for_each xs f)"

lemma ret_apply [rs_apply]: "ret a s = (Inr a, s)"
  by (simp add: ret_def)

lemma fail_apply [rs_apply]: "fail e s = (Inl e, s)"
  by (simp add: fail_def)

lemma of_result_apply [rs_apply]: "of_result r s = (r, s)"
  by (simp add: of_result_def)

lemma bnd_ret [rs_simps]: "bnd (ret a) f = f a"
  by (rule ext) (simp add: bnd_def ret_def)

lemma bnd_fail [rs_simps]: "bnd (fail e) f = fail e"
  by (rule ext) (simp add: bnd_def fail_def)

lemma bnd_of_result_Inr [rs_simps]: "bnd (of_result (Inr a)) f = f a"
  by (rule ext) (simp add: bnd_def of_result_def)

lemma bnd_of_result_Inl [rs_simps]: "bnd (of_result (Inl e)) f = fail e"
  by (rule ext) (simp add: bnd_def of_result_def fail_def)

lemma guard_simps [rs_simps]:
  "guard True e = ret ()"
  "guard False e = fail e"
  by (simp_all add: guard_def)

lemma bnd_apply:
  "bnd m f s = (case m s of (Inl e, t) \<Rightarrow> (Inl e, t) | (Inr a, t) \<Rightarrow> f a t)"
  by (simp add: bnd_def)

lemma bnd_eq_Inl:
  assumes "m s = (Inl e, t)"
  shows "bnd m f s = (Inl e, t)"
  using assms by (simp add: bnd_def)

lemma bnd_eq_Inr:
  assumes "m s = (Inr a, t)"
  shows "bnd m f s = f a t"
  using assms by (simp add: bnd_def)

lemma bnd_InrE:
  assumes "bnd m f s = (Inr b, u)"
  obtains a t where "m s = (Inr a, t)" and "f a t = (Inr b, u)"
  using assms by (auto simp: bnd_def split: prod.splits sum.splits)

lemma bnd_assoc: "bnd (bnd m f) g = bnd m (\<lambda>a. bnd (f a) g)"
  by (rule ext) (auto simp: bnd_def split: prod.splits sum.splits)

lemma bnd_cong_fun:
  assumes "\<And>a. f a = g a"
  shows "bnd m f = bnd m g"
proof -
  from assms have "f = g" by (rule ext)
  then show ?thesis by (rule arg_cong)
qed

lemma guard_InrE:
  assumes "guard b e s = (Inr x, t)"
  obtains "b" and "t = s"
  using assms by (cases b) (auto simp: rs_simps rs_apply)

lemma ret_InrE:
  assumes "ret a s = (Inr x, t)"
  obtains "x = a" and "t = s"
  using assms by (auto simp: rs_apply)

lemma fail_InrE:
  assumes "fail e s = (Inr x, t)"
  obtains False
  using assms by (auto simp: rs_apply)

lemma for_each_append:
  "for_each (xs @ ys) f = bnd (for_each xs f) (\<lambda>_. for_each ys f)"
  by (induction xs) (simp_all add: bnd_ret bnd_assoc)

lemmas rs_elims = bnd_InrE guard_InrE ret_InrE fail_InrE

end
