(* ===== verification/Bytes.thy ===== *)
theory Bytes
  imports Prelude
begin

text \<open>
  Byte strings: Rust's \<open>to_be_bytes\<close>, \<open>to_le_bytes\<close> and their inverses on fixed widths,
  and the bytewise order by which RocksDB keeps its keys, as a \<open>linorder\<close> on keys.
  The lemmas give the round trips, the lengths, and the fact the storage code depends on:
  on strings of one length the bytewise order is the order of the big-endian numbers.
\<close>

type_synonym bytes = "u8 list"

section \<open>Little and big endian\<close>

fun le_bytes :: "nat \<Rightarrow> nat \<Rightarrow> u8 list" where
  "le_bytes 0 x = []"
| "le_bytes (Suc n) x = word_of_nat (x mod 256) # le_bytes n (x div 256)"

definition be_bytes :: "nat \<Rightarrow> nat \<Rightarrow> u8 list" where
  "be_bytes n x = rev (le_bytes n x)"

fun of_le :: "u8 list \<Rightarrow> nat" where
  "of_le [] = 0"
| "of_le (b # bs) = unat b + 256 * of_le bs"

definition of_be :: "u8 list \<Rightarrow> nat" where
  "of_be bs = of_le (rev bs)"

definition u32_be :: "u32 \<Rightarrow> u8 list" where
  "u32_be w = be_bytes 4 (unat w)"

definition u32_le :: "u32 \<Rightarrow> u8 list" where
  "u32_le w = le_bytes 4 (unat w)"

definition u64_be :: "u64 \<Rightarrow> u8 list" where
  "u64_be w = be_bytes 8 (unat w)"

definition u64_le :: "u64 \<Rightarrow> u8 list" where
  "u64_le w = le_bytes 8 (unat w)"

definition hash_to_bytes :: "hash_bytes \<Rightarrow> u8 list" where
  "hash_to_bytes h = be_bytes 32 (unat h)"

text \<open>The 64 bytes of an Ed25519 signature.\<close>

definition sig_to_bytes :: "512 word \<Rightarrow> bytes" where
  "sig_to_bytes s = be_bytes 64 (unat s)"

definition sig_of_bytes :: "bytes \<Rightarrow> 512 word" where
  "sig_of_bytes bs = word_of_nat (of_be bs)"

definition u32_of_be :: "u8 list \<Rightarrow> u32" where
  "u32_of_be bs = word_of_nat (of_be bs)"

definition u32_of_le :: "u8 list \<Rightarrow> u32" where
  "u32_of_le bs = word_of_nat (of_le bs)"

definition u64_of_be :: "u8 list \<Rightarrow> u64" where
  "u64_of_be bs = word_of_nat (of_be bs)"

definition u64_of_le :: "u8 list \<Rightarrow> u64" where
  "u64_of_le bs = word_of_nat (of_le bs)"

definition hash_of_bytes :: "u8 list \<Rightarrow> hash_bytes" where
  "hash_of_bytes bs = word_of_nat (of_be bs)"

lemma length_le_bytes [simp]: "length (le_bytes n x) = n"
  by (induction n arbitrary: x) auto

lemma length_be_bytes [simp]: "length (be_bytes n x) = n"
  by (simp add: be_bytes_def)

lemma of_le_le_bytes: "of_le (le_bytes n x) = x mod 256 ^ n"
proof (induction n arbitrary: x)
  case 0
  then show ?case by simp
next
  case (Suc n)
  have "unat (word_of_nat (x mod 256) :: u8) = x mod 256"
    by (simp add: unat_of_nat)
  with Suc.IH [of "x div 256"] show ?case
    by (simp add: mod_mult2_eq)
qed

lemma of_be_be_bytes: "of_be (be_bytes n x) = x mod 256 ^ n"
  by (simp add: of_be_def be_bytes_def of_le_le_bytes)

lemma le_bytes_of_le: "le_bytes (length bs) (of_le bs) = bs"
proof (induction bs)
  case Nil
  then show ?case by simp
next
  case (Cons b bs)
  have b: "unat b < 256" using unat_less_pow [of b] by simp
  then have "(unat b + 256 * of_le bs) mod 256 = unat b"
    and "(unat b + 256 * of_le bs) div 256 = of_le bs" by simp_all
  with Cons.IH show ?case by simp
qed

lemma be_bytes_of_be: "be_bytes (length bs) (of_be bs) = bs"
  using le_bytes_of_le [of "rev bs"] by (simp add: be_bytes_def of_be_def)

lemma of_le_less: "of_le bs < 256 ^ length bs"
proof (induction bs)
  case Nil
  then show ?case by simp
next
  case (Cons b bs)
  have "unat b < 256" using unat_less_pow [of b] by simp
  with Cons.IH show ?case by simp
qed

lemma of_be_less: "of_be bs < 256 ^ length bs"
  using of_le_less [of "rev bs"] by (simp add: of_be_def)

lemma of_le_append: "of_le (xs @ ys) = of_le xs + 256 ^ length xs * of_le ys"
  by (induction xs) (simp_all add: algebra_simps)

lemma of_be_Cons: "of_be (x # xs) = 256 ^ length xs * unat x + of_be xs"
  by (simp add: of_be_def of_le_append)

lemma byte_lengths [simp]:
  "length (u32_be w) = 4" "length (u32_le w) = 4"
  "length (u64_be v) = 8" "length (u64_le v) = 8"
  "length (hash_to_bytes h) = 32"
  by (simp_all add: u32_be_def u32_le_def u64_be_def u64_le_def hash_to_bytes_def)

lemma of_be_u32_be [simp]: "of_be (u32_be w) = unat w"
  using unat_less_pow [of w] by (simp add: u32_be_def of_be_be_bytes)

lemma of_be_u64_be [simp]: "of_be (u64_be w) = unat w"
  using unat_less_pow [of w] by (simp add: u64_be_def of_be_be_bytes)

lemma of_be_hash_to_bytes [simp]: "of_be (hash_to_bytes w) = unat w"
  using unat_less_pow [of w] by (simp add: hash_to_bytes_def of_be_be_bytes)

lemma of_le_u32_le [simp]: "of_le (u32_le w) = unat w"
  using unat_less_pow [of w] by (simp add: u32_le_def of_le_le_bytes)

lemma of_le_u64_le [simp]: "of_le (u64_le w) = unat w"
  using unat_less_pow [of w] by (simp add: u64_le_def of_le_le_bytes)

lemma byte_roundtrips [simp]:
  "u32_of_be (u32_be w) = w"
  "u32_of_le (u32_le w) = w"
  "u64_of_be (u64_be v) = v"
  "u64_of_le (u64_le v) = v"
  "hash_of_bytes (hash_to_bytes h) = h"
  by (simp_all add: u32_of_be_def u32_of_le_def u64_of_be_def u64_of_le_def hash_of_bytes_def)

lemma length_sig_to_bytes [simp]: "length (sig_to_bytes s) = 64"
  by (simp add: sig_to_bytes_def)

lemma sig_roundtrip [simp]: "sig_of_bytes (sig_to_bytes s) = s"
  using unat_less_pow [of s] by (simp add: sig_to_bytes_def sig_of_bytes_def of_be_be_bytes)

lemma u32_be_inj [simp]: "u32_be a = u32_be b \<longleftrightarrow> a = b"
  by (metis byte_roundtrips(1))

lemma u64_be_inj [simp]: "u64_be a = u64_be b \<longleftrightarrow> a = b"
  by (metis byte_roundtrips(3))

lemma u64_le_inj [simp]: "u64_le a = u64_le b \<longleftrightarrow> a = b"
  by (metis byte_roundtrips(4))

lemma hash_to_bytes_inj [simp]: "hash_to_bytes a = hash_to_bytes b \<longleftrightarrow> a = b"
  by (metis byte_roundtrips(5))

section \<open>Signed bytes\<close>

text \<open>\<open>i8::try_from(i32)\<close>, the byte of the result; and the way back by sign extension.\<close>

definition to_i8 :: "i32 \<Rightarrow> u8 option" where
  "to_i8 w = (if -128 \<le> sint w \<and> sint w \<le> 127 then Some (ucast w) else None)"

definition of_i8 :: "u8 \<Rightarrow> i32" where
  "of_i8 b = scast b"

lemma of_i8_to_i8: "to_i8 w = Some b \<Longrightarrow> of_i8 b = w"
proof -
  assume "to_i8 w = Some b"
  then have b: "b = ucast w" and r: "-128 \<le> sint w" "sint w \<le> 127"
    by (auto simp: to_i8_def split: if_splits)
  have "sint b = signed_take_bit 7 (uint w)"
    by (simp add: b sint_uint unsigned_ucast_eq signed_take_bit_take_bit)
  also have "\<dots> = signed_take_bit 7 (sint w)"
    by (simp add: sint_uint)
  also have "\<dots> = sint w" using r by (intro signed_take_bit_int_eq_self) auto
  finally show "of_i8 b = w" by (simp add: of_i8_def scast_eq)
qed

lemma to_i8_of_i8: "to_i8 (of_i8 b) = Some b"
proof -
  have u: "sint (of_i8 b) = sint b"
    by (simp add: of_i8_def sint_up_scast is_up)
  have "-128 \<le> sint b" using sint_ge [of b] by simp
  moreover have "sint b < 128" using sint_lt [of b] by simp
  moreover have "(ucast (of_i8 b) :: u8) = b"
    unfolding of_i8_def by (rule bit_word_eqI) (auto simp: bit_simps)
  ultimately show ?thesis by (simp add: to_i8_def u)
qed

section \<open>The bytewise order of keys\<close>

text \<open>RocksDB's default comparator: lexicographic on unsigned bytes, a prefix first.\<close>

fun bytes_less :: "u8 list \<Rightarrow> u8 list \<Rightarrow> bool" where
  "bytes_less xs [] = False"
| "bytes_less [] (y # ys) = True"
| "bytes_less (x # xs) (y # ys) = (x < y \<or> x = y \<and> bytes_less xs ys)"

lemma bytes_less_irrefl [simp]: "\<not> bytes_less xs xs"
  by (induction xs) auto

lemma bytes_less_trans: "bytes_less xs ys \<Longrightarrow> bytes_less ys zs \<Longrightarrow> bytes_less xs zs"
proof (induction xs ys arbitrary: zs rule: bytes_less.induct)
  case (3 x xs y ys)
  then show ?case by (cases zs) auto
qed (auto elim: bytes_less.elims)

lemma bytes_less_linear: "bytes_less xs ys \<or> xs = ys \<or> bytes_less ys xs"
  by (induction xs ys rule: bytes_less.induct) (auto simp: neq_Nil_conv, metis list.exhaust bytes_less.simps(2))

lemma bytes_less_append:
  "length a = length b \<Longrightarrow>
   bytes_less (a @ x) (b @ y) \<longleftrightarrow> bytes_less a b \<or> a = b \<and> bytes_less x y"
  by (induction a b rule: list_induct2) auto

lemma bytes_less_of_be:
  "length xs = length ys \<Longrightarrow> bytes_less xs ys \<longleftrightarrow> of_be xs < of_be ys"
proof (induction xs ys rule: list_induct2)
  case Nil
  then show ?case by (simp add: of_be_def)
next
  case (Cons x xs y ys)
  let ?m = "256 ^ length xs :: nat"
  have lt: "of_be xs < ?m" "of_be ys < ?m"
    using of_be_less [of xs] of_be_less [of ys] Cons.hyps by simp_all
  consider "unat x < unat y" | "unat x = unat y" | "unat y < unat x" by linarith
  then show ?case
  proof cases
    case 1
    then have "?m * unat x + ?m \<le> ?m * unat y"
      by (metis Suc_leI mult_Suc_right add.commute mult_le_mono2)
    with lt 1 Cons.hyps show ?thesis by (simp add: of_be_Cons word_less_nat_alt)
  next
    case 2
    then have "x = y" by (simp add: word_unat_eq_iff)
    with Cons show ?thesis by (simp add: of_be_Cons)
  next
    case 3
    then have "?m * unat y + ?m \<le> ?m * unat x"
      by (metis Suc_leI mult_Suc_right add.commute mult_le_mono2)
    moreover from 3 have "x \<noteq> y" by auto
    ultimately show ?thesis using lt 3 Cons.hyps by (simp add: of_be_Cons word_less_nat_alt)
  qed
qed

datatype db_key = Key (key_bytes: "u8 list")

instantiation db_key :: linorder
begin

definition less_db_key :: "db_key \<Rightarrow> db_key \<Rightarrow> bool" where
  "less_db_key a b = bytes_less (key_bytes a) (key_bytes b)"

definition less_eq_db_key :: "db_key \<Rightarrow> db_key \<Rightarrow> bool" where
  "less_eq_db_key a b = (a = b \<or> bytes_less (key_bytes a) (key_bytes b))"

instance
proof
  fix x y z :: db_key
  show "(x < y) = (x \<le> y \<and> \<not> y \<le> x)"
    by (auto simp: less_db_key_def less_eq_db_key_def dest: bytes_less_trans)
  show "x \<le> x" by (simp add: less_eq_db_key_def)
  show "x \<le> y \<Longrightarrow> y \<le> z \<Longrightarrow> x \<le> z"
    by (auto simp: less_eq_db_key_def dest: bytes_less_trans)
  show "x \<le> y \<Longrightarrow> y \<le> x \<Longrightarrow> x = y"
    by (auto simp: less_eq_db_key_def dest: bytes_less_trans)
  show "x \<le> y \<or> y \<le> x"
    using bytes_less_linear [of "key_bytes x" "key_bytes y"]
    by (auto simp: less_eq_db_key_def intro: db_key.expand)
qed

end

end
