(* ===== verification/Cell_Api.thy ===== *)
theory Cell_Api
  imports Bytes
begin

text \<open>
  The interface of the cell library (the crate \<open>tycho_types\<close>, not part of this repository).
  Its operations are the fields of the record \<open>cell_lib\<close>, a parameter of every definition
  that uses cells: \<open>'c\<close> is a cell, \<open>'s\<close> a cell slice, \<open>'u\<close> the usage tree that records which
  cells a Merkle proof must keep, \<open>'h\<close> the shard hashes and \<open>'g\<close> the blockchain config.
  Reading may touch the usage tree, so every operation that reads takes it and returns it.
  The public data types of the crate that the sources take apart are records.
\<close>

section \<open>Identifiers\<close>

record shard_ident =
  workchain :: i32
  prefix :: u64

record block_id_short =
  shard :: shard_ident
  seqno :: u32

record block_id = block_id_short +
  root_hash :: hash_bytes
  file_hash :: hash_bytes

record std_addr =
  addr_workchain :: u8
  address :: hash_bytes

text \<open>\<open>ShardIdent::MASTERCHAIN\<close>, \<open>BlockId::as_short_id\<close>, \<open>BlockId::is_masterchain\<close>.\<close>

definition HIGH_BIT :: u64 where
  "HIGH_BIT = push_bit 63 1"

definition MASTERCHAIN :: shard_ident where
  "MASTERCHAIN = \<lparr>workchain = -1, prefix = HIGH_BIT\<rparr>"

definition as_short_id :: "block_id \<Rightarrow> block_id_short" where
  "as_short_id b = \<lparr>shard = shard b, seqno = seqno b\<rparr>"

definition is_masterchain :: "block_id \<Rightarrow> bool" where
  "is_masterchain b \<longleftrightarrow> workchain (shard b) = -1"

section \<open>Reading cells\<close>

text \<open>
  \<open>('u, 'a) io\<close> is code that may touch the usage tree; \<open>('s, 'u, 'a) rd\<close> also moves a
  slice, as a \<open>Load::load_from(slice: &mut CellSlice)\<close> does.
\<close>

type_synonym ('u, 'a) io = "('u, error, 'a) rs"
type_synonym ('s, 'u, 'a) rd = "('s \<times> 'u, error, 'a) rs"

record ('c, 's, 'u, 'h, 'g) cell_lib =
  as_slice :: "'c \<Rightarrow> ('u, 's) io"
  load_bit :: "('s, 'u, bool) rd"
  load_u8 :: "('s, 'u, u8) rd"
  load_u16 :: "('s, 'u, u16) rd"
  load_u32 :: "('s, 'u, u32) rd"
  load_u64 :: "('s, 'u, u64) rd"
  load_u256 :: "('s, 'u, hash_bytes) rd"
  load_small_uint :: "nat \<Rightarrow> ('s, 'u, u8) rd"
  load_reference :: "('s, 'u, 'c) rd"
  load_option_cell :: "('s, 'u, 'c option) rd"
  load_reference_as_slice :: "('s, 'u, 's) rd"
  get_reference :: "nat \<Rightarrow> ('s, 'u, 'c) rd"
  skip_first :: "nat \<Rightarrow> nat \<Rightarrow> ('s, 'u, unit) rd"
  only_last :: "nat \<Rightarrow> nat \<Rightarrow> ('s, 'u, unit) rd"
  load_block_id :: "('s, 'u, block_id) rd"
  load_shard_ident :: "('s, 'u, shard_ident) rd"
  load_global_version :: "('s, 'u, unit) rd"
  load_shard_hashes :: "('s, 'u, 'h) rd"
  load_config :: "('s, 'u, 'g) rd"
  load_validator_info :: "('s, 'u, u32 \<times> u32) rd"
  load_consensus_info :: "('s, 'u, unit) rd"
  load_dict :: "('s, 'u, 'c option) rd"
  load_aug_dict :: "('s, 'u, 'c option) rd"
  load_aug_dict_root :: "('s, 'u, 'c option) rd"
  lazy_from_raw :: "'c \<Rightarrow> error + 'c"
  sh_latest_blocks :: "'h \<Rightarrow> 'u \<Rightarrow> (error + block_id) list \<times> 'u"
  sh_raw_iter :: "'h \<Rightarrow> 'u \<Rightarrow> (error + unit) list \<times> 'u"
  sh_workchain_root :: "'h \<Rightarrow> i32 \<Rightarrow> ('u, 'c option) io"
  account_values :: "'c option \<Rightarrow> 'u \<Rightarrow> (error + 's) list \<times> 'u"
  account_get :: "'c option \<Rightarrow> hash_bytes \<Rightarrow> ('u, 's option) io"
  tx_iter :: "'c option \<Rightarrow> 'u \<Rightarrow> (error + u64) list \<times> 'u"
  tx_get :: "'c option \<Rightarrow> u64 \<Rightarrow> ('u, 'c option) io"
  config_cell :: "'g \<Rightarrow> nat \<Rightarrow> ('u, 'c option) io"
  usage_new :: "'u"
  track :: "'c \<Rightarrow> 'c"
  touch :: "'c \<Rightarrow> 'u \<Rightarrow> 'u"
  touch_recursive :: "'c \<Rightarrow> 'u \<Rightarrow> 'u"
  build_merkle :: "'c \<Rightarrow> 'u \<Rightarrow> error + 'c"
  hash0 :: "'c \<Rightarrow> hash_bytes"

text \<open>\<open>cell.parse::<T>()\<close>: open the cell as a slice and run the loader of \<open>T\<close> on it.\<close>

definition parse ::
  "('c, 's, 'u, 'h, 'g) cell_lib \<Rightarrow> ('s, 'u, 'a) rd \<Rightarrow> 'c \<Rightarrow> ('u, 'a) io" where
  "parse L p c u =
     (case as_slice L c u of
        (Inl e, u1) \<Rightarrow> (Inl e, u1)
      | (Inr cs, u1) \<Rightarrow> (case p (cs, u1) of (r, (_, u2)) \<Rightarrow> (r, u2)))"

text \<open>Run a slice operation on a slice held in a local variable.\<close>

definition on_slice :: "('s, 'u, 'a) rd \<Rightarrow> 's \<Rightarrow> ('u, 'a \<times> 's) io" where
  "on_slice p cs u =
     (case p (cs, u) of
        (Inl e, (_, u1)) \<Rightarrow> (Inl e, u1)
      | (Inr a, (cs1, u1)) \<Rightarrow> (Inr (a, cs1), u1))"

text \<open>\<open>if flag { Some(m?) } else { None }\<close>.\<close>

definition load_if :: "bool \<Rightarrow> ('s, 'e, 'a) rs \<Rightarrow> ('s, 'e, 'a option) rs" where
  "load_if b m = (if b then bnd m (\<lambda>a. ret (Some a)) else ret None)"

definition modify :: "('u \<Rightarrow> 'u) \<Rightarrow> ('u, unit) io" where
  "modify f u = (Inr (), f u)"

definition drain :: "('u \<Rightarrow> (error + 'a) list \<times> 'u) \<Rightarrow> ('u, 'a list) io" where
  "drain it u = (case it u of (xs, u1) \<Rightarrow> (collect xs, u1))"

lemma load_if_simps [rs_simps]:
  "load_if True m = bnd m (\<lambda>a. ret (Some a))"
  "load_if False m = ret None"
  by (simp_all add: load_if_def)

lemma load_if_InrE:
  assumes "load_if b m s = (Inr x, t)"
  obtains "b" and a where "x = Some a" and "m s = (Inr a, t)"
  | "\<not> b" and "x = None" and "t = s"
  using assms by (cases b) (auto simp: rs_simps elim!: rs_elims)

section \<open>Building cells\<close>

text \<open>
  The builder side of the same library. \<open>dict_of_sigs\<close> and \<open>dict_of_weights\<close> are
  \<open>Dict::try_from_sorted_slice(..)?.into_root()\<close> at the two value types in use.
\<close>

type_synonym signature = "512 word"

record ('c, 'b) builder_lib =
  b_new :: 'b
  store_u16 :: "u16 \<Rightarrow> 'b \<Rightarrow> error + 'b"
  store_u32 :: "u32 \<Rightarrow> 'b \<Rightarrow> error + 'b"
  store_u64 :: "u64 \<Rightarrow> 'b \<Rightarrow> error + 'b"
  store_u256 :: "hash_bytes \<Rightarrow> 'b \<Rightarrow> error + 'b"
  store_tokens :: "u128 \<Rightarrow> 'b \<Rightarrow> error + 'b"
  store_reference :: "'c \<Rightarrow> 'b \<Rightarrow> error + 'b"
  build :: "'b \<Rightarrow> error + 'c"
  build_merkle_proof :: "hash_bytes \<Rightarrow> u16 \<Rightarrow> 'c \<Rightarrow> error + 'c"
  cell_hash0 :: "'c \<Rightarrow> hash_bytes"
  cell_depth0 :: "'c \<Rightarrow> u16"
  dict_of_sigs :: "(u16 \<times> signature) list \<Rightarrow> error + 'c option"
  dict_of_weights :: "(u16 \<times> hash_bytes \<times> u64) list \<Rightarrow> error + 'c option"

text \<open>
  What the code relies on of the builder: a builder holds up to 1023 bits and four
  references, kept in the order they were stored; building fails only on a cell deeper than
  the limit. \<open>brefs\<close> and \<open>bbits\<close> look into a builder, \<open>crefs\<close> and \<open>cdepth\<close> into a cell.
\<close>

definition stores_bits :: "('b \<Rightarrow> 'c list) \<Rightarrow> ('b \<Rightarrow> nat) \<Rightarrow> nat \<Rightarrow> ('b \<Rightarrow> error + 'b) \<Rightarrow> bool" where
  "stores_bits brefs bbits n st \<longleftrightarrow>
     (\<forall>b. bbits b + n \<le> 1023 \<longrightarrow>
        (\<exists>b1. st b = Inr b1 \<and> brefs b1 = brefs b \<and> bbits b1 = bbits b + n))"

definition builder_laws ::
  "('c, 'b) builder_lib \<Rightarrow> ('b \<Rightarrow> 'c list) \<Rightarrow> ('b \<Rightarrow> nat) \<Rightarrow> ('c \<Rightarrow> 'c list) \<Rightarrow> ('c \<Rightarrow> nat) \<Rightarrow> nat \<Rightarrow> bool" where
  "builder_laws B brefs bbits crefs cdepth max_depth \<longleftrightarrow>
     brefs (b_new B) = [] \<and> bbits (b_new B) = 0 \<and>
     (\<forall>w. stores_bits brefs bbits 32 (store_u32 B w)) \<and>
     (\<forall>h. stores_bits brefs bbits 256 (store_u256 B h)) \<and>
     (\<forall>c b. length (brefs b) < 4 \<longrightarrow>
        (\<exists>b1. store_reference B c b = Inr b1 \<and> brefs b1 = brefs b @ [c] \<and> bbits b1 = bbits b)) \<and>
     (\<forall>b. (\<forall>r\<in>set (brefs b). cdepth r < max_depth) \<longrightarrow>
        (\<exists>c. build B b = Inr c \<and> crefs c = brefs b \<and>
             (\<forall>k. (\<forall>r\<in>set (brefs b). cdepth r < k) \<longrightarrow> cdepth c \<le> k))) \<and>
     (\<forall>c. cdepth c < max_depth \<longrightarrow>
        (\<exists>p. build_merkle_proof B (cell_hash0 B c) (cell_depth0 B c) c = Inr p \<and> crefs p = [c]))"

lemma builder_lawsD:
  assumes "builder_laws B brefs bbits crefs cdepth max_depth"
  shows "brefs (b_new B) = []"
    and "bbits (b_new B) = 0"
    and "\<forall>w. stores_bits brefs bbits 32 (store_u32 B w)"
    and "\<forall>h. stores_bits brefs bbits 256 (store_u256 B h)"
    and "\<forall>b c. length (brefs b) < 4 \<longrightarrow>
      (\<exists>b1. store_reference B c b = Inr b1 \<and> brefs b1 = brefs b @ [c] \<and> bbits b1 = bbits b)"
    and "\<forall>b. (\<forall>r\<in>set (brefs b). cdepth r < max_depth) \<longrightarrow>
      (\<exists>c. build B b = Inr c \<and> crefs c = brefs b \<and>
           (\<forall>k. (\<forall>r\<in>set (brefs b). cdepth r < k) \<longrightarrow> cdepth c \<le> k))"
    and "\<forall>c. cdepth c < max_depth \<longrightarrow>
      (\<exists>p. build_merkle_proof B (cell_hash0 B c) (cell_depth0 B c) c = Inr p \<and> crefs p = [c])"
  using assms unfolding builder_laws_def by (elim conjE; iprover)+

end
