(* ===== verification/Block_Models.thy ===== *)
theory Block_Models
  imports Cell_Api
begin

text \<open>
  The traits of \<open>util/src/block/mod.rs\<close>: the record \<open>models\<close> holds what \<open>BlockchainModels\<close>
  and the traits of its associated types offer, and the locale \<open>blockchain_models\<close> states
  what the proof builders rely on, whichever network a block comes from. The theories
  \<open>Tycho_Models\<close>, \<open>Ton_Models\<close> and \<open>Legacy_Models\<close> interpret it. Here are also the loaders
  the three networks share and \<open>find_shard_descr\<close>, the walk through a shard tree.
\<close>

section \<open>The traits\<close>

record ('blk, 'info, 'extra, 'mc, 'c, 's, 'u, 'g) models =
  m_load_block :: "('s, 'u, 'blk) rd"
  m_load_info :: "'blk \<Rightarrow> ('u, 'info) io"
  m_load_info_raw :: "'blk \<Rightarrow> ('u, 'c) io"
  m_load_extra :: "'blk \<Rightarrow> ('u, 'extra) io"
  m_is_key_block :: "'info \<Rightarrow> bool"
  m_end_lt :: "'info \<Rightarrow> u64"
  m_prev_ref :: "'info \<Rightarrow> 'c"
  m_load_account_blocks :: "'extra \<Rightarrow> ('u, 'c option) io"
  m_has_custom :: "'extra \<Rightarrow> bool"
  m_load_custom :: "'extra \<Rightarrow> ('u, 'mc option) io"
  m_top_shard_ids :: "'mc \<Rightarrow> ('u, block_id_short list) io"
  m_find_shard_seqno :: "'mc \<Rightarrow> shard_ident \<Rightarrow> ('u, u32) io"
  m_visit_shard_hashes :: "'mc \<Rightarrow> ('u, unit) io"
  m_config :: "'mc \<Rightarrow> 'g option"

section \<open>Shared loaders\<close>

record ('c) base_block_proof =
  proof_for :: block_id
  proof_root :: 'c
  proof_signatures :: "'c option"

definition BASE_PROOF_TAG :: u8 where
  "BASE_PROOF_TAG = 0xc3"

definition load_base_block_proof ::
  "('c, 's, 'u, 'h, 'g) cell_lib \<Rightarrow> ('s, 'u, 'c base_block_proof) rd" where
  "load_base_block_proof L =
     bnd (load_u8 L) (\<lambda>tag.
     bnd (guard (tag = BASE_PROOF_TAG) InvalidTag) (\<lambda>_.
     bnd (load_block_id L) (\<lambda>id.
     bnd (load_reference L) (\<lambda>root.
     bnd (load_bit L) (\<lambda>b.
     bnd (load_if b (bnd (load_reference L) (\<lambda>cell. of_result (lazy_from_raw L cell)))) (\<lambda>sigs.
     ret \<lparr>proof_for = id, proof_root = root, proof_signatures = sigs\<rparr>))))))"

text \<open>\<open>BaseBlockProof::load_signatures\<close>; \<open>load\<close> reads the lazily stored signatures.\<close>

definition load_signatures ::
  "('c \<Rightarrow> ('u, 'a) io) \<Rightarrow> 'c base_block_proof \<Rightarrow> ('u, 'a option) io" where
  "load_signatures load p =
     (case proof_signatures p of
        Some s \<Rightarrow> bnd (load s) (\<lambda>a. ret (Some a))
      | None \<Rightarrow> ret None)"

record ('c) account_block_short =
  ab_account :: hash_bytes
  ab_transactions :: "'c option"

definition load_account_block ::
  "('c, 's, 'u, 'h, 'g) cell_lib \<Rightarrow> ('s, 'u, 'c account_block_short) rd" where
  "load_account_block L =
     bnd (load_small_uint L 4) (\<lambda>tag.
     bnd (guard (tag = 5) InvalidTag) (\<lambda>_.
     bnd (load_u256 L) (\<lambda>account.
     bnd (load_aug_dict_root L) (\<lambda>txs.
     ret \<lparr>ab_account = account, ab_transactions = txs\<rparr>))))"

section \<open>Walking the shard tree\<close>

text \<open>
  The loop of \<open>find_shard_descr\<close> shifts the prefix left until only the marker bit is left
  at the top. It is a recursion whose measure is the number of shifts that remain; the
  debug assertion on a zero prefix is the \<open>Panic\<close> branch.
\<close>

definition shifts_left :: "u64 \<Rightarrow> nat" where
  "shifts_left p = (LEAST n. push_bit n p = HIGH_BIT)"

lemma bit_HIGH_BIT: "bit HIGH_BIT i \<longleftrightarrow> i = 63"
  by (simp only: HIGH_BIT_def push_bit_of_1 bit_exp_iff) auto

lemma shift_to_high:
  assumes "bit p k" and "\<And>i. i < k \<Longrightarrow> \<not> bit p i"
  shows "push_bit (63 - k) p = HIGH_BIT"
proof (rule bit_word_eqI)
  fix n
  assume n: "n < LENGTH(64)"
  from assms(1) have k: "k < 64" using bit_imp_le_length [of p k] by simp
  show "bit (push_bit (63 - k) p) n = bit HIGH_BIT n"
    using n k assms
    by (cases "n = 63") (auto simp: bit_HIGH_BIT bit_push_bit_iff)
qed

lemma bit_shift_one: "bit (push_bit 1 (p::u64)) n \<longleftrightarrow> 1 \<le> n \<and> n < 64 \<and> bit p (n - 1)"
  by (simp only: bit_push_bit_iff) auto

lemma ex_shift:
  assumes "p \<noteq> (0::u64)"
  shows "\<exists>n\<le>63. push_bit n p = HIGH_BIT"
proof -
  from assms obtain k where "bit p k" using bit_word_eqI [of p 0] by auto
  then have "bit p (LEAST i. bit p i)" by (rule LeastI)
  moreover have "\<And>i. i < (LEAST i. bit p i) \<Longrightarrow> \<not> bit p i" by (rule not_less_Least)
  ultimately have "push_bit (63 - (LEAST i. bit p i)) p = HIGH_BIT" by (rule shift_to_high)
  then show ?thesis by (metis diff_le_self)
qed

lemma shifts_left_le: "p \<noteq> 0 \<Longrightarrow> shifts_left p \<le> 63"
  using ex_shift [of p] unfolding shifts_left_def by (metis (mono_tags, lifting) Least_le order_trans)

lemma shifts_left_step:
  assumes "p \<noteq> 0" and "p \<noteq> HIGH_BIT"
  shows "shifts_left p = Suc (shifts_left (push_bit 1 p))"
proof -
  have ex: "push_bit (shifts_left p) p = HIGH_BIT"
    unfolding shifts_left_def using ex_shift [OF assms(1)] by (metis (mono_tags, lifting) LeastI)
  with assms(2) obtain m where m: "shifts_left p = Suc m"
    by (cases "shifts_left p") auto
  have "push_bit m (push_bit 1 p) = HIGH_BIT"
    using ex m by (simp add: push_bit_push_bit)
  moreover have "m \<le> n" if "push_bit n (push_bit 1 p) = HIGH_BIT" for n
  proof -
    from that have "push_bit (Suc n) p = HIGH_BIT" by (simp add: push_bit_push_bit)
    then have "shifts_left p \<le> Suc n" unfolding shifts_left_def by (rule Least_le)
    with m show ?thesis by simp
  qed
  ultimately have "shifts_left (push_bit 1 p) = m"
    unfolding shifts_left_def by (intro Least_equality)
  with m show ?thesis by simp
qed

lemma shift_nonzero:
  assumes "p \<noteq> 0" and "p \<noteq> HIGH_BIT"
  shows "push_bit 1 p \<noteq> 0"
proof
  assume z: "push_bit 1 p = 0"
  obtain n where n: "push_bit n p = HIGH_BIT" using ex_shift [OF assms(1)] by blast
  with assms(2) obtain m where "n = Suc m" by (cases n) auto
  with n have "push_bit m (push_bit 1 p) = HIGH_BIT" by (simp add: push_bit_push_bit)
  with z have "HIGH_BIT = 0" by simp
  with bit_HIGH_BIT [of 63] show False by simp
qed

text \<open>\<open>find_shard_descr\<close>: the slice of the leaf for a shard prefix, after its tag bit.\<close>

function find_shard_descr ::
  "('c, 's, 'u, 'h, 'g) cell_lib \<Rightarrow> 'c \<Rightarrow> u64 \<Rightarrow> ('u, 's) io" where
  "find_shard_descr L root p =
     (if p = 0 then fail Panic
      else if p \<noteq> HIGH_BIT then
        bnd (as_slice L root) (\<lambda>cs.
        bnd (on_slice (load_bit L) cs) (\<lambda>(fork, cs).
        bnd (guard fork InvalidData) (\<lambda>_.
        bnd (on_slice (get_reference L (if p AND HIGH_BIT \<noteq> 0 then 1 else 0)) cs) (\<lambda>(child, cs).
        find_shard_descr L child (push_bit 1 p)))))
      else
        bnd (as_slice L root) (\<lambda>cs.
        bnd (on_slice (load_bit L) cs) (\<lambda>(fork, cs).
        bnd (guard (\<not> fork) InvalidTag) (\<lambda>_.
        ret cs))))"
  by pat_completeness auto
termination
  by (relation "measure (\<lambda>(L, root, p). shifts_left p)") (auto simp: shifts_left_step)

declare find_shard_descr.simps [simp del]

text \<open>
  The abstract view: the bits of the prefix above its marker name the branches from the
  root, and the walk follows that path.
\<close>

definition shard_path :: "u64 \<Rightarrow> bool list" where
  "shard_path p = map (\<lambda>i. bit p (63 - i)) [0..<shifts_left p]"

fun follow_path ::
  "('c, 's, 'u, 'h, 'g) cell_lib \<Rightarrow> 'c \<Rightarrow> bool list \<Rightarrow> ('u, 's) io" where
  "follow_path L root [] =
     bnd (as_slice L root) (\<lambda>cs.
     bnd (on_slice (load_bit L) cs) (\<lambda>(fork, cs).
     bnd (guard (\<not> fork) InvalidTag) (\<lambda>_. ret cs)))"
| "follow_path L root (b # bs) =
     bnd (as_slice L root) (\<lambda>cs.
     bnd (on_slice (load_bit L) cs) (\<lambda>(fork, cs).
     bnd (guard fork InvalidData) (\<lambda>_.
     bnd (on_slice (get_reference L (if b then 1 else 0)) cs) (\<lambda>(child, cs).
     follow_path L child bs))))"

lemma high_bit_test: "p AND HIGH_BIT \<noteq> 0 \<longleftrightarrow> bit (p::u64) 63"
proof
  assume "bit p 63"
  then have "bit (p AND HIGH_BIT) 63" by (simp add: bit_and_iff bit_HIGH_BIT)
  then show "p AND HIGH_BIT \<noteq> 0" by auto
next
  assume "p AND HIGH_BIT \<noteq> 0"
  then obtain n where "bit (p AND HIGH_BIT) n" using bit_word_eqI [of "p AND HIGH_BIT" 0] by auto
  then show "bit p 63" by (auto simp: bit_and_iff bit_HIGH_BIT)
qed

lemma shard_path_high [simp]: "shard_path HIGH_BIT = []"
proof -
  have "shifts_left HIGH_BIT = 0"
    unfolding shifts_left_def by (rule Least_eq_0) simp
  then show ?thesis by (simp add: shard_path_def)
qed

lemma shard_path_step:
  assumes "p \<noteq> 0" and "p \<noteq> HIGH_BIT"
  shows "shard_path p = bit p 63 # shard_path (push_bit 1 p)"
proof -
  let ?n = "shifts_left (push_bit 1 p)"
  have "[0..<shifts_left p] = 0 # map Suc [0..<?n]"
    by (simp add: shifts_left_step [OF assms] map_Suc_upt upt_conv_Cons del: upt_Suc)
  moreover have "bit p (63 - Suc i) = bit (push_bit 1 p) (63 - i)" if "i < ?n" for i
  proof -
    from that shifts_left_le [OF assms(1)] have "1 \<le> 63 - i" "63 - Suc i = 63 - i - 1"
      by (auto simp: shifts_left_step [OF assms])
    then show ?thesis by (simp only: bit_shift_one) auto
  qed
  ultimately show ?thesis by (simp add: shard_path_def)
qed

lemma find_shard_descr_follows:
  assumes "p \<noteq> 0"
  shows "find_shard_descr L root p = follow_path L root (shard_path p)"
  using assms
proof (induction L root p rule: find_shard_descr.induct)
  case (1 L root p)
  show ?case
  proof (cases "p = HIGH_BIT")
    case True
    with "1.prems" show ?thesis by (subst find_shard_descr.simps) simp
  next
    case False
    have IH: "find_shard_descr L c (push_bit 1 p) = follow_path L c (shard_path (push_bit 1 p))" for c
      using "1.IH" [OF "1.prems" False] shift_nonzero [OF "1.prems" False] by blast
    show ?thesis
      using "1.prems" False IH
      by (subst find_shard_descr.simps) (simp add: shard_path_step high_bit_test)
  qed
qed

text \<open>The rest of \<open>find_shard_seqno\<close>: read the sequence number off the leaf.\<close>

definition descr_seqno ::
  "('c, 's, 'u, 'h, 'g) cell_lib \<Rightarrow> (u8 \<Rightarrow> bool) \<Rightarrow> 's \<Rightarrow> ('u, u32) io" where
  "descr_seqno L known cs =
     bnd (on_slice (load_small_uint L 4) cs) (\<lambda>(tag, cs).
     if known tag then
       bnd (on_slice (load_u32 L) cs) (\<lambda>(n, cs). ret n)
     else fail InvalidTag)"

text \<open>The iteration over the latest blocks, keeping their short ids.\<close>

fun push_short_ids :: "(error + block_id) list \<Rightarrow> block_id_short list \<Rightarrow> error + block_id_short list" where
  "push_short_ids [] ids = Inr ids"
| "push_short_ids (Inl e # es) ids = Inl e"
| "push_short_ids (Inr b # es) ids = push_short_ids es (ids @ [as_short_id b])"

lemma push_short_ids_eq:
  "push_short_ids es ids = bindR (collect es) (\<lambda>bs. Inr (ids @ map as_short_id bs))"
  by (induction es ids rule: push_short_ids.induct) (auto split: sum.splits simp: bindR_def)

section \<open>The contract of the traits\<close>

locale blockchain_models =
  fixes L :: "('c, 's, 'u, 'h, 'g) cell_lib"
    and M :: "('blk, 'info, 'extra, 'mc, 'c, 's, 'u, 'g) models"
    and info_loader :: "('s, 'u, 'info) rd"
    and info_cell :: "'blk \<Rightarrow> 'c"
    and hashes :: "'mc \<Rightarrow> 'h"
    and known_descr :: "u8 \<Rightarrow> bool"
  assumes info_raw: "m_load_info_raw M b = ret (info_cell b)"
    and info_parse: "m_load_info M b = parse L info_loader (info_cell b)"
    and custom_none: "\<not> m_has_custom M e \<Longrightarrow> m_load_custom M e = ret None"
    and custom_some: "m_has_custom M e \<Longrightarrow> fst (m_load_custom M e u) \<noteq> Inr None"
    and top_ids: "m_top_shard_ids M mc =
      (\<lambda>u. case sh_latest_blocks L (hashes mc) u of (es, u1) \<Rightarrow> (push_short_ids es [], u1))"
    and find_seqno: "m_find_shard_seqno M mc sh =
      bnd (sh_workchain_root L (hashes mc) (workchain sh)) (\<lambda>r.
      bnd (of_result (ok_or CellUnderflow r)) (\<lambda>root.
      bnd (find_shard_descr L root (prefix sh)) (descr_seqno L known_descr)))"
begin

lemma load_info_via_raw: "m_load_info M b = bnd (m_load_info_raw M b) (parse L info_loader)"
  by (simp add: info_raw info_parse bnd_ret)

lemma custom_required:
  "bnd (m_load_custom M e) (\<lambda>c. of_result (ok_or CellUnderflow c)) u = (Inr mc, u1) \<Longrightarrow> m_has_custom M e"
  by (cases "m_has_custom M e") (auto simp: custom_none rs_simps rs_apply)

lemma custom_missing:
  "\<not> m_has_custom M e \<Longrightarrow>
   bnd (m_load_custom M e) (\<lambda>c. bnd (of_result (ok_or CellUnderflow c)) f) = fail CellUnderflow"
  by (simp add: custom_none rs_simps)

lemma top_ids_are_latest:
  assumes "sh_latest_blocks L (hashes mc) u = (map Inr bs, u1)"
  shows "m_top_shard_ids M mc u = (Inr (map as_short_id bs), u1)"
  using assms by (simp add: top_ids push_short_ids_eq)

lemma find_seqno_path:
  assumes "prefix sh \<noteq> 0"
  shows "m_find_shard_seqno M mc sh =
      bnd (sh_workchain_root L (hashes mc) (workchain sh)) (\<lambda>r.
      bnd (of_result (ok_or CellUnderflow r)) (\<lambda>root.
      bnd (follow_path L root (shard_path (prefix sh))) (descr_seqno L known_descr)))"
  by (simp add: find_seqno find_shard_descr_follows [OF assms])

end

end
