(* ===== verification/Block_Proofs.thy ===== *)
theory Block_Proofs
  imports Block_Models
begin

text \<open>
  The proof builders of \<open>util/src/block/mod.rs\<close>, over any network \<open>M\<close> of blocks. Each tracks
  the root with a usage tree, reads what the proof must contain, builds the Merkle proof from
  the tree and compares the hash of the result with that of the block.
\<close>

section \<open>Parts the builders share\<close>

definition build_proof_cell :: "('c, 's, 'u, 'h, 'g) cell_lib \<Rightarrow> 'c \<Rightarrow> ('u, 'c) io" where
  "build_proof_cell L block_root u =
     (case build_merkle L block_root u of
        Inl e \<Rightarrow> (Inl e, u)
      | Inr pruned \<Rightarrow>
          if hash0 L pruned \<noteq> hash0 L block_root then (Inl InvalidData, u) else (Inr pruned, u))"

definition run_io :: "('u, 'a) io \<Rightarrow> 'u \<Rightarrow> error + 'a" where
  "run_io m u = fst (m u)"

text \<open>\<open>extra.load_custom()?.ok_or(Error::CellUnderflow)?\<close>\<close>

definition require_custom ::
  "('blk, 'info, 'extra, 'mc, 'c, 's, 'u, 'g) models \<Rightarrow> 'extra \<Rightarrow> ('u, 'mc) io" where
  "require_custom M extra =
     bnd (m_load_custom M extra) (\<lambda>custom. of_result (ok_or CellUnderflow custom))"

definition open_block ::
  "('c, 's, 'u, 'h, 'g) cell_lib \<Rightarrow> ('blk, 'info, 'extra, 'mc, 'c, 's, 'u, 'g) models \<Rightarrow>
   'c \<Rightarrow> ('u, 'blk) io" where
  "open_block L M block_root = parse L (m_load_block M) (track L block_root)"

section \<open>Reading the pivot block\<close>

record mc_block_bound_info =
  bound_end_lt :: u64
  shard_ids :: "block_id_short list"

definition parse_latest_shard_blocks ::
  "('c, 's, 'u, 'h, 'g) cell_lib \<Rightarrow> ('blk, 'info, 'extra, 'mc, 'c, 's, 'u, 'g) models \<Rightarrow>
   'c \<Rightarrow> ('u, mc_block_bound_info) io" where
  "parse_latest_shard_blocks L M block_root =
     bnd (parse L (m_load_block M) block_root) (\<lambda>block.
     bnd (m_load_info M block) (\<lambda>info.
     bnd (m_load_extra M block) (\<lambda>extra.
     bnd (require_custom M extra) (\<lambda>custom.
     bnd (m_top_shard_ids M custom) (\<lambda>ids.
     ret \<lparr>bound_end_lt = m_end_lt M info, shard_ids = ids\<rparr>)))))"

section \<open>The pruned block and its transactions\<close>

text \<open>
  \<open>make_pruned_block\<close> calls \<open>on_tx\<close> for every transaction it meets. The callback has a state
  of its own, \<open>'x\<close>, which outlives an error; the usage tree is local to the call.
\<close>

definition on_usage :: "('u, 'a) io \<Rightarrow> ('u \<times> 'x, error, 'a) rs" where
  "on_usage m s = (case m (fst s) of (r, u) \<Rightarrow> (r, (u, snd s)))"

definition on_ctx :: "('x, error, 'a) rs \<Rightarrow> ('u \<times> 'x, error, 'a) rs" where
  "on_ctx m s = (case m (snd s) of (r, x) \<Rightarrow> (r, (fst s, x)))"

definition items_of :: "('u \<Rightarrow> 'i list \<times> 'u) \<Rightarrow> ('u, 'i list) io" where
  "items_of it u = (case it u of (xs, u1) \<Rightarrow> (Inr xs, u1))"

definition read_account ::
  "('c, 's, 'u, 'h, 'g) cell_lib \<Rightarrow> 's \<Rightarrow> ('u, 'c account_block_short) io" where
  "read_account L cs = bnd (on_slice (load_account_block L) cs) (\<lambda>(ab, _). ret ab)"

definition visit_tx ::
  "(hash_bytes \<Rightarrow> u64 \<Rightarrow> ('x, error, unit) rs) \<Rightarrow> hash_bytes \<Rightarrow> error + u64 \<Rightarrow> ('u \<times> 'x, error, unit) rs" where
  "visit_tx on_tx account item = bnd (of_result item) (\<lambda>lt. on_ctx (on_tx account lt))"

definition visit_account ::
  "('c, 's, 'u, 'h, 'g) cell_lib \<Rightarrow> (hash_bytes \<Rightarrow> u64 \<Rightarrow> ('x, error, unit) rs) \<Rightarrow>
   error + 's \<Rightarrow> ('u \<times> 'x, error, unit) rs" where
  "visit_account L on_tx item =
     bnd (of_result item) (\<lambda>cs.
     bnd (on_usage (read_account L cs)) (\<lambda>account_block.
     bnd (on_usage (items_of (tx_iter L (map_option (track L) (ab_transactions account_block))))) (\<lambda>items.
     for_each items (visit_tx on_tx (ab_account account_block)))))"

text \<open>Masterchain blocks keep their full block info.\<close>

definition include_mc_info ::
  "('c, 's, 'u, 'h, 'g) cell_lib \<Rightarrow> ('blk, 'info, 'extra, 'mc, 'c, 's, 'u, 'g) models \<Rightarrow>
   'blk \<Rightarrow> 'extra \<Rightarrow> ('u, unit) io" where
  "include_mc_info L M raw_block extra =
     (if m_has_custom M extra
      then bnd (m_load_info_raw M raw_block) (\<lambda>info. modify (touch_recursive L info))
      else ret ())"

definition pruned_block_body ::
  "('c, 's, 'u, 'h, 'g) cell_lib \<Rightarrow> ('blk, 'info, 'extra, 'mc, 'c, 's, 'u, 'g) models \<Rightarrow>
   (hash_bytes \<Rightarrow> u64 \<Rightarrow> ('x, error, unit) rs) \<Rightarrow> 'c \<Rightarrow> ('u \<times> 'x, error, 'c) rs" where
  "pruned_block_body L M on_tx block_root =
     bnd (on_usage (open_block L M block_root)) (\<lambda>raw_block.
     bnd (on_usage (m_load_extra M raw_block)) (\<lambda>extra.
     bnd (on_usage (include_mc_info L M raw_block extra)) (\<lambda>_.
     bnd (on_usage (m_load_account_blocks M extra)) (\<lambda>account_blocks.
     bnd (on_usage (items_of (account_values L account_blocks))) (\<lambda>items.
     bnd (for_each items (visit_account L on_tx)) (\<lambda>_.
     on_usage (build_proof_cell L block_root)))))))"

definition make_pruned_block ::
  "('c, 's, 'u, 'h, 'g) cell_lib \<Rightarrow> ('blk, 'info, 'extra, 'mc, 'c, 's, 'u, 'g) models \<Rightarrow>
   (hash_bytes \<Rightarrow> u64 \<Rightarrow> ('x, error, unit) rs) \<Rightarrow> 'c \<Rightarrow> ('x, error, 'c) rs" where
  "make_pruned_block L M on_tx block_root x =
     (case pruned_block_body L M on_tx block_root (usage_new L, x) of (r, (_, x1)) \<Rightarrow> (r, x1))"

section \<open>The other proofs\<close>

definition make_pivot_block_proof ::
  "('c, 's, 'u, 'h, 'g) cell_lib \<Rightarrow> ('blk, 'info, 'extra, 'mc, 'c, 's, 'u, 'g) models \<Rightarrow>
   bool \<Rightarrow> 'c \<Rightarrow> error + 'c" where
  "make_pivot_block_proof L M is_mc block_root =
     run_io (bnd (open_block L M block_root) (\<lambda>raw_block.
       bnd (if is_mc then
              bnd (m_load_info_raw M raw_block) (\<lambda>info.
              bnd (modify (touch_recursive L info)) (\<lambda>_.
              bnd (m_load_extra M raw_block) (\<lambda>extra.
              bnd (require_custom M extra) (\<lambda>custom.
              m_visit_shard_hashes M custom))))
            else
              bnd (m_load_info M raw_block) (\<lambda>info.
              modify (touch L (m_prev_ref M info)))) (\<lambda>_.
       build_proof_cell L block_root))) (usage_new L)"

definition make_key_block_proof ::
  "('c, 's, 'u, 'h, 'g) cell_lib \<Rightarrow> ('blk, 'info, 'extra, 'mc, 'c, 's, 'u, 'g) models \<Rightarrow>
   'c \<Rightarrow> bool \<Rightarrow> error + 'c" where
  "make_key_block_proof L M block_root with_prev_vset =
     run_io (bnd (open_block L M block_root) (\<lambda>raw_block.
       bnd (m_load_info M raw_block) (\<lambda>_.
       bnd (m_load_extra M raw_block) (\<lambda>extra.
       bnd (require_custom M extra) (\<lambda>custom.
       bnd (of_result (ok_or CellUnderflow (m_config M custom))) (\<lambda>config.
       bnd (bnd (config_cell L config 34) (\<lambda>c. of_result (ok_or CellUnderflow c))) (\<lambda>current_vset.
       bnd (modify (touch_recursive L current_vset)) (\<lambda>_.
       bnd (if with_prev_vset then
              bnd (config_cell L config 32) (\<lambda>prev.
              case prev of
                Some prev_vset \<Rightarrow> modify (touch_recursive L prev_vset)
              | None \<Rightarrow> ret ())
            else ret ()) (\<lambda>_.
       build_proof_cell L block_root))))))))) (usage_new L)"

record ('c) mc_proof_for_shard =
  mc_root :: 'c
  latest_shard_seqno :: u32

definition make_mc_proof ::
  "('c, 's, 'u, 'h, 'g) cell_lib \<Rightarrow> ('blk, 'info, 'extra, 'mc, 'c, 's, 'u, 'g) models \<Rightarrow>
   'c \<Rightarrow> shard_ident \<Rightarrow> error + 'c mc_proof_for_shard" where
  "make_mc_proof L M block_root shard_id =
     run_io (bnd (open_block L M block_root) (\<lambda>raw_block.
       bnd (m_load_info M raw_block) (\<lambda>_.
       bnd (m_load_extra M raw_block) (\<lambda>extra.
       bnd (require_custom M extra) (\<lambda>custom.
       bnd (m_find_shard_seqno M custom shard_id) (\<lambda>n.
       bnd (build_proof_cell L block_root) (\<lambda>pruned.
       ret \<lparr>mc_root = pruned, latest_shard_seqno = n\<rparr>))))))) (usage_new L)"

text \<open>\<open>account_blocks.get(account)\<close> loads the value it finds.\<close>

definition get_account ::
  "('c, 's, 'u, 'h, 'g) cell_lib \<Rightarrow> 'c option \<Rightarrow> hash_bytes \<Rightarrow> ('u, 'c account_block_short option) io" where
  "get_account L account_blocks account =
     bnd (account_get L account_blocks account) (\<lambda>item.
     case item of
       None \<Rightarrow> ret None
     | Some cs \<Rightarrow> bnd (read_account L cs) (\<lambda>ab. ret (Some ab)))"

definition make_tx_proof ::
  "('c, 's, 'u, 'h, 'g) cell_lib \<Rightarrow> ('blk, 'info, 'extra, 'mc, 'c, 's, 'u, 'g) models \<Rightarrow>
   'c \<Rightarrow> hash_bytes \<Rightarrow> u64 \<Rightarrow> bool \<Rightarrow> error + 'c option" where
  "make_tx_proof L M block_root account lt include_info =
     run_io (bnd (open_block L M block_root) (\<lambda>raw_block.
       bnd (if include_info then
              bnd (m_load_info M raw_block) (\<lambda>info.
              modify (touch L (m_prev_ref M info)))
            else ret ()) (\<lambda>_.
       bnd (m_load_extra M raw_block) (\<lambda>extra.
       bnd (m_load_account_blocks M extra) (\<lambda>account_blocks.
       bnd (ok_flatten (get_account L account_blocks account)) (\<lambda>found.
       case found of
         None \<Rightarrow> ret None
       | Some account_block \<Rightarrow>
           bnd (ok_flatten (tx_get L (map_option (track L) (ab_transactions account_block)) lt)) (\<lambda>tx.
           case tx of
             None \<Rightarrow> ret None
           | Some _ \<Rightarrow> bnd (build_proof_cell L block_root) (\<lambda>pruned. ret (Some pruned)))))))))
       (usage_new L)"

section \<open>Proofs keep the hash of the block\<close>

lemma build_proof_cell_hash:
  "build_proof_cell L r u = (Inr p, u1) \<Longrightarrow> hash0 L p = hash0 L r \<and> u1 = u"
  by (auto simp: build_proof_cell_def split: sum.splits if_splits)

lemma run_io_InrE:
  assumes "run_io m u = Inr a"
  obtains u1 where "m u = (Inr a, u1)"
  using assms unfolding run_io_def by (cases "m u") auto

lemma on_usage_InrE:
  assumes "on_usage m s = (Inr a, t)"
  obtains u where "m (fst s) = (Inr a, u)" and "t = (u, snd s)"
  using assms by (auto simp: on_usage_def split: prod.splits)

lemma make_pruned_block_hash:
  assumes "make_pruned_block L M f r x = (Inr p, x1)"
  shows "hash0 L p = hash0 L r"
  using assms unfolding make_pruned_block_def pruned_block_body_def
  by (auto split: prod.splits elim!: bnd_InrE on_usage_InrE dest: build_proof_cell_hash)

lemma make_pivot_block_proof_hash:
  "make_pivot_block_proof L M is_mc r = Inr p \<Longrightarrow> hash0 L p = hash0 L r"
  unfolding make_pivot_block_proof_def
  by (elim run_io_InrE bnd_InrE) (auto dest: build_proof_cell_hash)

lemma make_key_block_proof_hash:
  "make_key_block_proof L M r w = Inr p \<Longrightarrow> hash0 L p = hash0 L r"
  unfolding make_key_block_proof_def
  by (elim run_io_InrE bnd_InrE) (auto dest: build_proof_cell_hash)

lemma make_mc_proof_hash:
  "make_mc_proof L M r sh = Inr p \<Longrightarrow> hash0 L (mc_root p) = hash0 L r"
  unfolding make_mc_proof_def
  by (elim run_io_InrE bnd_InrE ret_InrE) (auto dest: build_proof_cell_hash)

lemma make_tx_proof_hash:
  "make_tx_proof L M r a lt b = Inr (Some p) \<Longrightarrow> hash0 L p = hash0 L r"
  unfolding make_tx_proof_def
  by (elim run_io_InrE bnd_InrE)
     (auto split: option.splits dest: build_proof_cell_hash elim!: bnd_InrE ret_InrE)

section \<open>What the callback of the pruned block sees\<close>

text \<open>A callback that only records its calls, and the calls as a loop over what it recorded.\<close>

definition record_tx :: "hash_bytes \<Rightarrow> u64 \<Rightarrow> ((hash_bytes \<times> u64) list, error, unit) rs" where
  "record_tx account lt txs = (Inr (), txs @ [(account, lt)])"

definition call_each ::
  "(hash_bytes \<Rightarrow> u64 \<Rightarrow> ('x, error, unit) rs) \<Rightarrow> (hash_bytes \<times> u64) list \<Rightarrow> ('x, error, unit) rs" where
  "call_each f txs = for_each txs (\<lambda>(account, lt). f account lt)"

text \<open>\<open>replays m f ts u u1\<close>: \<open>m\<close> makes the calls \<open>ts\<close> and nothing else, up to the first error.\<close>

definition replays ::
  "('u \<times> 'x, error, unit) rs \<Rightarrow> (hash_bytes \<Rightarrow> u64 \<Rightarrow> ('x, error, unit) rs) \<Rightarrow>
   (hash_bytes \<times> u64) list \<Rightarrow> 'u \<Rightarrow> 'u \<Rightarrow> bool" where
  "replays m f ts u u1 \<longleftrightarrow> (\<forall>x.
     case call_each f ts x of
       (Inr _, x1) \<Rightarrow> m (u, x) = (Inr (), (u1, x1))
     | (Inl e, x1) \<Rightarrow> (\<exists>u2. m (u, x) = (Inl e, (u2, x1))))"

lemma call_each_Nil [simp]: "call_each f [] x = (Inr (), x)"
  by (simp add: call_each_def rs_apply)

lemma call_each_append: "call_each f (xs @ ys) = bnd (call_each f xs) (\<lambda>_. call_each f ys)"
  by (simp add: call_each_def for_each_append)

lemma replays_InrD:
  "replays m f ts u u1 \<Longrightarrow> call_each f ts x = (Inr a, x1) \<Longrightarrow> m (u, x) = (Inr (), (u1, x1))"
  unfolding replays_def by (drule spec [of _ x]) simp

lemma replays_InlD:
  "replays m f ts u u1 \<Longrightarrow> call_each f ts x = (Inl e, x1) \<Longrightarrow> \<exists>u2. m (u, x) = (Inl e, (u2, x1))"
  unfolding replays_def by (drule spec [of _ x]) simp

lemma replaysI:
  assumes "\<And>x x1. call_each f ts x = (Inr (), x1) \<Longrightarrow> m (u, x) = (Inr (), (u1, x1))"
    and "\<And>x x1 e. call_each f ts x = (Inl e, x1) \<Longrightarrow> \<exists>u2. m (u, x) = (Inl e, (u2, x1))"
  shows "replays m f ts u u1"
  unfolding replays_def using assms by (auto split: prod.splits sum.splits)

lemma replays_bnd:
  assumes m: "replays m f ts u u1" and n: "replays n f ts2 u1 u2"
  shows "replays (bnd m (\<lambda>_. n)) f (ts @ ts2) u u2"
proof (rule replaysI)
  fix x x1
  assume "call_each f (ts @ ts2) x = (Inr (), x1)"
  then obtain a y where y: "call_each f ts x = (Inr a, y)" "call_each f ts2 y = (Inr (), x1)"
    unfolding call_each_append by (rule bnd_InrE)
  then show "bnd m (\<lambda>_. n) (u, x) = (Inr (), (u2, x1))"
    using replays_InrD [OF m y(1)] replays_InrD [OF n y(2)] by (simp add: bnd_def)
next
  fix x x1 e
  assume e: "call_each f (ts @ ts2) x = (Inl e, x1)"
  show "\<exists>u3. bnd m (\<lambda>_. n) (u, x) = (Inl e, (u3, x1))"
  proof (cases "call_each f ts x")
    case (Pair r y)
    show ?thesis
    proof (cases r)
      case (Inl d)
      with e Pair have "d = e" "y = x1" by (simp_all add: call_each_append bnd_def)
      with replays_InlD [OF m, of x d y] Pair Inl show ?thesis by (auto simp: bnd_def)
    next
      case (Inr a)
      with e Pair have "call_each f ts2 y = (Inl e, x1)" by (simp add: call_each_append bnd_def)
      with replays_InlD [OF n] replays_InrD [OF m, of x a y] Pair Inr show ?thesis
        by (simp add: bnd_def)
    qed
  qed
qed

lemma replays_ret: "replays (ret ()) f [] u u"
  by (simp add: replays_def rs_apply)

lemma replays_prefix:
  assumes "\<And>x :: 'x. m (u, x) = (Inr a, (u1, x))" and "replays (n a) f ts u1 u2"
  shows "replays (bnd m n) (f :: hash_bytes \<Rightarrow> u64 \<Rightarrow> ('x, error, unit) rs) ts u u2"
proof -
  have step: "bnd m n (u, x) = n a (u1, x)" for x
    using assms(1) by (rule bnd_eq_Inr)
  show ?thesis
    using replays_InrD [OF assms(2)] replays_InlD [OF assms(2)] by (intro replaysI) (simp_all add: step)
qed

lemma visit_tx_record:
  assumes "visit_tx record_tx account item (u, xs) = (Inr (), (u1, ys))"
  obtains lt where "item = Inr lt" "u1 = u" "ys = xs @ [(account, lt)]"
  using assms by (cases item) (auto simp: visit_tx_def rs_simps rs_apply on_ctx_def record_tx_def)

lemma visit_txs_record:
  "for_each items (visit_tx record_tx account) (u, xs) = (Inr (), (u1, ys)) \<Longrightarrow>
   \<exists>lts. items = map Inr lts \<and> u1 = u \<and> ys = xs @ map (Pair account) lts"
proof (induction items arbitrary: xs)
  case Nil
  then show ?case by (auto simp: rs_apply)
next
  case (Cons item items)
  from Cons.prems obtain s where s: "visit_tx record_tx account item (u, xs) = (Inr (), s)"
    "for_each items (visit_tx record_tx account) s = (Inr (), (u1, ys))"
    by (auto elim!: bnd_InrE)
  obtain u0 xs0 where "s = (u0, xs0)" by (cases s)
  with s(1) obtain lt where lt: "item = Inr lt" "s = (u, xs @ [(account, lt)])"
    using visit_tx_record [of account item u xs u0 xs0] by metis
  from s(2) have "for_each items (visit_tx record_tx account) (u, xs @ [(account, lt)]) = (Inr (), (u1, ys))"
    by (simp only: lt(2))
  from Cons.IH [OF this] obtain lts where "items = map Inr lts" "u1 = u"
    "ys = xs @ [(account, lt)] @ map (Pair account) lts" by auto
  with lt(1) show ?case by (auto intro: exI [of _ "lt # lts"])
qed

lemma visit_txs_replay:
  "replays (for_each (map Inr lts) (visit_tx f account)) f (map (Pair account) lts) u u"
proof (induction lts)
  case Nil
  then show ?case by (simp add: replays_ret)
next
  case (Cons lt lts)
  have "replays (visit_tx f account (Inr lt)) f [(account, lt)] u u"
    by (auto simp: replays_def visit_tx_def rs_simps on_ctx_def call_each_def bnd_def rs_apply
        split: prod.splits sum.splits)
  from replays_bnd [OF this Cons.IH] show ?case by simp
qed

lemma on_usage_pass:
  assumes "m u = (Inr a, u1)"
  shows "on_usage m (u, x) = (Inr a, (u1, x))"
  using assms by (simp add: on_usage_def)

lemma visit_account_replay:
  assumes "visit_account L record_tx item (u, xs) = (Inr (), (u1, ys))"
  shows "\<exists>ts. ys = xs @ ts \<and> replays (visit_account L f item) f ts u u1"
proof -
  from assms obtain cs ab items u2 u3 where
    r: "item = Inr cs" "read_account L cs u = (Inr ab, u2)"
    "items_of (tx_iter L (map_option (track L) (ab_transactions ab))) u2 = (Inr items, u3)"
    "for_each items (visit_tx record_tx (ab_account ab)) (u3, xs) = (Inr (), (u1, ys))"
    unfolding visit_account_def
    by (auto simp: rs_apply elim!: bnd_InrE on_usage_InrE)
  from visit_txs_record [OF r(4)] obtain lts where
    lts: "items = map Inr lts" "u1 = u3" "ys = xs @ map (Pair (ab_account ab)) lts" by blast
  have "replays (visit_account L f item) f (map (Pair (ab_account ab)) lts) u u1"
    unfolding visit_account_def r(1) bnd_of_result_Inr
    apply (rule replays_prefix, rule on_usage_pass, rule r(2))
    apply (rule replays_prefix, rule on_usage_pass, rule r(3))
    using visit_txs_replay lts(1,2) by auto
  with lts(3) show ?thesis by blast
qed

lemma visit_accounts_replay:
  "for_each items (visit_account L record_tx) (u, xs) = (Inr (), (u1, ys)) \<Longrightarrow>
   \<exists>ts. ys = xs @ ts \<and> replays (for_each items (visit_account L f)) f ts u u1"
proof (induction items arbitrary: u xs)
  case Nil
  then have "u1 = u" "ys = xs" by (simp_all add: rs_apply)
  then show ?case by (auto intro: replays_ret)
next
  case (Cons item items)
  from Cons.prems obtain u2 zs where s: "visit_account L record_tx item (u, xs) = (Inr (), (u2, zs))"
    "for_each items (visit_account L record_tx) (u2, zs) = (Inr (), (u1, ys))"
    by (auto elim!: bnd_InrE)
  from visit_account_replay [OF s(1)] obtain ts where
    ts: "zs = xs @ ts" "replays (visit_account L f item) f ts u u2" by blast
  from Cons.IH [OF s(2)] obtain ts2 where
    ts2: "ys = zs @ ts2" "replays (for_each items (visit_account L f)) f ts2 u2 u1" by blast
  have "ys = xs @ (ts @ ts2)" using ts(1) ts2(1) by simp
  moreover have "replays (for_each (item # items) (visit_account L f)) f (ts @ ts2) u u1"
    using replays_bnd [OF ts(2) ts2(2)] by simp
  ultimately show ?case by blast
qed

lemma bnd_usageE:
  assumes "bnd (on_usage m) f (u, x) = (Inr b, t)"
  obtains a u1 where "m u = (Inr a, u1)" and "f a (u1, x) = (Inr b, t)"
  using assms by (auto elim!: bnd_InrE on_usage_InrE)

lemma bnd_usage:
  assumes "m u = (Inr a, u1)"
  shows "bnd (on_usage m) f (u, x) = f a (u1, x)"
  using assms by (simp add: bnd_def on_usage_def)

lemma pruned_block_callback:
  assumes "make_pruned_block L M record_tx r [] = (Inr p, txs)"
  shows "make_pruned_block L M f r x =
    (case call_each f txs x of (Inr _, x1) \<Rightarrow> (Inr p, x1) | (Inl e, x1) \<Rightarrow> (Inl e, x1))"
proof -
  from assms obtain u9 where "pruned_block_body L M record_tx r (usage_new L, []) = (Inr p, (u9, txs))"
    unfolding make_pruned_block_def by (auto split: prod.splits)
  then obtain blk extra accs items u1 u2 u3 u4 u5 where
    b: "open_block L M r (usage_new L) = (Inr blk, u1)" "m_load_extra M blk u1 = (Inr extra, u2)"
    "include_mc_info L M blk extra u2 = (Inr (), u3)"
    "m_load_account_blocks M extra u3 = (Inr accs, u4)"
    "items_of (account_values L accs) u4 = (Inr items, u5)"
    and loop: "bnd (for_each items (visit_account L record_tx)) (\<lambda>_. on_usage (build_proof_cell L r)) (u5, [])
       = (Inr p, (u9, txs))"
    unfolding pruned_block_body_def by (elim bnd_usageE) auto
  from loop obtain u6 where
    v: "for_each items (visit_account L record_tx) (u5, []) = (Inr (), (u6, txs))"
    "build_proof_cell L r u6 = (Inr p, u9)"
    by (auto elim!: bnd_InrE on_usage_InrE)
  from visit_accounts_replay [OF v(1)]
  have "replays (for_each items (visit_account L f)) f txs u5 u6" by auto
  then have rep: "case call_each f txs x of
       (Inr _, x1) \<Rightarrow> for_each items (visit_account L f) (u5, x) = (Inr (), (u6, x1))
     | (Inl e, x1) \<Rightarrow> (\<exists>u2. for_each items (visit_account L f) (u5, x) = (Inl e, (u2, x1)))"
    unfolding replays_def by (rule spec)
  have body: "pruned_block_body L M f r (usage_new L, x) =
      bnd (for_each items (visit_account L f)) (\<lambda>_. on_usage (build_proof_cell L r)) (u5, x)"
    unfolding pruned_block_body_def
    by (simp only: bnd_usage [where m = "open_block L M r", OF b(1)]
        bnd_usage [where m = "m_load_extra M blk", OF b(2)]
        bnd_usage [where m = "include_mc_info L M blk extra", OF b(3)]
        bnd_usage [where m = "m_load_account_blocks M extra", OF b(4)]
        bnd_usage [where m = "items_of (account_values L accs)", OF b(5)])
  show ?thesis
  proof (cases "call_each f txs x")
    case (Pair res x1)
    show ?thesis
    proof (cases res)
      case (Inl e)
      with rep Pair obtain u7 where "for_each items (visit_account L f) (u5, x) = (Inl e, (u7, x1))"
        by auto
      with Pair Inl show ?thesis by (simp add: make_pruned_block_def body bnd_eq_Inl)
    next
      case (Inr a)
      with rep Pair have "for_each items (visit_account L f) (u5, x) = (Inr (), (u6, x1))" by simp
      with Pair Inr v(2) show ?thesis
        by (simp add: make_pruned_block_def body bnd_eq_Inr on_usage_def)
    qed
  qed
qed

text \<open>The converse: a run that succeeds made the calls a recording callback would record.\<close>

lemma visit_txs_success:
  "for_each items (visit_tx f account) (u, x) = (Inr (), (u1, x1)) \<Longrightarrow>
   \<exists>lts. items = map Inr lts \<and> u1 = u \<and> call_each f (map (Pair account) lts) x = (Inr (), x1)"
proof (induction items arbitrary: x)
  case Nil
  then show ?case by (auto simp: rs_apply)
next
  case (Cons item items)
  from Cons.prems obtain s where s: "visit_tx f account item (u, x) = (Inr (), s)"
    "for_each items (visit_tx f account) s = (Inr (), (u1, x1))"
    by (auto elim!: bnd_InrE)
  from s(1) obtain lt y where lt: "item = Inr lt" "s = (u, y)" "f account lt x = (Inr (), y)"
    by (cases item) (auto simp: visit_tx_def rs_simps rs_apply on_ctx_def split: prod.splits)
  from Cons.IH [OF s(2) [unfolded lt(2)]] obtain lts where "items = map Inr lts" "u1 = u"
    "call_each f (map (Pair account) lts) y = (Inr (), x1)" by auto
  with lt show ?case
    by (auto simp: call_each_def bnd_def intro: exI [of _ "lt # lts"])
qed

lemma visit_txs_record_run:
  "for_each (map Inr lts) (visit_tx record_tx account) (u, xs) = (Inr (), (u, xs @ map (Pair account) lts))"
  by (induction lts arbitrary: xs)
     (simp_all add: rs_apply rs_simps bnd_def visit_tx_def on_ctx_def record_tx_def of_result_def)

lemma visit_account_success:
  assumes "visit_account L f item (u, x) = (Inr (), (u1, x1))"
  shows "\<exists>ts. visit_account L record_tx item (u, xs) = (Inr (), (u1, xs @ ts)) \<and> call_each f ts x = (Inr (), x1)"
proof -
  from assms obtain cs ab items u2 u3 where
    r: "item = Inr cs" "read_account L cs u = (Inr ab, u2)"
    "items_of (tx_iter L (map_option (track L) (ab_transactions ab))) u2 = (Inr items, u3)"
    "for_each items (visit_tx f (ab_account ab)) (u3, x) = (Inr (), (u1, x1))"
    unfolding visit_account_def
    by (auto simp: rs_apply elim!: bnd_InrE on_usage_InrE)
  from visit_txs_success [OF r(4)] obtain lts where
    lts: "items = map Inr lts" "u1 = u3" "call_each f (map (Pair (ab_account ab)) lts) x = (Inr (), x1)" by blast
  have "visit_account L record_tx item (u, xs) = (Inr (), (u1, xs @ map (Pair (ab_account ab)) lts))"
    unfolding visit_account_def r(1) bnd_of_result_Inr
    by (simp add: bnd_def on_usage_def r(2,3) lts(1,2) visit_txs_record_run)
  with lts(3) show ?thesis by blast
qed

lemma visit_accounts_success:
  "for_each items (visit_account L f) (u, x) = (Inr (), (u1, x1)) \<Longrightarrow>
   \<exists>ts. for_each items (visit_account L record_tx) (u, xs) = (Inr (), (u1, xs @ ts)) \<and>
     call_each f ts x = (Inr (), x1)"
proof (induction items arbitrary: u x xs)
  case Nil
  then show ?case by (auto simp: rs_apply intro: exI [of _ "[]"])
next
  case (Cons item items)
  from Cons.prems obtain u2 y where s: "visit_account L f item (u, x) = (Inr (), (u2, y))"
    "for_each items (visit_account L f) (u2, y) = (Inr (), (u1, x1))"
    by (auto elim!: bnd_InrE)
  from visit_account_success [OF s(1), of xs] obtain ts where
    ts: "visit_account L record_tx item (u, xs) = (Inr (), (u2, xs @ ts))" "call_each f ts x = (Inr (), y)" by blast
  from Cons.IH [OF s(2), of "xs @ ts"] obtain ts2 where
    ts2: "for_each items (visit_account L record_tx) (u2, xs @ ts) = (Inr (), (u1, (xs @ ts) @ ts2))"
      "call_each f ts2 y = (Inr (), x1)" by blast
  have "for_each (item # items) (visit_account L record_tx) (u, xs) = (Inr (), (u1, xs @ (ts @ ts2)))"
    using ts(1) ts2(1) by (simp add: bnd_def)
  moreover have "call_each f (ts @ ts2) x = (Inr (), x1)"
    unfolding call_each_append using ts(2) ts2(2) by (simp add: bnd_def)
  ultimately show ?case by blast
qed

lemma pruned_block_success:
  assumes "make_pruned_block L M f r x = (Inr p, x1)"
  obtains txs where "make_pruned_block L M record_tx r [] = (Inr p, txs)"
    and "call_each f txs x = (Inr (), x1)"
proof -
  from assms obtain u9 where "pruned_block_body L M f r (usage_new L, x) = (Inr p, (u9, x1))"
    unfolding make_pruned_block_def by (auto split: prod.splits)
  then obtain blk extra accs items u1 u2 u3 u4 u5 where
    b: "open_block L M r (usage_new L) = (Inr blk, u1)" "m_load_extra M blk u1 = (Inr extra, u2)"
    "include_mc_info L M blk extra u2 = (Inr (), u3)"
    "m_load_account_blocks M extra u3 = (Inr accs, u4)"
    "items_of (account_values L accs) u4 = (Inr items, u5)"
    and loop: "bnd (for_each items (visit_account L f)) (\<lambda>_. on_usage (build_proof_cell L r)) (u5, x)
       = (Inr p, (u9, x1))"
    unfolding pruned_block_body_def by (elim bnd_usageE) auto
  from loop obtain u6 where
    v: "for_each items (visit_account L f) (u5, x) = (Inr (), (u6, x1))"
    "build_proof_cell L r u6 = (Inr p, u9)"
    by (auto elim!: bnd_InrE on_usage_InrE)
  from visit_accounts_success [OF v(1), of "[]"] obtain txs where
    t: "for_each items (visit_account L record_tx) (u5, []) = (Inr (), (u6, txs))"
      "call_each f txs x = (Inr (), x1)" by auto
  have "pruned_block_body L M record_tx r (usage_new L, []) =
      bnd (for_each items (visit_account L record_tx)) (\<lambda>_. on_usage (build_proof_cell L r)) (u5, [])"
    unfolding pruned_block_body_def
    by (simp only: bnd_usage [where m = "open_block L M r", OF b(1)]
        bnd_usage [where m = "m_load_extra M blk", OF b(2)]
        bnd_usage [where m = "include_mc_info L M blk extra", OF b(3)]
        bnd_usage [where m = "m_load_account_blocks M extra", OF b(4)]
        bnd_usage [where m = "items_of (account_values L accs)", OF b(5)])
  then have "make_pruned_block L M record_tx r [] = (Inr p, txs)"
    by (simp add: make_pruned_block_def bnd_def t(1) on_usage_def v(2))
  with t(2) that show ?thesis by blast
qed

section \<open>The contract of the traits at work\<close>

lemma require_custom_InrE:
  assumes "require_custom M e u = (Inr mc, u1)"
  obtains "m_load_custom M e u = (Inr (Some mc), u1)"
  using assms unfolding require_custom_def
  by (auto simp: rs_apply elim!: bnd_InrE)

context blockchain_models
begin

lemma require_custom_missing:
  "\<not> m_has_custom M e \<Longrightarrow> bnd (require_custom M e) k = fail CellUnderflow"
  unfolding require_custom_def bnd_assoc by (rule custom_missing)

lemma no_custom_no_mc_proof:
  assumes "open_block L M r (usage_new L) = (Inr b, u1)" and "m_load_info M b u1 = (Inr i, u2)"
    and "m_load_extra M b u2 = (Inr e, u3)" and "\<not> m_has_custom M e"
  shows "make_mc_proof L M r sh = Inl CellUnderflow"
    and "make_key_block_proof L M r w = Inl CellUnderflow"
  using assms
  by (simp_all add: make_mc_proof_def make_key_block_proof_def run_io_def bnd_eq_Inr
      require_custom_missing rs_apply)

lemma mc_proof_follows_path:
  assumes "make_mc_proof L M r sh = Inr p" and "prefix sh \<noteq> 0"
  obtains blk e mc ua ub uc ud u0 u1 root where
    "open_block L M r (usage_new L) = (Inr blk, ua)" "m_load_extra M blk ub = (Inr e, uc)"
    "m_load_custom M e uc = (Inr (Some mc), u0)"
    "sh_workchain_root L (hashes mc) (workchain sh) u0 = (Inr (Some root), u1)"
    "run_io (bnd (follow_path L root (shard_path (prefix sh))) (descr_seqno L known_descr)) u1
       = Inr (latest_shard_seqno p)"
proof -
  from assms(1) obtain blk e mc n ua ub uc u0 u9 where
    path: "open_block L M r (usage_new L) = (Inr blk, ua)" "m_load_extra M blk ub = (Inr e, uc)"
    "m_load_custom M e uc = (Inr (Some mc), u0)" and
    seq: "m_find_shard_seqno M mc sh u0 = (Inr n, u9)" and n: "latest_shard_seqno p = n"
    unfolding make_mc_proof_def by (auto simp: rs_apply elim!: run_io_InrE bnd_InrE require_custom_InrE)
  from seq obtain root u1 where "sh_workchain_root L (hashes mc) (workchain sh) u0 = (Inr (Some root), u1)"
    "bnd (follow_path L root (shard_path (prefix sh))) (descr_seqno L known_descr) u1 = (Inr n, u9)"
    unfolding find_seqno_path [OF assms(2)]
    by (elim bnd_InrE [where f = "\<lambda>r. bnd (of_result (ok_or CellUnderflow r)) k" for k])
       (auto simp: rs_apply elim!: bnd_InrE [where m = "of_result x" for x])
  with n path that show ?thesis by (simp add: run_io_def)
qed

lemma bound_info_latest:
  assumes "parse_latest_shard_blocks L M r u = (Inr b, u9)"
  obtains blk info e mc bs u1 u2 u3 u4 u5 where
    "parse L (m_load_block M) r u = (Inr blk, u1)"
    "parse L info_loader (info_cell blk) u1 = (Inr info, u2)"
    "m_load_extra M blk u2 = (Inr e, u5)" "m_load_custom M e u5 = (Inr (Some mc), u3)"
    "sh_latest_blocks L (hashes mc) u3 = (map Inr bs, u4)"
    "b = \<lparr>bound_end_lt = m_end_lt M info, shard_ids = map as_short_id bs\<rparr>"
proof -
  from assms obtain blk info e mc ids u1 u2 u3 u4 u5 where
    h: "parse L (m_load_block M) r u = (Inr blk, u1)" "m_load_info M blk u1 = (Inr info, u2)"
    "m_load_extra M blk u2 = (Inr e, u5)" "m_load_custom M e u5 = (Inr (Some mc), u3)"
    "m_top_shard_ids M mc u3 = (Inr ids, u4)"
    "b = \<lparr>bound_end_lt = m_end_lt M info, shard_ids = ids\<rparr>"
    unfolding parse_latest_shard_blocks_def by (auto simp: rs_apply elim!: bnd_InrE require_custom_InrE)
  from h(5) obtain es where es: "sh_latest_blocks L (hashes mc) u3 = (es, u4)" "push_short_ids es [] = Inr ids"
    by (auto simp: top_ids split: prod.splits)
  from es(2) obtain bs where "es = map Inr bs" "ids = map as_short_id bs"
    by (auto simp: push_short_ids_eq collect_Inr_iff)
  with that h es(1) show ?thesis by (simp add: info_parse)
qed

end

section \<open>Lookups that fail are not errors\<close>

definition tx_header ::
  "('c, 's, 'u, 'h, 'g) cell_lib \<Rightarrow> ('blk, 'info, 'extra, 'mc, 'c, 's, 'u, 'g) models \<Rightarrow>
   'c \<Rightarrow> bool \<Rightarrow> ('u, 'c option) io" where
  "tx_header L M block_root include_info =
     bnd (open_block L M block_root) (\<lambda>raw_block.
     bnd (if include_info then
            bnd (m_load_info M raw_block) (\<lambda>info.
            modify (touch L (m_prev_ref M info)))
          else ret ()) (\<lambda>_.
     bnd (m_load_extra M raw_block) (\<lambda>extra.
     m_load_account_blocks M extra)))"

text \<open>Does the block, read so far into \<open>u\<close>, have a readable entry for the transaction?\<close>

definition tx_found ::
  "('c, 's, 'u, 'h, 'g) cell_lib \<Rightarrow> 'c option \<Rightarrow> hash_bytes \<Rightarrow> u64 \<Rightarrow> 'u \<Rightarrow> bool" where
  "tx_found L accounts account lt u =
     (case get_account L accounts account u of
        (Inr (Some ab), u1) \<Rightarrow>
          (case tx_get L (map_option (track L) (ab_transactions ab)) lt u1 of
             (Inr (Some _), _) \<Rightarrow> True | _ \<Rightarrow> False)
      | _ \<Rightarrow> False)"

lemma make_tx_proof_header:
  "make_tx_proof L M r account lt wi =
     run_io (bnd (tx_header L M r wi) (\<lambda>account_blocks.
       bnd (ok_flatten (get_account L account_blocks account)) (\<lambda>found.
       case found of
         None \<Rightarrow> ret None
       | Some account_block \<Rightarrow>
           bnd (ok_flatten (tx_get L (map_option (track L) (ab_transactions account_block)) lt)) (\<lambda>tx.
           case tx of
             None \<Rightarrow> ret None
           | Some _ \<Rightarrow> bnd (build_proof_cell L r) (\<lambda>pruned. ret (Some pruned)))))) (usage_new L)"
  unfolding make_tx_proof_def tx_header_def bnd_assoc ..

lemma some_resultE:
  fixes x :: "(error + 'a option) \<times> 'u"
  obtains (some) a u where "x = (Inr (Some a), u)" | (none) u where "x = (Inr None, u)"
    | (error) e u where "x = (Inl e, u)"
  by (cases x; cases "fst x"; cases "projr (fst x)") auto

lemma make_tx_proof_missing:
  assumes "tx_header L M r wi (usage_new L) = (Inr accounts, u)" and "\<not> tx_found L accounts account lt u"
  shows "make_tx_proof L M r account lt wi = Inr None"
proof (cases "get_account L accounts account u" rule: some_resultE)
  case (some ab u1)
  then show ?thesis using assms unfolding make_tx_proof_header tx_found_def run_io_def
    by (cases "tx_get L (map_option (track L) (ab_transactions ab)) lt u1" rule: some_resultE)
       (auto simp: bnd_def ok_flatten_def rs_apply)
qed (use assms in \<open>auto simp: make_tx_proof_header run_io_def bnd_def ok_flatten_def rs_apply\<close>)

lemma make_tx_proof_found:
  assumes h: "tx_header L M r wi (usage_new L) = (Inr accounts, u)" and f: "tx_found L accounts account lt u"
  obtains u1 where
    "make_tx_proof L M r account lt wi = bindR (fst (build_proof_cell L r u1)) (\<lambda>p. Inr (Some p))"
proof -
  from f obtain ab u1 where ab: "get_account L accounts account u = (Inr (Some ab), u1)"
    by (cases "get_account L accounts account u" rule: some_resultE) (auto simp: tx_found_def)
  with f obtain c u2 where "tx_get L (map_option (track L) (ab_transactions ab)) lt u1 = (Inr (Some c), u2)"
    by (cases "tx_get L (map_option (track L) (ab_transactions ab)) lt u1" rule: some_resultE)
       (auto simp: tx_found_def)
  with h ab have "make_tx_proof L M r account lt wi = bindR (fst (build_proof_cell L r u2)) (\<lambda>p. Inr (Some p))"
    unfolding make_tx_proof_header run_io_def
    by (cases "build_proof_cell L r u2"; cases "fst (build_proof_cell L r u2)")
       (auto simp: bnd_def ok_flatten_def rs_apply)
  then show ?thesis by (rule that)
qed

end
