(* ===== verification/Tycho_Models.thy ===== *)
theory Tycho_Models
  imports Block_Proofs
begin

text \<open>
  \<open>util/src/block/tycho.rs\<close>: how a block of a Tycho network is read. The derived loaders
  check their tag and read their fields in order. The result of reading \<open>gen_utime_ms\<close> is
  dropped by the code even when it is an error; so it is here.
\<close>

section \<open>Loaders\<close>

record ('c) tycho_block =
  tycho_global_id :: i32
  tycho_info :: 'c
  tycho_value_flow :: 'c
  tycho_state_update :: 'c
  tycho_extra :: 'c

definition tycho_load_block ::
  "('c, 's, 'u, 'h, 'g) cell_lib \<Rightarrow> ('s, 'u, 'c tycho_block) rd" where
  "tycho_load_block L =
     bnd (load_u32 L) (\<lambda>tag.
     bnd (guard (tag = 0x11ef55bb) InvalidTag) (\<lambda>_.
     bnd (load_u32 L) (\<lambda>global_id.
     bnd (load_reference L) (\<lambda>info.
     bnd (load_reference L) (\<lambda>value_flow.
     bnd (load_reference L) (\<lambda>state_update.
     bnd (load_reference L) (\<lambda>extra.
     ret \<lparr>tycho_global_id = global_id, tycho_info = info, tycho_value_flow = value_flow,
          tycho_state_update = state_update, tycho_extra = extra\<rparr>)))))))"

record ('c) tycho_block_info =
  tycho_is_key_block :: bool
  tycho_seqno :: u32
  tycho_shard :: shard_ident
  tycho_gen_utime :: u32
  tycho_start_lt :: u64
  tycho_end_lt :: u64
  tycho_prev_key_block_seqno :: u32
  tycho_master_ref :: "'c option"
  tycho_prev_ref :: 'c
  tycho_prev_vert_ref :: "'c option"

definition TYCHO_INFO_TAG :: u32 where
  "TYCHO_INFO_TAG = 0x9bc7a988"

definition TYCHO_FLAG_WITH_GEN_SOFTWARE :: u8 where
  "TYCHO_FLAG_WITH_GEN_SOFTWARE = 1"

definition tycho_load_info_body ::
  "('c, 's, 'u, 'h, 'g) cell_lib \<Rightarrow> ('s, 'u, 'c tycho_block_info) rd" where
  "tycho_load_info_body L =
     bnd (load_u32 L) (\<lambda>version.
     bnd (load_u16 L) (\<lambda>w.
     let packed_flags = ucast (drop_bit 8 w) :: u8; flags = ucast w :: u8 in
     bnd (load_u32 L) (\<lambda>seqno.
     bnd (guard (seqno \<noteq> 0) InvalidData) (\<lambda>_.
     bnd (load_u32 L) (\<lambda>vert_seqno.
     bnd (load_shard_ident L) (\<lambda>shard.
     bnd (load_u32 L) (\<lambda>gen_utime.
     bnd (ignore (load_u16 L)) (\<lambda>gen_utime_ms.
     bnd (load_u64 L) (\<lambda>start_lt.
     bnd (load_u64 L) (\<lambda>end_lt.
     bnd (load_u32 L) (\<lambda>gen_validator_list_hash_short.
     bnd (load_u32 L) (\<lambda>gen_catchain_seqno.
     bnd (load_u32 L) (\<lambda>min_ref_mc_seqno.
     bnd (load_u32 L) (\<lambda>prev_key.
     bnd (if flags AND TYCHO_FLAG_WITH_GEN_SOFTWARE \<noteq> 0 then load_global_version L else ret ()) (\<lambda>_.
     bnd (load_if (packed_flags AND 0b10000000 \<noteq> 0) (load_reference L)) (\<lambda>master_ref.
     bnd (load_reference L) (\<lambda>prev_ref.
     bnd (load_if (packed_flags AND 0b00000001 \<noteq> 0) (load_reference L)) (\<lambda>prev_vert_ref.
     bnd (guard (\<not> vert_seqno < (if prev_vert_ref \<noteq> None then 1 else 0)) InvalidData) (\<lambda>_.
     ret \<lparr>tycho_is_key_block = packed_flags AND 0b00000010 \<noteq> 0, tycho_seqno = seqno,
          tycho_shard = shard, tycho_gen_utime = gen_utime,
          tycho_start_lt = start_lt, tycho_end_lt = end_lt,
          tycho_prev_key_block_seqno = prev_key, tycho_master_ref = master_ref,
          tycho_prev_ref = prev_ref, tycho_prev_vert_ref = prev_vert_ref\<rparr>)))))))))))))))))))"

definition tycho_load_info ::
  "('c, 's, 'u, 'h, 'g) cell_lib \<Rightarrow> ('s, 'u, 'c tycho_block_info) rd" where
  "tycho_load_info L =
     bnd (load_u32 L) (\<lambda>tag.
     bnd (guard (tag = TYCHO_INFO_TAG) InvalidTag) (\<lambda>_.
     tycho_load_info_body L))"

record ('c) tycho_block_extra =
  tycho_in_msg_description :: 'c
  tycho_out_msg_description :: 'c
  tycho_account_blocks :: 'c
  tycho_rand_seed :: hash_bytes
  tycho_created_by :: hash_bytes
  tycho_custom :: "'c option"

definition tycho_load_extra ::
  "('c, 's, 'u, 'h, 'g) cell_lib \<Rightarrow> ('s, 'u, 'c tycho_block_extra) rd" where
  "tycho_load_extra L =
     bnd (load_u32 L) (\<lambda>tag.
     bnd (guard (tag = 0x4a33f6fc) InvalidTag) (\<lambda>_.
     bnd (load_reference L) (\<lambda>in_msg.
     bnd (load_reference L) (\<lambda>out_msg.
     bnd (load_reference L) (\<lambda>account_blocks.
     bnd (load_u256 L) (\<lambda>rand_seed.
     bnd (load_u256 L) (\<lambda>created_by.
     bnd (load_option_cell L) (\<lambda>custom.
     ret \<lparr>tycho_in_msg_description = in_msg, tycho_out_msg_description = out_msg,
          tycho_account_blocks = account_blocks, tycho_rand_seed = rand_seed,
          tycho_created_by = created_by, tycho_custom = custom\<rparr>))))))))"

record ('h, 'g) tycho_mc_extra =
  tycho_shard_hashes :: 'h
  tycho_config :: "'g option"

definition tycho_load_mc_extra ::
  "('c, 's, 'u, 'h, 'g) cell_lib \<Rightarrow> ('s, 'u, ('h, 'g) tycho_mc_extra) rd" where
  "tycho_load_mc_extra L =
     bnd (load_u16 L) (\<lambda>tag.
     bnd (guard (tag = 0xcca5) InvalidTag) (\<lambda>_.
     bnd (load_bit L) (\<lambda>with_config.
     bnd (load_shard_hashes L) (\<lambda>hashes.
     bnd (load_if with_config (bnd (only_last L 256 1) (\<lambda>_. load_config L))) (\<lambda>config.
     ret \<lparr>tycho_shard_hashes = hashes, tycho_config = config\<rparr>)))))"

record ('c) tycho_block_signatures =
  tycho_validator_info :: "u32 \<times> u32"
  tycho_consensus_info :: unit
  tycho_signature_count :: u32
  tycho_total_weight :: u64
  tycho_signatures :: "'c option"

definition tycho_load_block_signatures ::
  "('c, 's, 'u, 'h, 'g) cell_lib \<Rightarrow> ('s, 'u, 'c tycho_block_signatures) rd" where
  "tycho_load_block_signatures L =
     bnd (load_u8 L) (\<lambda>tag.
     bnd (guard (tag = 0x12) InvalidTag) (\<lambda>_.
     bnd (load_validator_info L) (\<lambda>info.
     bnd (load_consensus_info L) (\<lambda>consensus.
     bnd (load_u32 L) (\<lambda>count.
     bnd (load_u64 L) (\<lambda>weight.
     bnd (load_dict L) (\<lambda>sigs.
     ret \<lparr>tycho_validator_info = info, tycho_consensus_info = consensus, tycho_signature_count = count,
          tycho_total_weight = weight, tycho_signatures = sigs\<rparr>)))))))"

section \<open>The trait implementations\<close>

definition tycho_block_load_info ::
  "('c, 's, 'u, 'h, 'g) cell_lib \<Rightarrow> 'c tycho_block \<Rightarrow> ('u, 'c tycho_block_info) io" where
  "tycho_block_load_info L b = parse L (tycho_load_info L) (tycho_info b)"

definition tycho_block_load_info_raw :: "'c tycho_block \<Rightarrow> ('u, 'c) io" where
  "tycho_block_load_info_raw b = ret (tycho_info b)"

definition tycho_block_load_extra ::
  "('c, 's, 'u, 'h, 'g) cell_lib \<Rightarrow> 'c tycho_block \<Rightarrow> ('u, 'c tycho_block_extra) io" where
  "tycho_block_load_extra L b = parse L (tycho_load_extra L) (tycho_extra b)"

definition tycho_load_account_blocks ::
  "('c, 's, 'u, 'h, 'g) cell_lib \<Rightarrow> 'c tycho_block_extra \<Rightarrow> ('u, 'c option) io" where
  "tycho_load_account_blocks L e = parse L (load_aug_dict L) (tycho_account_blocks e)"

definition tycho_has_custom :: "'c tycho_block_extra \<Rightarrow> bool" where
  "tycho_has_custom e \<longleftrightarrow> tycho_custom e \<noteq> None"

definition tycho_load_custom ::
  "('c, 's, 'u, 'h, 'g) cell_lib \<Rightarrow> 'c tycho_block_extra \<Rightarrow> ('u, ('h, 'g) tycho_mc_extra option) io" where
  "tycho_load_custom L e =
     (case tycho_custom e of
        None \<Rightarrow> ret None
      | Some custom \<Rightarrow> bnd (parse L (tycho_load_mc_extra L) custom) (\<lambda>m. ret (Some m)))"

definition tycho_top_shard_ids ::
  "('c, 's, 'u, 'h, 'g) cell_lib \<Rightarrow> ('h, 'g) tycho_mc_extra \<Rightarrow> ('u, block_id_short list) io" where
  "tycho_top_shard_ids L m u =
     (case sh_latest_blocks L (tycho_shard_hashes m) u of (es, u1) \<Rightarrow> (push_short_ids es [], u1))"

definition tycho_known_descr :: "u8 \<Rightarrow> bool" where
  "tycho_known_descr tag \<longleftrightarrow> tag = 0xa \<or> tag = 0xb"

definition tycho_find_shard_seqno ::
  "('c, 's, 'u, 'h, 'g) cell_lib \<Rightarrow> ('h, 'g) tycho_mc_extra \<Rightarrow> shard_ident \<Rightarrow> ('u, u32) io" where
  "tycho_find_shard_seqno L m sh =
     bnd (sh_workchain_root L (tycho_shard_hashes m) (workchain sh)) (\<lambda>r.
     bnd (of_result (ok_or CellUnderflow r)) (\<lambda>root.
     bnd (find_shard_descr L root (prefix sh)) (\<lambda>descr_root.
     descr_seqno L tycho_known_descr descr_root)))"

definition tycho_visit_shard_hashes ::
  "('c, 's, 'u, 'h, 'g) cell_lib \<Rightarrow> ('h, 'g) tycho_mc_extra \<Rightarrow> ('u, unit) io" where
  "tycho_visit_shard_hashes L m u =
     (case sh_raw_iter L (tycho_shard_hashes m) u of (es, u1) \<Rightarrow> (bindR (collect es) (\<lambda>_. Inr ()), u1))"

definition tycho_models ::
  "('c, 's, 'u, 'h, 'g) cell_lib \<Rightarrow>
   ('c tycho_block, 'c tycho_block_info, 'c tycho_block_extra, ('h, 'g) tycho_mc_extra, 'c, 's, 'u, 'g) models" where
  "tycho_models L =
     \<lparr>m_load_block = tycho_load_block L,
      m_load_info = tycho_block_load_info L,
      m_load_info_raw = tycho_block_load_info_raw,
      m_load_extra = tycho_block_load_extra L,
      m_is_key_block = tycho_is_key_block,
      m_end_lt = tycho_end_lt,
      m_prev_ref = tycho_prev_ref,
      m_load_account_blocks = tycho_load_account_blocks L,
      m_has_custom = tycho_has_custom,
      m_load_custom = tycho_load_custom L,
      m_top_shard_ids = tycho_top_shard_ids L,
      m_find_shard_seqno = tycho_find_shard_seqno L,
      m_visit_shard_hashes = tycho_visit_shard_hashes L,
      m_config = tycho_config\<rparr>"

lemma tycho_load_custom_none: "\<not> tycho_has_custom e \<Longrightarrow> tycho_load_custom L e = ret None"
  by (simp add: tycho_has_custom_def tycho_load_custom_def)

lemma tycho_load_custom_some: "tycho_has_custom e \<Longrightarrow> fst (tycho_load_custom L e u) \<noteq> Inr None"
  by (auto simp: tycho_has_custom_def tycho_load_custom_def bnd_def ret_def split: sum.splits prod.splits)

interpretation tycho: blockchain_models L "tycho_models L" "tycho_load_info L" tycho_info tycho_shard_hashes tycho_known_descr
  for L :: "('c, 's, 'u, 'h, 'g) cell_lib"
  by unfold_locales
    (simp_all add: tycho_models_def tycho_block_load_info_raw_def tycho_block_load_info_def
      tycho_load_custom_none tycho_load_custom_some tycho_top_shard_ids_def [abs_def] tycho_find_shard_seqno_def)

end
