(* ===== verification/Ton_Models.thy ===== *)
theory Ton_Models
  imports Block_Proofs
begin

text \<open>
  \<open>util/src/block/ton.rs\<close>: how a block of a TON network is read. It has other tags than a
  Tycho block, no milliseconds in the block info, and its info keeps no sequence number.
\<close>

section \<open>Loaders\<close>

record ('c) ton_block =
  ton_global_id :: i32
  ton_info :: 'c
  ton_value_flow :: 'c
  ton_state_update :: 'c
  ton_extra :: 'c

definition ton_load_block ::
  "('c, 's, 'u, 'h, 'g) cell_lib \<Rightarrow> ('s, 'u, 'c ton_block) rd" where
  "ton_load_block L =
     bnd (load_u32 L) (\<lambda>tag.
     bnd (guard (tag = 0x11ef55aa) InvalidTag) (\<lambda>_.
     bnd (load_u32 L) (\<lambda>global_id.
     bnd (load_reference L) (\<lambda>info.
     bnd (load_reference L) (\<lambda>value_flow.
     bnd (load_reference L) (\<lambda>state_update.
     bnd (load_reference L) (\<lambda>extra.
     ret \<lparr>ton_global_id = global_id, ton_info = info, ton_value_flow = value_flow,
          ton_state_update = state_update, ton_extra = extra\<rparr>)))))))"

record ('c) ton_block_info =
  ton_is_key_block :: bool
  ton_shard :: shard_ident
  ton_gen_utime :: u32
  ton_start_lt :: u64
  ton_end_lt :: u64
  ton_prev_key_block_seqno :: u32
  ton_master_ref :: "'c option"
  ton_prev_ref :: 'c
  ton_prev_vert_ref :: "'c option"

definition TON_INFO_TAG :: u32 where
  "TON_INFO_TAG = 0x9bc7a987"

definition TON_FLAG_WITH_GEN_SOFTWARE :: u8 where
  "TON_FLAG_WITH_GEN_SOFTWARE = 1"

definition ton_load_info_body ::
  "('c, 's, 'u, 'h, 'g) cell_lib \<Rightarrow> ('s, 'u, 'c ton_block_info) rd" where
  "ton_load_info_body L =
     bnd (load_u32 L) (\<lambda>version.
     bnd (load_u16 L) (\<lambda>w.
     let packed_flags = ucast (drop_bit 8 w) :: u8; flags = ucast w :: u8 in
     bnd (load_u32 L) (\<lambda>seqno.
     bnd (guard (seqno \<noteq> 0) InvalidData) (\<lambda>_.
     bnd (load_u32 L) (\<lambda>vert_seqno.
     bnd (load_shard_ident L) (\<lambda>shard.
     bnd (load_u32 L) (\<lambda>gen_utime.
     bnd (load_u64 L) (\<lambda>start_lt.
     bnd (load_u64 L) (\<lambda>end_lt.
     bnd (load_u32 L) (\<lambda>gen_validator_list_hash_short.
     bnd (load_u32 L) (\<lambda>gen_catchain_seqno.
     bnd (load_u32 L) (\<lambda>min_ref_mc_seqno.
     bnd (load_u32 L) (\<lambda>prev_key.
     bnd (if flags AND TON_FLAG_WITH_GEN_SOFTWARE \<noteq> 0 then load_global_version L else ret ()) (\<lambda>_.
     bnd (load_if (packed_flags AND 0b10000000 \<noteq> 0) (load_reference L)) (\<lambda>master_ref.
     bnd (load_reference L) (\<lambda>prev_ref.
     bnd (load_if (packed_flags AND 0b00000001 \<noteq> 0) (load_reference L)) (\<lambda>prev_vert_ref.
     bnd (guard (\<not> vert_seqno < (if prev_vert_ref \<noteq> None then 1 else 0)) InvalidData) (\<lambda>_.
     ret \<lparr>ton_is_key_block = packed_flags AND 0b00000010 \<noteq> 0, ton_shard = shard,
          ton_gen_utime = gen_utime, ton_start_lt = start_lt,
          ton_end_lt = end_lt, ton_prev_key_block_seqno = prev_key,
          ton_master_ref = master_ref, ton_prev_ref = prev_ref,
          ton_prev_vert_ref = prev_vert_ref\<rparr>))))))))))))))))))"

definition ton_load_info ::
  "('c, 's, 'u, 'h, 'g) cell_lib \<Rightarrow> ('s, 'u, 'c ton_block_info) rd" where
  "ton_load_info L =
     bnd (load_u32 L) (\<lambda>tag.
     bnd (guard (tag = TON_INFO_TAG) InvalidTag) (\<lambda>_.
     ton_load_info_body L))"

record ('c) ton_block_extra =
  ton_in_msg_description :: 'c
  ton_out_msg_description :: 'c
  ton_account_blocks :: 'c
  ton_rand_seed :: hash_bytes
  ton_created_by :: hash_bytes
  ton_custom :: "'c option"

definition ton_load_extra ::
  "('c, 's, 'u, 'h, 'g) cell_lib \<Rightarrow> ('s, 'u, 'c ton_block_extra) rd" where
  "ton_load_extra L =
     bnd (load_u32 L) (\<lambda>tag.
     bnd (guard (tag = 0x4a33f6fd) InvalidTag) (\<lambda>_.
     bnd (load_reference L) (\<lambda>in_msg.
     bnd (load_reference L) (\<lambda>out_msg.
     bnd (load_reference L) (\<lambda>account_blocks.
     bnd (load_u256 L) (\<lambda>rand_seed.
     bnd (load_u256 L) (\<lambda>created_by.
     bnd (load_option_cell L) (\<lambda>custom.
     ret \<lparr>ton_in_msg_description = in_msg, ton_out_msg_description = out_msg,
          ton_account_blocks = account_blocks, ton_rand_seed = rand_seed,
          ton_created_by = created_by, ton_custom = custom\<rparr>))))))))"

record ('h, 'g) ton_mc_extra =
  ton_shard_hashes :: 'h
  ton_config :: "'g option"

definition ton_load_mc_extra ::
  "('c, 's, 'u, 'h, 'g) cell_lib \<Rightarrow> ('s, 'u, ('h, 'g) ton_mc_extra) rd" where
  "ton_load_mc_extra L =
     bnd (load_u16 L) (\<lambda>tag.
     bnd (guard (tag = 0xcca5) InvalidTag) (\<lambda>_.
     bnd (load_bit L) (\<lambda>with_config.
     bnd (load_shard_hashes L) (\<lambda>hashes.
     bnd (load_if with_config (bnd (only_last L 256 1) (\<lambda>_. load_config L))) (\<lambda>config.
     ret \<lparr>ton_shard_hashes = hashes, ton_config = config\<rparr>)))))"

record ('c) ton_block_signatures =
  ton_validator_info :: "u32 \<times> u32"
  ton_signature_count :: u32
  ton_total_weight :: u64
  ton_signatures :: "'c option"

definition ton_load_block_signatures ::
  "('c, 's, 'u, 'h, 'g) cell_lib \<Rightarrow> ('s, 'u, 'c ton_block_signatures) rd" where
  "ton_load_block_signatures L =
     bnd (load_u8 L) (\<lambda>tag.
     bnd (guard (tag = 0x11) InvalidTag) (\<lambda>_.
     bnd (load_validator_info L) (\<lambda>info.
     bnd (load_u32 L) (\<lambda>count.
     bnd (load_u64 L) (\<lambda>weight.
     bnd (load_dict L) (\<lambda>sigs.
     ret \<lparr>ton_validator_info = info, ton_signature_count = count,
          ton_total_weight = weight, ton_signatures = sigs\<rparr>))))))"

section \<open>The trait implementations\<close>

definition ton_block_load_info ::
  "('c, 's, 'u, 'h, 'g) cell_lib \<Rightarrow> 'c ton_block \<Rightarrow> ('u, 'c ton_block_info) io" where
  "ton_block_load_info L b = parse L (ton_load_info L) (ton_info b)"

definition ton_block_load_info_raw :: "'c ton_block \<Rightarrow> ('u, 'c) io" where
  "ton_block_load_info_raw b = ret (ton_info b)"

definition ton_block_load_extra ::
  "('c, 's, 'u, 'h, 'g) cell_lib \<Rightarrow> 'c ton_block \<Rightarrow> ('u, 'c ton_block_extra) io" where
  "ton_block_load_extra L b = parse L (ton_load_extra L) (ton_extra b)"

definition ton_load_account_blocks ::
  "('c, 's, 'u, 'h, 'g) cell_lib \<Rightarrow> 'c ton_block_extra \<Rightarrow> ('u, 'c option) io" where
  "ton_load_account_blocks L e = parse L (load_aug_dict L) (ton_account_blocks e)"

definition ton_has_custom :: "'c ton_block_extra \<Rightarrow> bool" where
  "ton_has_custom e \<longleftrightarrow> ton_custom e \<noteq> None"

definition ton_load_custom ::
  "('c, 's, 'u, 'h, 'g) cell_lib \<Rightarrow> 'c ton_block_extra \<Rightarrow> ('u, ('h, 'g) ton_mc_extra option) io" where
  "ton_load_custom L e =
     (case ton_custom e of
        None \<Rightarrow> ret None
      | Some custom \<Rightarrow> bnd (parse L (ton_load_mc_extra L) custom) (\<lambda>m. ret (Some m)))"

definition ton_top_shard_ids ::
  "('c, 's, 'u, 'h, 'g) cell_lib \<Rightarrow> ('h, 'g) ton_mc_extra \<Rightarrow> ('u, block_id_short list) io" where
  "ton_top_shard_ids L m u =
     (case sh_latest_blocks L (ton_shard_hashes m) u of (es, u1) \<Rightarrow> (push_short_ids es [], u1))"

definition ton_known_descr :: "u8 \<Rightarrow> bool" where
  "ton_known_descr tag \<longleftrightarrow> tag = 0xa \<or> tag = 0xb"

definition ton_find_shard_seqno ::
  "('c, 's, 'u, 'h, 'g) cell_lib \<Rightarrow> ('h, 'g) ton_mc_extra \<Rightarrow> shard_ident \<Rightarrow> ('u, u32) io" where
  "ton_find_shard_seqno L m sh =
     bnd (sh_workchain_root L (ton_shard_hashes m) (workchain sh)) (\<lambda>r.
     bnd (of_result (ok_or CellUnderflow r)) (\<lambda>root.
     bnd (find_shard_descr L root (prefix sh)) (\<lambda>descr_root.
     descr_seqno L ton_known_descr descr_root)))"

definition ton_visit_shard_hashes ::
  "('c, 's, 'u, 'h, 'g) cell_lib \<Rightarrow> ('h, 'g) ton_mc_extra \<Rightarrow> ('u, unit) io" where
  "ton_visit_shard_hashes L m u =
     (case sh_raw_iter L (ton_shard_hashes m) u of (es, u1) \<Rightarrow> (bindR (collect es) (\<lambda>_. Inr ()), u1))"

definition ton_models ::
  "('c, 's, 'u, 'h, 'g) cell_lib \<Rightarrow>
   ('c ton_block, 'c ton_block_info, 'c ton_block_extra, ('h, 'g) ton_mc_extra, 'c, 's, 'u, 'g) models" where
  "ton_models L =
     \<lparr>m_load_block = ton_load_block L,
      m_load_info = ton_block_load_info L,
      m_load_info_raw = ton_block_load_info_raw,
      m_load_extra = ton_block_load_extra L,
      m_is_key_block = ton_is_key_block,
      m_end_lt = ton_end_lt,
      m_prev_ref = ton_prev_ref,
      m_load_account_blocks = ton_load_account_blocks L,
      m_has_custom = ton_has_custom,
      m_load_custom = ton_load_custom L,
      m_top_shard_ids = ton_top_shard_ids L,
      m_find_shard_seqno = ton_find_shard_seqno L,
      m_visit_shard_hashes = ton_visit_shard_hashes L,
      m_config = ton_config\<rparr>"

lemma ton_load_custom_none: "\<not> ton_has_custom e \<Longrightarrow> ton_load_custom L e = ret None"
  by (simp add: ton_has_custom_def ton_load_custom_def)

lemma ton_load_custom_some: "ton_has_custom e \<Longrightarrow> fst (ton_load_custom L e u) \<noteq> Inr None"
  by (auto simp: ton_has_custom_def ton_load_custom_def bnd_def ret_def split: sum.splits prod.splits)

interpretation ton: blockchain_models L "ton_models L" "ton_load_info L" ton_info ton_shard_hashes ton_known_descr
  for L :: "('c, 's, 'u, 'h, 'g) cell_lib"
  by unfold_locales
    (simp_all add: ton_models_def ton_block_load_info_raw_def ton_block_load_info_def
      ton_load_custom_none ton_load_custom_some ton_top_shard_ids_def [abs_def] ton_find_shard_seqno_def)

end
