(* ===== verification/Legacy_Models.thy ===== *)
theory Legacy_Models
  imports Tycho_Models Ton_Models
begin

text \<open>
  \<open>util/src/block/legacy.rs\<close>: blocks of older networks, in both of their formats: each loader
  takes the tags of the TON and of the Tycho format and branches where the formats differ.
  The last section relates it to the other two: on a first-format tag the legacy block info
  is the TON one, on a second-format tag the Tycho one.
\<close>

section \<open>Loaders\<close>

record ('c) legacy_block =
  legacy_global_id :: i32
  legacy_info :: 'c
  legacy_extra :: 'c

definition LEGACY_BLOCK_TAG_V1 :: u32 where
  "LEGACY_BLOCK_TAG_V1 = 0x11ef55aa"

definition LEGACY_BLOCK_TAG_V2 :: u32 where
  "LEGACY_BLOCK_TAG_V2 = 0x11ef55bb"

definition legacy_load_block ::
  "('c, 's, 'u, 'h, 'g) cell_lib \<Rightarrow> ('s, 'u, 'c legacy_block) rd" where
  "legacy_load_block L =
     bnd (load_u32 L) (\<lambda>tag.
     bnd (guard (tag = LEGACY_BLOCK_TAG_V1 \<or> tag = LEGACY_BLOCK_TAG_V2) InvalidTag) (\<lambda>_.
     bnd (load_u32 L) (\<lambda>global_id.
     bnd (load_reference L) (\<lambda>info.
     bnd (load_reference L) (\<lambda>value_flow.
     bnd (load_reference L) (\<lambda>state_update.
     bnd (load_reference L) (\<lambda>extra.
     ret \<lparr>legacy_global_id = global_id, legacy_info = info, legacy_extra = extra\<rparr>)))))))"

record ('c) legacy_block_info =
  legacy_is_key_block :: bool
  legacy_seqno :: u32
  legacy_shard :: shard_ident
  legacy_gen_utime :: u32
  legacy_start_lt :: u64
  legacy_end_lt :: u64
  legacy_prev_key_block_seqno :: u32
  legacy_master_ref :: "'c option"
  legacy_prev_ref :: 'c
  legacy_prev_vert_ref :: "'c option"

definition LEGACY_INFO_TAG_V1 :: u32 where
  "LEGACY_INFO_TAG_V1 = 0x9bc7a987"

definition LEGACY_INFO_TAG_V2 :: u32 where
  "LEGACY_INFO_TAG_V2 = 0x9bc7a988"

definition LEGACY_FLAG_WITH_GEN_SOFTWARE :: u8 where
  "LEGACY_FLAG_WITH_GEN_SOFTWARE = 1"

definition legacy_load_info_body ::
  "('c, 's, 'u, 'h, 'g) cell_lib \<Rightarrow> bool \<Rightarrow> ('s, 'u, 'c legacy_block_info) rd" where
  "legacy_load_info_body L is_new =
     bnd (load_u32 L) (\<lambda>version.
     bnd (load_u16 L) (\<lambda>w.
     let packed_flags = ucast (drop_bit 8 w) :: u8; flags = ucast w :: u8 in
     bnd (load_u32 L) (\<lambda>seqno.
     bnd (guard (seqno \<noteq> 0) InvalidData) (\<lambda>_.
     bnd (load_u32 L) (\<lambda>vert_seqno.
     bnd (load_shard_ident L) (\<lambda>shard.
     bnd (load_u32 L) (\<lambda>gen_utime.
     bnd (if is_new then ignore (load_u16 L) else ret ()) (\<lambda>gen_utime_ms.
     bnd (load_u64 L) (\<lambda>start_lt.
     bnd (load_u64 L) (\<lambda>end_lt.
     bnd (load_u32 L) (\<lambda>gen_validator_list_hash_short.
     bnd (load_u32 L) (\<lambda>gen_catchain_seqno.
     bnd (load_u32 L) (\<lambda>min_ref_mc_seqno.
     bnd (load_u32 L) (\<lambda>prev_key.
     bnd (if flags AND LEGACY_FLAG_WITH_GEN_SOFTWARE \<noteq> 0 then load_global_version L else ret ()) (\<lambda>_.
     bnd (load_if (packed_flags AND 0b10000000 \<noteq> 0) (load_reference L)) (\<lambda>master_ref.
     bnd (load_reference L) (\<lambda>prev_ref.
     bnd (load_if (packed_flags AND 0b00000001 \<noteq> 0) (load_reference L)) (\<lambda>prev_vert_ref.
     bnd (guard (\<not> vert_seqno < (if prev_vert_ref \<noteq> None then 1 else 0)) InvalidData) (\<lambda>_.
     ret \<lparr>legacy_is_key_block = packed_flags AND 0b00000010 \<noteq> 0, legacy_seqno = seqno,
          legacy_shard = shard, legacy_gen_utime = gen_utime,
          legacy_start_lt = start_lt, legacy_end_lt = end_lt,
          legacy_prev_key_block_seqno = prev_key, legacy_master_ref = master_ref,
          legacy_prev_ref = prev_ref, legacy_prev_vert_ref = prev_vert_ref\<rparr>)))))))))))))))))))"

text \<open>Which of two tags was read: \<open>false\<close> for the first format, \<open>true\<close> for the second.\<close>

definition match_tag :: "'a \<Rightarrow> 'a \<Rightarrow> 'a \<Rightarrow> error + bool" where
  "match_tag v1 v2 tag = (if tag = v1 then Inr False else if tag = v2 then Inr True else Inl InvalidTag)"

definition legacy_load_info ::
  "('c, 's, 'u, 'h, 'g) cell_lib \<Rightarrow> ('s, 'u, 'c legacy_block_info) rd" where
  "legacy_load_info L =
     bnd (load_u32 L) (\<lambda>tag.
     bnd (of_result (match_tag LEGACY_INFO_TAG_V1 LEGACY_INFO_TAG_V2 tag)) (\<lambda>is_new.
     legacy_load_info_body L is_new))"

record ('c) legacy_block_extra =
  legacy_account_blocks :: 'c
  legacy_custom :: "'c option"

definition LEGACY_EXTRA_TAG_V1 :: u32 where
  "LEGACY_EXTRA_TAG_V1 = 0x4a33f6fd"

definition LEGACY_EXTRA_TAG_V2 :: u32 where
  "LEGACY_EXTRA_TAG_V2 = 0x4a33f6fc"

definition legacy_load_extra ::
  "('c, 's, 'u, 'h, 'g) cell_lib \<Rightarrow> ('s, 'u, 'c legacy_block_extra) rd" where
  "legacy_load_extra L =
     bnd (load_u32 L) (\<lambda>tag.
     bnd (of_result (match_tag LEGACY_EXTRA_TAG_V1 LEGACY_EXTRA_TAG_V2 tag)) (\<lambda>is_new.
     bnd (load_reference L) (\<lambda>in_msg.
     bnd (load_reference L) (\<lambda>out_msg.
     bnd (load_reference L) (\<lambda>account_blocks.
     bnd (skip_first L 256 0) (\<lambda>rand_seed.
     bnd (skip_first L 256 0) (\<lambda>created_by.
     bnd (if is_new
          then bnd (load_reference_as_slice L) (\<lambda>inner (cs, u).
            case load_option_cell L (inner, u) of (r, (_, u1)) \<Rightarrow> (r, (cs, u1)))
          else load_option_cell L) (\<lambda>custom.
     ret \<lparr>legacy_account_blocks = account_blocks, legacy_custom = custom\<rparr>))))))))"

record ('h, 'g) legacy_mc_extra =
  legacy_shard_hashes :: 'h
  legacy_config :: "'g option"

definition legacy_load_mc_extra ::
  "('c, 's, 'u, 'h, 'g) cell_lib \<Rightarrow> ('s, 'u, ('h, 'g) legacy_mc_extra) rd" where
  "legacy_load_mc_extra L =
     bnd (load_u16 L) (\<lambda>tag.
     bnd (guard (tag = 0xcca5 \<or> tag = 0xdc75) InvalidTag) (\<lambda>_.
     bnd (load_bit L) (\<lambda>with_config.
     bnd (load_shard_hashes L) (\<lambda>hashes.
     bnd (load_if with_config (bnd (only_last L 256 1) (\<lambda>_. load_config L))) (\<lambda>config.
     ret \<lparr>legacy_shard_hashes = hashes, legacy_config = config\<rparr>)))))"

record ('c) legacy_block_signatures =
  legacy_validator_info :: "u32 \<times> u32"
  legacy_signature_count :: u32
  legacy_total_weight :: u64
  legacy_signatures :: "'c option"

definition legacy_load_block_signatures ::
  "('c, 's, 'u, 'h, 'g) cell_lib \<Rightarrow> ('s, 'u, 'c legacy_block_signatures) rd" where
  "legacy_load_block_signatures L =
     bnd (load_u8 L) (\<lambda>tag.
     bnd (guard (tag = 0x11) InvalidTag) (\<lambda>_.
     bnd (load_validator_info L) (\<lambda>info.
     bnd (load_u32 L) (\<lambda>count.
     bnd (load_u64 L) (\<lambda>weight.
     bnd (load_dict L) (\<lambda>sigs.
     ret \<lparr>legacy_validator_info = info, legacy_signature_count = count,
          legacy_total_weight = weight, legacy_signatures = sigs\<rparr>))))))"

section \<open>The trait implementations\<close>

definition legacy_block_load_info ::
  "('c, 's, 'u, 'h, 'g) cell_lib \<Rightarrow> 'c legacy_block \<Rightarrow> ('u, 'c legacy_block_info) io" where
  "legacy_block_load_info L b = parse L (legacy_load_info L) (legacy_info b)"

definition legacy_block_load_info_raw :: "'c legacy_block \<Rightarrow> ('u, 'c) io" where
  "legacy_block_load_info_raw b = ret (legacy_info b)"

definition legacy_block_load_extra ::
  "('c, 's, 'u, 'h, 'g) cell_lib \<Rightarrow> 'c legacy_block \<Rightarrow> ('u, 'c legacy_block_extra) io" where
  "legacy_block_load_extra L b = parse L (legacy_load_extra L) (legacy_extra b)"

definition legacy_load_account_blocks ::
  "('c, 's, 'u, 'h, 'g) cell_lib \<Rightarrow> 'c legacy_block_extra \<Rightarrow> ('u, 'c option) io" where
  "legacy_load_account_blocks L e = parse L (load_aug_dict L) (legacy_account_blocks e)"

definition legacy_has_custom :: "'c legacy_block_extra \<Rightarrow> bool" where
  "legacy_has_custom e \<longleftrightarrow> legacy_custom e \<noteq> None"

definition legacy_load_custom ::
  "('c, 's, 'u, 'h, 'g) cell_lib \<Rightarrow> 'c legacy_block_extra \<Rightarrow> ('u, ('h, 'g) legacy_mc_extra option) io" where
  "legacy_load_custom L e =
     (case legacy_custom e of
        None \<Rightarrow> ret None
      | Some custom \<Rightarrow> bnd (parse L (legacy_load_mc_extra L) custom) (\<lambda>m. ret (Some m)))"

definition legacy_top_shard_ids ::
  "('c, 's, 'u, 'h, 'g) cell_lib \<Rightarrow> ('h, 'g) legacy_mc_extra \<Rightarrow> ('u, block_id_short list) io" where
  "legacy_top_shard_ids L m u =
     (case sh_latest_blocks L (legacy_shard_hashes m) u of (es, u1) \<Rightarrow> (push_short_ids es [], u1))"

definition legacy_known_descr :: "u8 \<Rightarrow> bool" where
  "legacy_known_descr tag \<longleftrightarrow> 0xa \<le> tag \<and> tag \<le> 0xe"

definition legacy_find_shard_seqno ::
  "('c, 's, 'u, 'h, 'g) cell_lib \<Rightarrow> ('h, 'g) legacy_mc_extra \<Rightarrow> shard_ident \<Rightarrow> ('u, u32) io" where
  "legacy_find_shard_seqno L m sh =
     bnd (sh_workchain_root L (legacy_shard_hashes m) (workchain sh)) (\<lambda>r.
     bnd (of_result (ok_or CellUnderflow r)) (\<lambda>root.
     bnd (find_shard_descr L root (prefix sh)) (\<lambda>descr_root.
     descr_seqno L legacy_known_descr descr_root)))"

definition legacy_visit_shard_hashes ::
  "('c, 's, 'u, 'h, 'g) cell_lib \<Rightarrow> ('h, 'g) legacy_mc_extra \<Rightarrow> ('u, unit) io" where
  "legacy_visit_shard_hashes L m u =
     (case sh_raw_iter L (legacy_shard_hashes m) u of (es, u1) \<Rightarrow> (bindR (collect es) (\<lambda>_. Inr ()), u1))"

definition legacy_models ::
  "('c, 's, 'u, 'h, 'g) cell_lib \<Rightarrow>
   ('c legacy_block, 'c legacy_block_info, 'c legacy_block_extra, ('h, 'g) legacy_mc_extra, 'c, 's, 'u, 'g) models" where
  "legacy_models L =
     \<lparr>m_load_block = legacy_load_block L,
      m_load_info = legacy_block_load_info L,
      m_load_info_raw = legacy_block_load_info_raw,
      m_load_extra = legacy_block_load_extra L,
      m_is_key_block = legacy_is_key_block,
      m_end_lt = legacy_end_lt,
      m_prev_ref = legacy_prev_ref,
      m_load_account_blocks = legacy_load_account_blocks L,
      m_has_custom = legacy_has_custom,
      m_load_custom = legacy_load_custom L,
      m_top_shard_ids = legacy_top_shard_ids L,
      m_find_shard_seqno = legacy_find_shard_seqno L,
      m_visit_shard_hashes = legacy_visit_shard_hashes L,
      m_config = legacy_config\<rparr>"

lemma legacy_load_custom_none: "\<not> legacy_has_custom e \<Longrightarrow> legacy_load_custom L e = ret None"
  by (simp add: legacy_has_custom_def legacy_load_custom_def)

lemma legacy_load_custom_some: "legacy_has_custom e \<Longrightarrow> fst (legacy_load_custom L e u) \<noteq> Inr None"
  by (auto simp: legacy_has_custom_def legacy_load_custom_def bnd_def ret_def split: sum.splits prod.splits)

interpretation legacy: blockchain_models L "legacy_models L" "legacy_load_info L" legacy_info legacy_shard_hashes legacy_known_descr
  for L :: "('c, 's, 'u, 'h, 'g) cell_lib"
  by unfold_locales
    (simp_all add: legacy_models_def legacy_block_load_info_raw_def legacy_block_load_info_def
      legacy_load_custom_none legacy_load_custom_some legacy_top_shard_ids_def [abs_def] legacy_find_shard_seqno_def)

section \<open>Agreement with the other formats\<close>

text \<open>What the three kinds of block info have in common.\<close>

definition legacy_of_tycho :: "'c tycho_block_info \<Rightarrow> 'c legacy_block_info" where
  "legacy_of_tycho i =
     \<lparr>legacy_is_key_block = tycho_is_key_block i, legacy_seqno = tycho_seqno i,
      legacy_shard = tycho_shard i, legacy_gen_utime = tycho_gen_utime i,
      legacy_start_lt = tycho_start_lt i, legacy_end_lt = tycho_end_lt i,
      legacy_prev_key_block_seqno = tycho_prev_key_block_seqno i,
      legacy_master_ref = tycho_master_ref i, legacy_prev_ref = tycho_prev_ref i,
      legacy_prev_vert_ref = tycho_prev_vert_ref i\<rparr>"

definition ton_of_legacy :: "'c legacy_block_info \<Rightarrow> 'c ton_block_info" where
  "ton_of_legacy i =
     \<lparr>ton_is_key_block = legacy_is_key_block i, ton_shard = legacy_shard i,
      ton_gen_utime = legacy_gen_utime i, ton_start_lt = legacy_start_lt i,
      ton_end_lt = legacy_end_lt i,
      ton_prev_key_block_seqno = legacy_prev_key_block_seqno i,
      ton_master_ref = legacy_master_ref i, ton_prev_ref = legacy_prev_ref i,
      ton_prev_vert_ref = legacy_prev_vert_ref i\<rparr>"

lemma bnd_fmap: "bnd m (\<lambda>a. ret (f a)) s = (case m s of (r, t) \<Rightarrow> (map_sum id f r, t))"
  by (auto simp: bnd_def ret_def split: prod.splits sum.splits)

lemma legacy_body_tycho:
  "legacy_load_info_body L True = bnd (tycho_load_info_body L) (\<lambda>i. ret (legacy_of_tycho i))"
  unfolding legacy_load_info_body_def tycho_load_info_body_def legacy_of_tycho_def
    LEGACY_FLAG_WITH_GEN_SOFTWARE_def TYCHO_FLAG_WITH_GEN_SOFTWARE_def Let_def
  by (simp add: bnd_assoc bnd_ret)

lemma legacy_body_ton:
  "ton_load_info_body L = bnd (legacy_load_info_body L False) (\<lambda>i. ret (ton_of_legacy i))"
  unfolding legacy_load_info_body_def ton_load_info_body_def ton_of_legacy_def
    LEGACY_FLAG_WITH_GEN_SOFTWARE_def TON_FLAG_WITH_GEN_SOFTWARE_def Let_def
  by (simp add: bnd_assoc bnd_ret)

lemma legacy_info_tycho:
  assumes "tycho_load_info L st = (Inr i, st1)"
  shows "legacy_load_info L st = (Inr (legacy_of_tycho i), st1)"
proof -
  from assms obtain st0 where
    "load_u32 L st = (Inr LEGACY_INFO_TAG_V2, st0)" "tycho_load_info_body L st0 = (Inr i, st1)"
    unfolding tycho_load_info_def TYCHO_INFO_TAG_def LEGACY_INFO_TAG_V2_def
    by (auto elim!: bnd_InrE guard_InrE)
  then show ?thesis
    by (simp add: legacy_load_info_def bnd_def of_result_def match_tag_def legacy_body_tycho
        LEGACY_INFO_TAG_V1_def LEGACY_INFO_TAG_V2_def ret_def)
qed

lemma legacy_info_ton:
  assumes "ton_load_info L st = (Inr j, st1)"
  shows "\<exists>k. legacy_load_info L st = (Inr k, st1) \<and> ton_of_legacy k = j"
proof -
  from assms obtain st0 where
    t: "load_u32 L st = (Inr LEGACY_INFO_TAG_V1, st0)" "ton_load_info_body L st0 = (Inr j, st1)"
    unfolding ton_load_info_def TON_INFO_TAG_def LEGACY_INFO_TAG_V1_def
    by (auto elim!: bnd_InrE guard_InrE)
  from t(2) obtain k where "legacy_load_info_body L False st0 = (Inr k, st1)" "ton_of_legacy k = j"
    unfolding legacy_body_ton by (auto elim!: bnd_InrE ret_InrE)
  with t(1) show ?thesis
    by (simp add: legacy_load_info_def bnd_def of_result_def match_tag_def)
qed

end
