(* ===== verification/Signatures.thy ===== *)
theory Signatures
  imports Cell_Api
begin

text \<open>
  Validator sets and block signatures, from \<open>util/src/block/mod.rs\<close>: \<open>make_epoch_data\<close>,
  \<open>prepare_signatures\<close> and \<open>check_signatures\<close>. A \<open>HashMap\<close> is an association list with
  distinct keys (\<open>AList\<close>). Hashing a public key, checking a signature and building the data
  to sign are parameters. The lemmas give what each function accepts, and relate the
  two-thirds rule of \<open>check_signatures\<close> to the cutoff weight stored in the epoch data.
\<close>

section \<open>Data\<close>

record validator_description =
  public_key :: hash_bytes
  weight :: u64

record validator_set =
  utime_since :: u32
  utime_until :: u32
  main_count :: u16
  total_weight :: u64
  validators :: "validator_description list"

record block_signature =
  node_id_short :: hash_bytes
  signature :: signature

section \<open>Epoch data\<close>

text \<open>The loop over the main validators: the dictionary entries and the checked sum.\<close>

fun epoch_loop ::
  "nat \<Rightarrow> validator_description list \<Rightarrow> (u16 \<times> hash_bytes \<times> u64) list \<Rightarrow> u64 \<Rightarrow>
   error + (u16 \<times> hash_bytes \<times> u64) list \<times> u64" where
  "epoch_loop i [] acc tot = Inr (acc, tot)"
| "epoch_loop i (v # vs) acc tot =
     bindR (ok_or IntOverflow (checked_add tot (weight v))) (\<lambda>tot.
     epoch_loop (Suc i) vs (acc @ [(word_of_nat i, public_key v, weight v)]) tot)"

definition cutoff_weight :: "u64 \<Rightarrow> u128" where
  "cutoff_weight tot = (ucast tot * 2) div 3 + 1"

definition make_epoch_data ::
  "('c, 'b) builder_lib \<Rightarrow> validator_set \<Rightarrow> error + 'c" where
  "make_epoch_data B vset =
     (let count = unat (main_count vset) in
      if length (validators vset) < count then Inl InvalidData else
      bindR (epoch_loop 0 (take count (validators vset)) [] 0) (\<lambda>(main_validators, tot).
      if length main_validators \<noteq> count then Inl Panic else
      bindR (dict_of_weights B main_validators) (\<lambda>dict.
      bindR (ok_or CellUnderflow dict) (\<lambda>root.
      bindR (store_u32 B (utime_since vset) (b_new B)) (\<lambda>b.
      bindR (store_u32 B (utime_until vset) b) (\<lambda>b.
      bindR (store_u16 B (main_count vset) b) (\<lambda>b.
      bindR (store_tokens B (cutoff_weight tot) b) (\<lambda>b.
      bindR (store_reference B root b) (\<lambda>b.
      build B b)))))))))"

section \<open>The signatures dictionary\<close>

fun insert_signatures ::
  "(error + block_signature) list \<Rightarrow> (hash_bytes \<times> signature) list \<Rightarrow>
   error + (hash_bytes \<times> signature) list" where
  "insert_signatures [] m = Inr m"
| "insert_signatures (Inl e # es) m = Inl e"
| "insert_signatures (Inr s # es) m =
     (if map_of m (node_id_short s) \<noteq> None then Inl InvalidData
      else insert_signatures es (AList.update (node_id_short s) (signature s) m))"

fun prepare_loop ::
  "(hash_bytes \<Rightarrow> hash_bytes) \<Rightarrow> nat \<Rightarrow> validator_description list \<Rightarrow>
   (hash_bytes \<times> signature) list \<Rightarrow> (u16 \<times> signature) list \<Rightarrow>
   (hash_bytes \<times> signature) list \<times> (u16 \<times> signature) list" where
  "prepare_loop kh i [] m acc = (m, acc)"
| "prepare_loop kh i (v # vs) m acc =
     (case map_of m (kh (public_key v)) of
        None \<Rightarrow> prepare_loop kh (Suc i) vs m acc
      | Some s \<Rightarrow> prepare_loop kh (Suc i) vs (AList.delete (kh (public_key v)) m)
                   (acc @ [(word_of_nat i, s)]))"

definition prepare_signatures ::
  "('c, 'b) builder_lib \<Rightarrow> (hash_bytes \<Rightarrow> hash_bytes) \<Rightarrow>
   (error + block_signature) list \<Rightarrow> validator_set \<Rightarrow> error + 'c" where
  "prepare_signatures B kh sigs vset =
     bindR (insert_signatures sigs []) (\<lambda>m.
     case prepare_loop kh 0 (validators vset) m [] of (rest, result) \<Rightarrow>
       if rest \<noteq> [] then Inl InvalidData
       else bindR (dict_of_sigs B result) (\<lambda>d. ok_or EmptyProof d))"

section \<open>Checking signatures\<close>

text \<open>Collecting into a \<open>HashMap\<close>: a later signature of the same node replaces the earlier.\<close>

definition collect_signatures ::
  "(error + block_signature) list \<Rightarrow> error + (hash_bytes \<times> signature) list" where
  "collect_signatures sigs =
     bindR (collect sigs) (\<lambda>ss.
     Inr (foldl (\<lambda>m s. AList.update (node_id_short s) (signature s) m) [] ss))"

fun check_loop ::
  "(hash_bytes \<Rightarrow> hash_bytes) \<Rightarrow> (hash_bytes \<Rightarrow> signature \<Rightarrow> bool) \<Rightarrow>
   validator_description list \<Rightarrow> (hash_bytes \<times> signature) list \<Rightarrow> u64 \<Rightarrow>
   error + (hash_bytes \<times> signature) list \<times> u64" where
  "check_loop kh verify [] m w = Inr (m, w)"
| "check_loop kh verify (v # vs) m w =
     (case map_of m (kh (public_key v)) of
        None \<Rightarrow> check_loop kh verify vs m w
      | Some s \<Rightarrow>
          if \<not> verify (public_key v) s then Inl InvalidSignature
          else bindR (ok_or IntOverflow (checked_add w (weight v))) (\<lambda>w.
               check_loop kh verify vs (AList.delete (kh (public_key v)) m) w))"

definition enough_weight :: "u64 \<Rightarrow> u64 \<Rightarrow> error + unit" where
  "enough_weight w tot =
     (case (checked_mul w 3, checked_mul tot 2) of
        (Some weight_x3, Some total_weight_x2) \<Rightarrow>
          if weight_x3 > total_weight_x2 then Inr () else Inl InvalidData
      | _ \<Rightarrow> Inl IntOverflow)"

definition check_signatures ::
  "(hash_bytes \<Rightarrow> hash_bytes) \<Rightarrow> ('d \<Rightarrow> hash_bytes \<Rightarrow> signature \<Rightarrow> bool) \<Rightarrow> (block_id \<Rightarrow> 'd) \<Rightarrow>
   block_id \<Rightarrow> (error + block_signature) list \<Rightarrow> validator_set \<Rightarrow> error + unit" where
  "check_signatures kh verify data_for_sign block_id sigs vset =
     bindR (collect_signatures sigs) (\<lambda>m.
     let to_sign = data_for_sign block_id in
     bindR (check_loop kh (verify to_sign) (validators vset) m 0) (\<lambda>(rest, w).
     if rest \<noteq> [] then Inl InvalidData
     else enough_weight w (total_weight vset)))"

section \<open>The map of signatures\<close>

lemma insert_signatures_spec:
  assumes "insert_signatures es m = Inr m1" and "distinct (map fst m)"
  shows "\<exists>ss. es = map Inr ss \<and> distinct (map node_id_short ss) \<and>
     (\<forall>s\<in>set ss. map_of m (node_id_short s) = None) \<and> distinct (map fst m1) \<and>
     map_of m1 = map_of m ++ map_of (map (\<lambda>s. (node_id_short s, signature s)) ss)"
  using assms
proof (induction es m rule: insert_signatures.induct)
  case (1 m)
  then show ?case by simp
next
  case (2 e es m)
  then show ?case by simp
next
  case (3 s es m)
  let ?m = "AList.update (node_id_short s) (signature s) m"
  from "3.prems" have none: "map_of m (node_id_short s) = None"
    and rest: "insert_signatures es ?m = Inr m1"
    by (cases "map_of m (node_id_short s)", simp_all)+
  from "3.IH" [OF _ rest] none distinct_update [OF "3.prems"(2), of "node_id_short s" "signature s"] obtain ss where
    ss: "es = map Inr ss" "distinct (map node_id_short ss)"
      "\<forall>t\<in>set ss. map_of ?m (node_id_short t) = None" "distinct (map fst m1)"
      "map_of m1 = map_of ?m ++ map_of (map (\<lambda>s. (node_id_short s, signature s)) ss)"
    by auto
  have fresh: "node_id_short s \<notin> node_id_short ` set ss"
    using ss(3) by (auto simp: update_conv)
  then have "node_id_short s \<notin> dom (map_of (map (\<lambda>s. (node_id_short s, signature s)) ss))"
    by (auto simp: dom_map_of_conv_image_fst)
  then have upd: "map_of m1 = map_of m ++ map_of (map (\<lambda>s. (node_id_short s, signature s)) (s # ss))"
    using ss(5) by (simp add: update_conv' map_add_upd_left)
  have "\<forall>t\<in>set ss. map_of m (node_id_short t) = None"
    using ss(3) by (auto simp: update_conv split: if_splits)
  with none have nones: "\<forall>t\<in>set (s # ss). map_of m (node_id_short t) = None" by simp
  show ?case
    by (intro exI [of _ "s # ss"] conjI upd nones ss(4)) (use ss(1,2) fresh in simp_all)
qed

lemma insert_signatures_ok:
  assumes "distinct (map node_id_short ss)" and "distinct (map fst m)"
    and "\<forall>s\<in>set ss. map_of m (node_id_short s) = None"
  shows "\<exists>m1. insert_signatures (map Inr ss) m = Inr m1"
  using assms
proof (induction ss arbitrary: m)
  case Nil
  then show ?case by simp
next
  case (Cons s ss)
  let ?m = "AList.update (node_id_short s) (signature s) m"
  have "\<exists>m1. insert_signatures (map Inr ss) ?m = Inr m1"
  proof (rule Cons.IH)
    have "\<forall>t\<in>set ss. node_id_short t \<noteq> node_id_short s"
      using Cons.prems(1) by (simp add: image_iff) metis
    then show "\<forall>t\<in>set ss. map_of ?m (node_id_short t) = None"
      using Cons.prems(3) by (simp add: update_conv)
  qed (use Cons.prems in \<open>simp_all add: distinct_update\<close>)
  with Cons.prems show ?case by simp
qed

text \<open>The map a list of signatures stands for, the last one of a node winning.\<close>

definition signature_map :: "block_signature list \<Rightarrow> hash_bytes \<rightharpoonup> signature" where
  "signature_map ss = map_of (rev (map (\<lambda>s. (node_id_short s, signature s)) ss))"

lemma foldl_update_map:
  "map_of (foldl (\<lambda>m s. AList.update (node_id_short s) (signature s) m) m ss) =
   map_of m ++ signature_map ss"
proof (induction ss arbitrary: m)
  case Nil
  then show ?case by (simp add: signature_map_def)
next
  case (Cons s ss)
  show ?case
    unfolding foldl_Cons Cons.IH
    by (auto simp: signature_map_def update_conv map_add_def fun_eq_iff split: option.splits)
qed

lemma foldl_update_distinct:
  "distinct (map fst m) \<Longrightarrow>
   distinct (map fst (foldl (\<lambda>m s. AList.update (node_id_short s) (signature s) m) m ss))"
  by (induction ss arbitrary: m) (auto simp: distinct_update)

lemma collect_signatures_map_Inr:
  obtains m where "collect_signatures (map Inr ss) = Inr m"
    and "distinct (map fst m)" and "map_of m = signature_map ss"
proof
  let ?m = "foldl (\<lambda>m s. AList.update (node_id_short s) (signature s) m) [] ss"
  show "collect_signatures (map Inr ss) = Inr ?m" by (simp add: collect_signatures_def)
  show "distinct (map fst ?m)" by (rule foldl_update_distinct) simp
  show "map_of ?m = signature_map ss" by (simp add: foldl_update_map)
qed

lemma dom_signature_map: "dom (signature_map ss) = node_id_short ` set ss"
  by (simp add: signature_map_def dom_map_of_conv_image_fst image_image)

lemma signature_map_distinct:
  "distinct (map node_id_short ss) \<Longrightarrow>
   map_of (map (\<lambda>s. (node_id_short s, signature s)) ss) = signature_map ss"
  unfolding signature_map_def
  by (rule map_of_inject_set [THEN iffD2]) (simp_all add: comp_def rev_map [symmetric])

section \<open>The checking loop\<close>

text \<open>
  The validators whose signatures the loop takes: those whose key hash is still in the map,
  each hash once.
\<close>

fun signing :: "(hash_bytes \<Rightarrow> hash_bytes) \<Rightarrow> validator_description list \<Rightarrow> hash_bytes set \<Rightarrow>
    validator_description list" where
  "signing kh [] D = []"
| "signing kh (v # vs) D =
     (if kh (public_key v) \<in> D then v # signing kh vs (D - {kh (public_key v)})
      else signing kh vs D)"

definition weight_sum :: "validator_description list \<Rightarrow> nat" where
  "weight_sum vs = sum_list (map (\<lambda>v. unat (weight v)) vs)"

lemma weight_sum_simps [simp]:
  "weight_sum [] = 0"
  "weight_sum (v # vs) = unat (weight v) + weight_sum vs"
  by (simp_all add: weight_sum_def)

lemma signing_subset: "set (signing kh vs D) \<subseteq> set vs"
  by (induction kh vs D rule: signing.induct) auto

lemma signing_keys: "(kh \<circ> public_key) ` set (signing kh vs D) = D \<inter> (kh \<circ> public_key) ` set vs"
  by (induction kh vs D rule: signing.induct) auto

lemma check_loop_spec:
  assumes "distinct (map fst m)"
  shows "check_loop kh verify vs m w = Inr (m1, w1) \<Longrightarrow>
     (\<forall>v\<in>set (signing kh vs (dom (map_of m))).
        \<exists>s. map_of m (kh (public_key v)) = Some s \<and> verify (public_key v) s) \<and>
     unat w1 = unat w + weight_sum (signing kh vs (dom (map_of m))) \<and>
     fst ` set m1 = fst ` set m - (kh \<circ> public_key) ` set vs"
  using assms
proof (induction kh verify vs m w rule: check_loop.induct)
  case (1 kh verify m w)
  then show ?case by simp
next
  case (2 kh verify v vs m w)
  let ?k = "kh (public_key v)"
  have dom: "dom (map_of m) = fst ` set m" by (rule dom_map_of_conv_image_fst)
  show ?case
  proof (cases "map_of m ?k")
    case None
    with "2.IH"(1) "2.prems" have
      "(\<forall>v\<in>set (signing kh vs (dom (map_of m))).
          \<exists>s. map_of m (kh (public_key v)) = Some s \<and> verify (public_key v) s) \<and>
       unat w1 = unat w + weight_sum (signing kh vs (dom (map_of m))) \<and>
       fst ` set m1 = fst ` set m - (kh \<circ> public_key) ` set vs" by simp
    moreover have "?k \<notin> fst ` set m" using None dom by auto
    ultimately show ?thesis using None by (auto simp: domIff)
  next
    case (Some s)
    let ?m = "AList.delete ?k m"
    from "2.prems" Some obtain w2 where ok: "verify (public_key v) s"
      and w2: "checked_add w (weight v) = Some w2"
      and rest: "check_loop kh verify vs ?m w2 = Inr (m1, w1)"
      by (auto split: if_splits)
    have dom': "dom (map_of ?m) = dom (map_of m) - {?k}"
      by (auto simp: delete_conv dom_def)
    have fst': "fst ` set ?m = fst ` set m - {?k}"
      using dom' by (simp add: dom_map_of_conv_image_fst)
    from "2.IH"(2) [OF Some _ rest] ok w2 distinct_delete [OF "2.prems"(2)]
    have IH: "\<forall>v\<in>set (signing kh vs (dom (map_of m) - {?k})).
        \<exists>s. map_of ?m (kh (public_key v)) = Some s \<and> verify (public_key v) s"
      "unat w1 = unat w2 + weight_sum (signing kh vs (dom (map_of m) - {?k}))"
      "fst ` set m1 = fst ` set m - {?k} - (kh \<circ> public_key) ` set vs"
      by (simp_all add: dom' fst')
    from IH(1) have "\<forall>v\<in>set (signing kh vs (dom (map_of m) - {?k})).
        \<exists>s. map_of m (kh (public_key v)) = Some s \<and> verify (public_key v) s"
      by (auto simp: delete_conv split: if_splits)
    with IH(2,3) w2 ok Some show ?thesis by (auto dest: checked_add_SomeD)
  qed
qed

lemma check_loop_ok:
  assumes "distinct (map fst m)"
    and "\<And>v s. v \<in> set (signing kh vs (dom (map_of m))) \<Longrightarrow>
      map_of m (kh (public_key v)) = Some s \<Longrightarrow> verify (public_key v) s"
    and "unat w + weight_sum (signing kh vs (dom (map_of m))) < 2 ^ 64"
  shows "\<exists>r. check_loop kh verify vs m w = Inr r"
  using assms
proof (induction kh verify vs m w rule: check_loop.induct)
  case (1 kh verify m w)
  then show ?case by simp
next
  case (2 kh verify v vs m w)
  let ?k = "kh (public_key v)"
  show ?case
  proof (cases "map_of m ?k")
    case None
    with "2.IH"(1) "2.prems" show ?thesis by (simp add: domIff)
  next
    case (Some s)
    let ?m = "AList.delete ?k m"
    have dom': "dom (map_of ?m) = dom (map_of m) - {?k}"
      by (auto simp: delete_conv dom_def)
    have ok: "verify (public_key v) s" using "2.prems"(2) [of v s] Some by (simp add: domI)
    have lt: "unat w + unat (weight v) + weight_sum (signing kh vs (dom (map_of m) - {?k})) < 2 ^ 64"
      using "2.prems"(3) Some by (simp add: domI)
    then obtain w2 where w2: "checked_add w (weight v) = Some w2"
      by (auto simp: checked_add_def)
    have "\<exists>r. check_loop kh verify vs ?m w2 = Inr r"
    proof (rule "2.IH"(2) [OF Some])
      show "\<not> \<not> verify (public_key v) s" using ok by simp
      show "distinct (map fst ?m)" using "2.prems"(1) by (rule distinct_delete)
      show "verify (public_key va) sa"
        if "va \<in> set (signing kh vs (dom (map_of ?m)))" "map_of ?m (kh (public_key va)) = Some sa" for va sa
        using that "2.prems"(2) [of va sa] Some
        by (auto simp: dom' delete_conv domI split: if_splits)
      show "unat w2 + weight_sum (signing kh vs (dom (map_of ?m))) < 2 ^ 64"
        using lt checked_add_SomeD [OF w2] by (simp add: dom')
    qed
    with Some ok w2 show ?thesis by simp
  qed
qed

lemma enough_weight_iff:
  "enough_weight w tot = Inr () \<longleftrightarrow>
     2 * unat tot < 3 * unat w \<and> 3 * unat w < 2 ^ 64 \<and> 2 * unat tot < 2 ^ 64"
  by (auto simp: enough_weight_def checked_mul_def word_less_nat_alt unat_word_ariths
      mult.commute split: if_splits)

lemma check_signatures_map_Inr:
  "check_signatures kh verify data_for_sign bid (map Inr ss) vset = Inr () \<longleftrightarrow>
   (let m = signature_map ss; S = signing kh (validators vset) (dom m) in
      dom m \<subseteq> (kh \<circ> public_key) ` set (validators vset) \<and>
      (\<forall>v\<in>set S. \<exists>s. m (kh (public_key v)) = Some s \<and> verify (data_for_sign bid) (public_key v) s) \<and>
      2 * unat (total_weight vset) < 3 * weight_sum S \<and>
      3 * weight_sum S < 2 ^ 64 \<and> 2 * unat (total_weight vset) < 2 ^ 64)"
proof -
  let ?ver = "verify (data_for_sign bid)" and ?vs = "validators vset"
  obtain m where m: "collect_signatures (map Inr ss) = Inr m"
    "distinct (map fst m)" "map_of m = signature_map ss" by (rule collect_signatures_map_Inr)
  let ?D = "dom (signature_map ss)"
  let ?S = "signing kh ?vs ?D"
  have D: "fst ` set m = ?D" using m(3) dom_map_of_conv_image_fst [of m] by simp
  have check: "check_signatures kh verify data_for_sign bid (map Inr ss) vset = Inr () \<longleftrightarrow>
    (\<exists>w. check_loop kh ?ver ?vs m 0 = Inr ([], w) \<and> enough_weight w (total_weight vset) = Inr ())"
    by (cases "check_loop kh ?ver ?vs m 0") (auto simp: check_signatures_def m(1) split: if_splits)
  show ?thesis
    unfolding check Let_def
  proof (intro iffI conjI; (elim exE conjE)?)
    fix w
    assume loop: "check_loop kh ?ver ?vs m 0 = Inr ([], w)"
      and enough: "enough_weight w (total_weight vset) = Inr ()"
    note spec = check_loop_spec [OF m(2) loop, unfolded m(3)]
    from spec D show "?D \<subseteq> (kh \<circ> public_key) ` set ?vs" by auto
    from spec show "\<forall>v\<in>set ?S. \<exists>s. signature_map ss (kh (public_key v)) = Some s \<and> ?ver (public_key v) s"
      by simp
    from spec enough show "2 * unat (total_weight vset) < 3 * weight_sum ?S"
      "3 * weight_sum ?S < 2 ^ 64" "2 * unat (total_weight vset) < 2 ^ 64"
      by (simp_all add: enough_weight_iff)
  next
    assume known: "?D \<subseteq> (kh \<circ> public_key) ` set ?vs"
      and valid: "\<forall>v\<in>set ?S. \<exists>s. signature_map ss (kh (public_key v)) = Some s \<and> ?ver (public_key v) s"
      and weights: "2 * unat (total_weight vset) < 3 * weight_sum ?S" "3 * weight_sum ?S < 2 ^ 64"
        "2 * unat (total_weight vset) < 2 ^ 64"
    have "\<exists>r. check_loop kh ?ver ?vs m 0 = Inr r"
    proof (rule check_loop_ok [OF m(2), unfolded m(3)])
      show "?ver (public_key v) s"
        if "v \<in> set ?S" "signature_map ss (kh (public_key v)) = Some s" for v s
        using valid that by fastforce
      show "unat (0::u64) + weight_sum ?S < 2 ^ 64" using weights(2) by simp
    qed
    then obtain m1 w where loop: "check_loop kh ?ver ?vs m 0 = Inr (m1, w)" by auto
    note spec = check_loop_spec [OF m(2) loop, unfolded m(3)]
    from spec have "fst ` set m1 = fst ` set m - (kh \<circ> public_key) ` set ?vs" by (elim conjE)
    also have "\<dots> = {}" using D known by simp
    finally have "fst ` set m1 = {}" .
    then have "m1 = []" by simp
    moreover from spec weights have "enough_weight w (total_weight vset) = Inr ()"
      by (simp add: enough_weight_iff)
    ultimately show "\<exists>w. check_loop kh ?ver ?vs m 0 = Inr ([], w) \<and>
      enough_weight w (total_weight vset) = Inr ()" using loop by blast
  qed
qed

section \<open>The dictionary of prepared signatures\<close>

definition signature_entries ::
  "(hash_bytes \<Rightarrow> hash_bytes) \<Rightarrow> (hash_bytes \<rightharpoonup> signature) \<Rightarrow> nat \<Rightarrow> validator_description list \<Rightarrow>
   (u16 \<times> signature) list" where
  "signature_entries kh m i vs =
     concat (map (\<lambda>(j, v). case m (kh (public_key v)) of None \<Rightarrow> [] | Some s \<Rightarrow> [(word_of_nat j, s)])
       (enumerate i vs))"

lemma signature_entries_simps [simp]:
  "signature_entries kh m i [] = []"
  "signature_entries kh m i (v # vs) =
     (case m (kh (public_key v)) of None \<Rightarrow> [] | Some s \<Rightarrow> [(word_of_nat i, s)]) @
     signature_entries kh m (Suc i) vs"
  by (simp_all add: signature_entries_def)

lemma signature_entries_cong:
  "(\<And>v. v \<in> set vs \<Longrightarrow> m (kh (public_key v)) = m1 (kh (public_key v))) \<Longrightarrow>
   signature_entries kh m i vs = signature_entries kh m1 i vs"
  by (induction vs arbitrary: i) simp_all

lemma prepare_loop_spec:
  assumes "distinct (map (kh \<circ> public_key) vs)"
  shows "\<exists>rest. prepare_loop kh i vs m acc = (rest, acc @ signature_entries kh (map_of m) i vs) \<and>
     fst ` set rest = fst ` set m - (kh \<circ> public_key) ` set vs"
  using assms
proof (induction kh i vs m acc rule: prepare_loop.induct)
  case (1 kh i m acc)
  then show ?case by simp
next
  case (2 kh i v vs m acc)
  let ?k = "kh (public_key v)"
  from "2.prems" have fresh: "?k \<notin> (kh \<circ> public_key) ` set vs" by simp
  show ?case
  proof (cases "map_of m ?k")
    case None
    then have "?k \<notin> fst ` set m" by (simp add: map_of_eq_None_iff)
    with "2.IH"(1) [OF None] "2.prems" None show ?thesis by auto
  next
    case (Some s)
    let ?m = "AList.delete ?k m"
    have fst': "fst ` set ?m = fst ` set m - {?k}"
      by (simp flip: dom_map_of_conv_image_fst add: delete_conv') 
    have "signature_entries kh (map_of ?m) (Suc i) vs = signature_entries kh (map_of m) (Suc i) vs"
      using fresh by (intro signature_entries_cong) (force simp: delete_conv image_iff)
    with "2.IH"(2) [OF Some] "2.prems" Some fst' show ?thesis by auto
  qed
qed

lemma signature_entries_keys:
  "set (map fst (signature_entries kh m i vs)) \<subseteq> word_of_nat ` {i..<i + length vs}"
  by (induction vs arbitrary: i) (force split: option.splits)+

lemma signature_entries_sorted:
  "i + length vs \<le> 2 ^ 16 \<Longrightarrow> sorted_wrt (<) (map fst (signature_entries kh m i vs))"
proof (induction vs arbitrary: i)
  case Nil
  then show ?case by simp
next
  case (Cons v vs)
  have "(word_of_nat i :: u16) < k" if "k \<in> set (map fst (signature_entries kh m (Suc i) vs))" for k
  proof -
    from that signature_entries_keys [of kh m "Suc i" vs] obtain j
      where "k = word_of_nat j" "i < j" "j < Suc i + length vs" by force
    with Cons.prems show ?thesis by (simp add: of_nat_word_less_iff take_bit_nat_eq_self)
  qed
  with Cons show ?case by (auto split: option.splits)
qed

lemma prepare_signatures_distinct:
  assumes "distinct (map (kh \<circ> public_key) (validators vset))"
    and "distinct (map node_id_short ss)"
  shows "prepare_signatures B kh (map Inr ss) vset =
    (if node_id_short ` set ss \<subseteq> (kh \<circ> public_key) ` set (validators vset)
     then bindR (dict_of_sigs B (signature_entries kh (signature_map ss) 0 (validators vset))) (ok_or EmptyProof)
     else Inl InvalidData)"
proof -
  obtain m where m: "insert_signatures (map Inr ss) [] = Inr m"
    using insert_signatures_ok [OF assms(2), of "[]"] by auto
  from insert_signatures_spec [OF m] have "map_of m = signature_map ss"
    by (auto simp: signature_map_distinct)
  moreover from this have "fst ` set m = node_id_short ` set ss"
    by (metis dom_map_of_conv_image_fst dom_signature_map)
  moreover obtain rest where "prepare_loop kh 0 (validators vset) m [] =
      (rest, signature_entries kh (map_of m) 0 (validators vset))"
    "fst ` set rest = fst ` set m - (kh \<circ> public_key) ` set (validators vset)"
    using prepare_loop_spec [OF assms(1), of 0 m "[]"] by auto
  moreover from this have "rest = [] \<longleftrightarrow> fst ` set m \<subseteq> (kh \<circ> public_key) ` set (validators vset)"
    by (metis Diff_eq_empty_iff image_is_empty set_empty)
  ultimately show ?thesis
    by (simp add: prepare_signatures_def m)
qed

lemma insert_signatures_dup:
  "\<not> distinct (map node_id_short ss) \<or> (\<exists>s\<in>set ss. map_of m (node_id_short s) \<noteq> None) \<Longrightarrow>
   distinct (map fst m) \<Longrightarrow> insert_signatures (map Inr ss) m = Inl InvalidData"
proof (induction ss arbitrary: m)
  case Nil
  then show ?case by simp
next
  case (Cons s ss)
  let ?m = "AList.update (node_id_short s) (signature s) m"
  show ?case
  proof (cases "map_of m (node_id_short s)")
    case None
    have "\<not> distinct (map node_id_short ss) \<or> (\<exists>t\<in>set ss. map_of ?m (node_id_short t) \<noteq> None)"
      using Cons.prems(1) None by (auto simp: update_conv image_iff)
    from Cons.IH [OF this] None Cons.prems(2) show ?thesis by (simp add: distinct_update)
  qed simp
qed

section \<open>Epoch data\<close>

lemma epoch_loop_eq:
  "epoch_loop i vs acc tot =
    (if unat tot + weight_sum vs < 2 ^ 64
     then Inr (acc @ map (\<lambda>(j, v). (word_of_nat j, public_key v, weight v)) (enumerate i vs),
               tot + word_of_nat (weight_sum vs))
     else Inl IntOverflow)"
proof (induction vs arbitrary: i acc tot)
  case Nil
  then show ?case using unat_less_pow [of tot] by simp
next
  case (Cons v vs)
  show ?case
  proof (cases "checked_add tot (weight v)")
    case None
    then have "2 ^ 64 \<le> unat tot + unat (weight v)" by (simp add: checked_simps)
    with None show ?thesis by simp
  next
    case (Some t)
    then have "t = tot + weight v" by (auto simp: checked_add_def split: if_splits)
    with Some Cons.IH [of "Suc i" "acc @ [(word_of_nat i, public_key v, weight v)]" t]
      checked_add_SomeD [OF Some]
    show ?thesis by (simp add: add.assoc)
  qed
qed

lemma unat_cutoff_weight: "unat (cutoff_weight tot) = 2 * unat tot div 3 + 1"
proof -
  have lt: "unat tot < 2 ^ 64" using unat_less_pow [of tot] by simp
  have tw: "unat (ucast tot * 2 :: u128) = 2 * unat tot"
    using lt by (simp add: unat_word_ariths unsigned_ucast_eq take_bit_nat_eq_self)
  have "unat (ucast tot * 2 div 3 :: u128) = 2 * unat tot div 3"
    by (simp add: unat_div tw)
  with lt show ?thesis by (simp add: cutoff_weight_def unat_word_ariths)
qed

lemma cutoff_weight_le_iff: "unat (cutoff_weight tot) \<le> w \<longleftrightarrow> 2 * unat tot < 3 * w"
  unfolding unat_cutoff_weight by arith

lemma cutoff_weight_of_nat:
  assumes "w < 2 ^ 64"
  shows "cutoff_weight (word_of_nat w) = word_of_nat (2 * w div 3 + 1)"
proof -
  have "unat (word_of_nat w :: u64) = w" using assms by (simp add: unat_of_nat take_bit_nat_eq_self)
  then have "unat (cutoff_weight (word_of_nat w)) = 2 * w div 3 + 1" by (simp only: unat_cutoff_weight)
  then have "word_of_nat (unat (cutoff_weight (word_of_nat w))) = (word_of_nat (2 * w div 3 + 1) :: u128)"
    by (simp only:)
  then show ?thesis by simp
qed

end
