(* ===== verification/Proof_Chain.thy ===== *)
theory Proof_Chain
  imports Cell_Api
begin

text \<open>
  \<open>make_proof_chain\<close> of \<open>util/src/block/mod.rs\<close>: the cell that carries a masterchain proof,
  its signatures and the chain of shard block proofs. Shard blocks after the first are packed
  three to a cell, each cell holding the next one as its fourth reference. The iterator the
  code walks backwards is modelled as the list of items it has left, with the double-ended
  \<open>Take\<close> adapter as the standard library implements it: \<open>next_back\<close> on \<open>take(n)\<close> first
  drops from the inner iterator everything behind its first \<open>n\<close> items.
\<close>

section \<open>The iterator\<close>

definition nth_back :: "nat \<Rightarrow> 'a list \<Rightarrow> 'a option \<times> 'a list" where
  "nth_back m it =
     (let it1 = take (length it - m) it in
      if it1 = [] then (None, []) else (Some (last it1), butlast it1))"

text \<open>The items of \<open>it.by_ref().take(n).rev()\<close>, and what \<open>it\<close> has left afterwards.\<close>

fun take_rev :: "nat \<Rightarrow> 'a list \<Rightarrow> 'a list \<times> 'a list" where
  "take_rev 0 it = ([], it)"
| "take_rev (Suc n) it =
     (case nth_back (length it - Suc n) it of
        (None, it1) \<Rightarrow> ([], it1)
      | (Some x, it1) \<Rightarrow> (case take_rev n it1 of (xs, it2) \<Rightarrow> (x # xs, it2)))"

section \<open>Packing\<close>

fun store_references :: "('c, 'b) builder_lib \<Rightarrow> 'c list \<Rightarrow> 'b \<Rightarrow> error + 'b" where
  "store_references B [] b = Inr b"
| "store_references B (c # cs) b = bindR (store_reference B c b) (store_references B cs)"

definition store_child :: "('c, 'b) builder_lib \<Rightarrow> 'c option \<Rightarrow> 'b \<Rightarrow> error + 'b" where
  "store_child B child b = (case child of None \<Rightarrow> Inr b | Some c \<Rightarrow> store_reference B c b)"

text \<open>The rounds \<open>for _ in 0..(remaining / 3)\<close>; \<open>unwrap\<close> of a missing item panics.\<close>

fun pack_rounds :: "('c, 'b) builder_lib \<Rightarrow> nat \<Rightarrow> 'c list \<Rightarrow> 'c option \<Rightarrow> error + 'c option" where
  "pack_rounds B 0 it child = Inr child"
| "pack_rounds B (Suc n) (sc1 # sc2 # sc3 # it) child =
     bindR (store_reference B sc3 (b_new B)) (\<lambda>b.
     bindR (store_reference B sc2 b) (\<lambda>b.
     bindR (store_reference B sc1 b) (\<lambda>b.
     bindR (store_child B child b) (\<lambda>b.
     bindR (build B b) (\<lambda>c.
     pack_rounds B n it (Some c))))))"
| "pack_rounds B (Suc n) it child = Inl Panic"

definition pack_first :: "('c, 'b) builder_lib \<Rightarrow> 'c list \<Rightarrow> error + 'c option \<times> 'c list" where
  "pack_first B it =
     (let remaining = length it in
      if remaining mod 3 \<noteq> 0 then
        (case take_rev (remaining mod 3) it of (cells, it1) \<Rightarrow>
           bindR (store_references B cells (b_new B)) (\<lambda>b.
           bindR (build B b) (\<lambda>c. Inr (Some c, it1))))
      else Inr (None, it))"

definition make_proof_chain ::
  "('c, 'b) builder_lib \<Rightarrow> hash_bytes \<Rightarrow> 'c \<Rightarrow> 'c list \<Rightarrow> u32 \<Rightarrow> 'c \<Rightarrow> error + 'c" where
  "make_proof_chain B mc_file_hash mc_block shard_blocks vset_utime_since signatures =
     bindR (store_u256 B mc_file_hash (b_new B)) (\<lambda>b.
     bindR (store_u32 B vset_utime_since b) (\<lambda>b.
     bindR (store_reference B mc_block b) (\<lambda>b.
     bindR (store_reference B signatures b) (\<lambda>b.
     bindR (case shard_blocks of
         [] \<Rightarrow> Inr b
       | sc_block # rest \<Rightarrow>
           bindR (store_reference B sc_block b) (\<lambda>b.
           bindR (pack_first B (rev rest)) (\<lambda>(child, it).
           bindR (pack_rounds B (length rest div 3) it child) (\<lambda>child.
           store_child B child b)))) (\<lambda>b.
     bindR (build B b) (\<lambda>cell.
     build_merkle_proof B (cell_hash0 B cell) (cell_depth0 B cell) cell))))))"

section \<open>The layout a reader unpacks\<close>

text \<open>\<open>unpacks crefs cs c\<close>: reading the cell \<open>c\<close> three blocks at a time yields \<open>cs\<close>.\<close>

fun unpacks :: "('c \<Rightarrow> 'c list) \<Rightarrow> 'c list \<Rightarrow> 'c \<Rightarrow> bool" where
  "unpacks crefs (a # b # d # e # rest) c =
     (case crefs c of
        [a1, b1, d1, child] \<Rightarrow> a1 = a \<and> b1 = b \<and> d1 = d \<and> unpacks crefs (e # rest) child
      | _ \<Rightarrow> False)"
| "unpacks crefs cs c = (cs \<noteq> [] \<and> crefs c = cs)"

definition chain_layout :: "('c \<Rightarrow> 'c list) \<Rightarrow> 'c \<Rightarrow> 'c list \<Rightarrow> 'c \<Rightarrow> 'c \<Rightarrow> bool" where
  "chain_layout crefs mc shard_blocks signatures root =
     (case shard_blocks of
        s # t # rest \<Rightarrow>
          (case crefs root of
             [mc1, sigs1, s1, child] \<Rightarrow> mc1 = mc \<and> sigs1 = signatures \<and> s1 = s \<and>
               unpacks crefs (t # rest) child
           | _ \<Rightarrow> False)
      | _ \<Rightarrow> crefs root = [mc, signatures] @ shard_blocks)"


lemma nth_back_take:
  assumes "n < length it"
  shows "nth_back (length it - Suc n) it = (Some (it ! n), take n it)"
proof -
  from assms have len: "length it - (length it - Suc n) = Suc n" by simp
  from assms have "take (Suc n) it = take n it @ [it ! n]" by (simp add: take_Suc_conv_app_nth)
  then show ?thesis by (simp add: nth_back_def Let_def len)
qed

lemma take_rev_exhausts:
  "n \<le> length it \<Longrightarrow> 0 < n \<Longrightarrow> take_rev n it = (rev (take n it), [])"
proof (induction n arbitrary: it)
  case 0
  then show ?case by simp
next
  case (Suc n)
  from Suc.prems have "nth_back (length it - Suc n) it = (Some (it ! n), take n it)"
    by (simp add: nth_back_take)
  moreover have "take_rev n (take n it) = (rev (take n it), [])"
    using Suc.IH [of "take n it"] Suc.prems by (cases "n = 0") simp_all
  ultimately show ?case using Suc.prems by (simp add: take_Suc_conv_app_nth)
qed

lemma unpacks_short:
  "0 < length cs \<Longrightarrow> length cs \<le> 3 \<Longrightarrow> unpacks crefs cs c \<longleftrightarrow> crefs c = cs"
  by (cases "(crefs, cs, c)" rule: unpacks.cases) auto

section \<open>Packing succeeds\<close>

lemma store_reference_ok:
  assumes "builder_laws B brefs bbits crefs cdepth max_depth" and "length (brefs b) < 4"
  obtains b1 where "store_reference B c b = Inr b1" "brefs b1 = brefs b @ [c]" "bbits b1 = bbits b"
  using builder_lawsD(5) [OF assms(1), rule_format, of b c] assms(2) by blast

lemma store_u32_ok:
  assumes "builder_laws B brefs bbits crefs cdepth max_depth" and "bbits b + 32 \<le> 1023"
  obtains b1 where "store_u32 B w b = Inr b1" "brefs b1 = brefs b" "bbits b1 = bbits b + 32"
  using builder_lawsD(3) [OF assms(1), rule_format, of w] assms(2) unfolding stores_bits_def by blast

lemma store_u256_ok:
  assumes "builder_laws B brefs bbits crefs cdepth max_depth" and "bbits b + 256 \<le> 1023"
  obtains b1 where "store_u256 B h b = Inr b1" "brefs b1 = brefs b" "bbits b1 = bbits b + 256"
  using builder_lawsD(4) [OF assms(1), rule_format, of h] assms(2) unfolding stores_bits_def by blast

lemma build_ok:
  assumes laws: "builder_laws B brefs bbits crefs cdepth max_depth"
    and deep: "\<And>r. r \<in> set (brefs b) \<Longrightarrow> cdepth r \<le> d" and "d < max_depth"
  obtains c where "build B b = Inr c" "crefs c = brefs b" "cdepth c \<le> Suc d"
proof -
  have "\<forall>r\<in>set (brefs b). cdepth r < max_depth" using deep assms(3) by fastforce
  moreover have "\<forall>r\<in>set (brefs b). cdepth r < Suc d" using deep by (auto simp: less_Suc_eq_le)
  ultimately show ?thesis using builder_lawsD(6) [OF laws, rule_format, of b] that by blast
qed

lemma store_references_ok:
  assumes laws: "builder_laws B brefs bbits crefs cdepth max_depth"
  shows "length (brefs b) + length cs \<le> 4 \<Longrightarrow>
    \<exists>b1. store_references B cs b = Inr b1 \<and> brefs b1 = brefs b @ cs"
proof (induction cs arbitrary: b)
  case Nil
  then show ?case by simp
next
  case (Cons c cs)
  then have "length (brefs b) < 4" by simp
  then obtain b1 where b1: "store_reference B c b = Inr b1" "brefs b1 = brefs b @ [c]"
    by (rule store_reference_ok [OF laws])
  with Cons.prems Cons.IH [of b1] show ?case by auto
qed

lemma store_child_ok:
  assumes laws: "builder_laws B brefs bbits crefs cdepth max_depth" and "length (brefs b) < 4"
  obtains b1 where "store_child B child b = Inr b1"
    "brefs b1 = brefs b @ (case child of None \<Rightarrow> [] | Some c \<Rightarrow> [c])"
proof (cases child)
  case None
  with that show ?thesis by (simp add: store_child_def)
next
  case (Some c)
  obtain b1 where "store_reference B c b = Inr b1" "brefs b1 = brefs b @ [c]"
    by (rule store_reference_ok [OF laws assms(2)])
  with Some that show ?thesis by (simp add: store_child_def)
qed

lemma pack_round_ok:
  assumes laws: "builder_laws B brefs bbits crefs cdepth max_depth"
    and deep: "\<And>r. r \<in> set ([sc3, sc2, sc1] @ (case child of None \<Rightarrow> [] | Some c \<Rightarrow> [c])) \<Longrightarrow> cdepth r \<le> d"
    and "d < max_depth"
  obtains c where
    "pack_rounds B (Suc n) (sc1 # sc2 # sc3 # it) child = pack_rounds B n it (Some c)"
    "crefs c = [sc3, sc2, sc1] @ (case child of None \<Rightarrow> [] | Some c \<Rightarrow> [c])" "cdepth c \<le> Suc d"
proof -
  obtain b1 where b1: "store_reference B sc3 (b_new B) = Inr b1" "brefs b1 = [sc3]"
    using store_reference_ok [OF laws, of "b_new B" sc3] builder_lawsD(1) [OF laws] by auto
  obtain b2 where b2: "store_reference B sc2 b1 = Inr b2" "brefs b2 = [sc3, sc2]"
    using store_reference_ok [OF laws, of b1 sc2] b1 by auto
  obtain b3 where b3: "store_reference B sc1 b2 = Inr b3" "brefs b3 = [sc3, sc2, sc1]"
    using store_reference_ok [OF laws, of b2 sc1] b2 by auto
  obtain b4 where b4: "store_child B child b3 = Inr b4"
    "brefs b4 = [sc3, sc2, sc1] @ (case child of None \<Rightarrow> [] | Some c \<Rightarrow> [c])"
    using store_child_ok [OF laws, of b3 child] b3 by auto
  obtain c where "build B b4 = Inr c" "crefs c = brefs b4" "cdepth c \<le> Suc d"
    using build_ok [OF laws, of b4 d] deep assms(3) b4(2) by metis
  with that b1 b2 b3 b4 show ?thesis by simp
qed

text \<open>Rounds over the reversed list \<open>xs\<close>, in front of a child that already holds \<open>ys\<close>.\<close>

lemma split_last3:
  assumes "length xs = 3 * Suc n"
  obtains zs a b c where "xs = zs @ [a, b, c]" and "length zs = 3 * n"
proof
  let ?m = "3 * n"
  have "drop ?m xs = [xs ! ?m, xs ! Suc ?m, xs ! Suc (Suc ?m)]"
    using assms by (simp add: Cons_nth_drop_Suc [symmetric])
  then show "xs = take ?m xs @ [xs ! ?m, xs ! Suc ?m, xs ! Suc (Suc ?m)]"
    by (metis append_take_drop_id)
  show "length (take ?m xs) = 3 * n" using assms by simp
qed

definition holds :: "('c \<Rightarrow> 'c list) \<Rightarrow> 'c list \<Rightarrow> 'c option \<Rightarrow> bool" where
  "holds crefs ys child = (case child of None \<Rightarrow> ys = [] | Some c \<Rightarrow> unpacks crefs ys c)"

lemma unpacks_round:
  assumes "crefs c = [a, b, d] @ (case child of None \<Rightarrow> [] | Some c \<Rightarrow> [c])"
    and "holds crefs ys child"
  shows "unpacks crefs (a # b # d # ys) c"
  using assms by (cases ys; cases child) (auto simp: holds_def)

lemma pack_rounds_ok:
  assumes laws: "builder_laws B brefs bbits crefs cdepth max_depth"
  shows "length xs = 3 * n \<Longrightarrow> (\<And>x. x \<in> set xs \<Longrightarrow> cdepth x \<le> d) \<Longrightarrow> holds crefs ys child \<Longrightarrow>
    (\<And>c. child = Some c \<Longrightarrow> cdepth c \<le> d) \<Longrightarrow> d + n \<le> max_depth \<Longrightarrow>
    \<exists>r. pack_rounds B n (rev xs) child = Inr r \<and> holds crefs (xs @ ys) r \<and>
      (\<forall>c. r = Some c \<longrightarrow> cdepth c \<le> d + n)"
proof (induction n arbitrary: xs ys child d)
  case 0
  then show ?case by auto
next
  case (Suc n)
  obtain zs s3 s2 s1 where xs: "xs = zs @ [s3, s2, s1]" "length zs = 3 * n"
    by (rule split_last3 [OF Suc.prems(1)])
  have deep: "cdepth r \<le> d"
    if "r \<in> set ([s3, s2, s1] @ (case child of None \<Rightarrow> [] | Some c \<Rightarrow> [c]))" for r
    using that Suc.prems(2) [of r] Suc.prems(4) xs by (auto split: option.splits)
  obtain c where c:
    "pack_rounds B (Suc n) (s1 # s2 # s3 # rev zs) child = pack_rounds B n (rev zs) (Some c)"
    "crefs c = [s3, s2, s1] @ (case child of None \<Rightarrow> [] | Some c \<Rightarrow> [c])" "cdepth c \<le> Suc d"
    by (rule pack_round_ok [OF laws deep, where it = "rev zs" and n = n]) (use Suc.prems(5) in auto)
  have "holds crefs (s3 # s2 # s1 # ys) (Some c)"
    using unpacks_round [OF c(2) Suc.prems(3)] by (simp add: holds_def)
  moreover have "cdepth x \<le> Suc d" if "x \<in> set zs" for x
    using Suc.prems(2) [of x] that xs by auto
  ultimately have "\<exists>r. pack_rounds B n (rev zs) (Some c) = Inr r \<and>
      holds crefs (zs @ s3 # s2 # s1 # ys) r \<and> (\<forall>c. r = Some c \<longrightarrow> cdepth c \<le> Suc d + n)"
    using Suc.IH [of zs "Suc d" "s3 # s2 # s1 # ys" "Some c"] xs(2) Suc.prems(5) c(3) by simp
  then show ?case using c(1) xs(1) by simp
qed

lemma pack_first_short:
  assumes laws: "builder_laws B brefs bbits crefs cdepth max_depth"
    and "0 < length it" "length it < 3" and deep: "\<And>x. x \<in> set it \<Longrightarrow> cdepth x \<le> d" and "d < max_depth"
  obtains c where "pack_first B it = Inr (Some c, [])" "crefs c = rev it" "cdepth c \<le> Suc d"
proof -
  have short: "take_rev (length it) it = (rev it, [])"
    using take_rev_exhausts [of "length it" it] assms(2) by simp
  obtain b where b: "store_references B (rev it) (b_new B) = Inr b" "brefs b = rev it"
    using store_references_ok [OF laws, of "b_new B" "rev it"] builder_lawsD(1) [OF laws] assms(3) by auto
  obtain c where "build B b = Inr c" "crefs c = brefs b" "cdepth c \<le> Suc d"
    by (rule build_ok [OF laws, of b d]) (use deep assms(5) b(2) in auto)
  with that b short assms(2,3) show ?thesis by (simp add: pack_first_def)
qed

definition packs :: "nat \<Rightarrow> bool" where
  "packs n \<longleftrightarrow> n < 3 \<or> n mod 3 = 0"

lemma pack_all_ok:
  assumes laws: "builder_laws B brefs bbits crefs cdepth max_depth"
    and "packs (length rest)" and deep: "\<And>x. x \<in> set rest \<Longrightarrow> cdepth x \<le> d"
    and room: "d + length rest < max_depth"
  obtains child it r where "pack_first B (rev rest) = Inr (child, it)"
    "pack_rounds B (length rest div 3) it child = Inr r" "holds crefs rest r"
    "\<And>c. r = Some c \<Longrightarrow> cdepth c \<le> d + length rest"
proof (cases "length rest mod 3 = 0")
  case True
  then have n: "length rest = 3 * (length rest div 3)" by auto
  have "\<exists>r. pack_rounds B (length rest div 3) (rev rest) None = Inr r \<and> holds crefs (rest @ []) r \<and>
      (\<forall>c. r = Some c \<longrightarrow> cdepth c \<le> d + length rest div 3)"
  proof (rule pack_rounds_ok [OF laws n])
    show "d + length rest div 3 \<le> max_depth"
      using room div_le_dividend [of "length rest" 3] by linarith
    show "\<And>x. x \<in> set rest \<Longrightarrow> cdepth x \<le> d" by (rule deep)
    show "holds crefs [] None" by (simp add: holds_def)
  qed simp_all
  then obtain r where r: "pack_rounds B (length rest div 3) (rev rest) None = Inr r"
    "holds crefs rest r" "\<And>c. r = Some c \<Longrightarrow> cdepth c \<le> d + length rest div 3"
    unfolding append_Nil2 by blast
  have deep_r: "cdepth c \<le> d + length rest" if "r = Some c" for c
    using r(3) [OF that] div_le_dividend [of "length rest" 3] by linarith
  have "pack_first B (rev rest) = Inr (None, rev rest)"
    using True by (simp add: pack_first_def)
  then show ?thesis using r(1,2) deep_r by (rule that)
next
  case False
  then have short: "0 < length (rev rest)" "length (rev rest) < 3"
    using assms(2) by (auto simp: packs_def intro: Nat.gr0I)
  obtain c where c: "pack_first B (rev rest) = Inr (Some c, [])" "crefs c = rev (rev rest)" "cdepth c \<le> Suc d"
    by (rule pack_first_short [OF laws short, of d]) (use deep room in auto)
  have "holds crefs rest (Some c)" using short c(2) by (simp add: holds_def unpacks_short)
  moreover have "cdepth c \<le> d + length rest" 
    using c(3) short(1) unfolding length_rev by linarith
  moreover have "length rest div 3 = 0" using short(2) by simp
  ultimately show ?thesis using that c(1) by simp
qed

lemma chain_head_ok:
  assumes laws: "builder_laws B brefs bbits crefs cdepth max_depth"
  obtains b1 b2 b3 b4 where "store_u256 B h (b_new B) = Inr b1" "store_u32 B w b1 = Inr b2"
    "store_reference B mc b2 = Inr b3" "store_reference B sigs b3 = Inr b4" "brefs b4 = [mc, sigs]"
proof -
  note new = builder_lawsD(1,2) [OF laws]
  obtain b1 where b1: "store_u256 B h (b_new B) = Inr b1" "brefs b1 = []" "bbits b1 = 256"
    by (rule store_u256_ok [OF laws, of "b_new B" h]) (use new in auto)
  obtain b2 where b2: "store_u32 B w b1 = Inr b2" "brefs b2 = []"
    by (rule store_u32_ok [OF laws, of b1 w]) (use b1 in auto)
  obtain b3 where b3: "store_reference B mc b2 = Inr b3" "brefs b3 = [mc]"
    by (rule store_reference_ok [OF laws, of b2 mc]) (use b2 in auto)
  obtain b4 where b4: "store_reference B sigs b3 = Inr b4" "brefs b4 = [mc, sigs]"
    by (rule store_reference_ok [OF laws, of b3 sigs]) (use b3 in auto)
  show ?thesis using that b1 b2 b3 b4 by blast
qed

lemma chain_tail_ok:
  assumes laws: "builder_laws B brefs bbits crefs cdepth max_depth"
    and deep: "\<And>x. x \<in> set (brefs b) \<Longrightarrow> cdepth x \<le> d" and "Suc d < max_depth"
  obtains root p where "build B b = Inr root" "crefs root = brefs b"
    "build_merkle_proof B (cell_hash0 B root) (cell_depth0 B root) root = Inr p" "crefs p = [root]"
proof -
  obtain root where root: "build B b = Inr root" "crefs root = brefs b" "cdepth root \<le> Suc d"
    by (rule build_ok [OF laws, of b d]) (use assms in auto)
  then have "cdepth root < max_depth" using assms(3) by simp
  then obtain p where "build_merkle_proof B (cell_hash0 B root) (cell_depth0 B root) root = Inr p"
    "crefs p = [root]"
    using builder_lawsD(7) [OF laws, rule_format, of root] by blast
  with that root show ?thesis by blast
qed

lemma chain_shards_ok:
  assumes laws: "builder_laws B brefs bbits crefs cdepth max_depth"
    and "brefs b = [mc, sigs]" and "packs (length rest)"
    and deep: "\<And>x. x \<in> set (s # rest) \<Longrightarrow> cdepth x \<le> d"
    and room: "d + length rest < max_depth"
  obtains b1 b2 child it r where "store_reference B s b = Inr b1"
    "pack_first B (rev rest) = Inr (child, it)" "pack_rounds B (length rest div 3) it child = Inr r"
    "store_child B r b1 = Inr b2" "brefs b2 = [mc, sigs, s] @ (case r of None \<Rightarrow> [] | Some c \<Rightarrow> [c])"
    "holds crefs rest r" "\<And>c. r = Some c \<Longrightarrow> cdepth c \<le> d + length rest"
proof -
  obtain b1 where b1: "store_reference B s b = Inr b1" "brefs b1 = [mc, sigs, s]"
    by (rule store_reference_ok [OF laws, of b s]) (use assms(2) in auto)
  obtain child it r where r: "pack_first B (rev rest) = Inr (child, it)"
    "pack_rounds B (length rest div 3) it child = Inr r" "holds crefs rest r"
    "\<And>c. r = Some c \<Longrightarrow> cdepth c \<le> d + length rest"
    by (rule pack_all_ok [OF laws assms(3) _ room]) (use deep in auto)
  obtain b2 where "store_child B r b1 = Inr b2" "brefs b2 = brefs b1 @ (case r of None \<Rightarrow> [] | Some c \<Rightarrow> [c])"
    by (rule store_child_ok [OF laws, of b1 r]) (use b1 in auto)
  with that b1 r show ?thesis by auto
qed

lemma layout_of_holds:
  assumes "holds crefs rest r" "crefs root = [mc, sigs, s] @ (case r of None \<Rightarrow> [] | Some c \<Rightarrow> [c])"
  shows "chain_layout crefs mc (s # rest) sigs root"
proof (cases r)
  case None
  with assms show ?thesis by (simp add: holds_def chain_layout_def)
next
  case (Some c)
  with assms have "rest \<noteq> []" by (auto simp: holds_def)
  with assms Some show ?thesis by (cases rest) (auto simp: holds_def chain_layout_def)
qed

lemma make_proof_chain_ok:
  assumes laws: "builder_laws B brefs bbits crefs cdepth max_depth"
    and packs: "packs (length shard_blocks - 1)"
    and deep: "\<And>x. x \<in> set (mc # sigs # shard_blocks) \<Longrightarrow> cdepth x \<le> d"
    and room: "d + length shard_blocks + 1 < max_depth"
  shows "\<exists>root p. make_proof_chain B fh mc shard_blocks since sigs = Inr p \<and> crefs p = [root] \<and>
    chain_layout crefs mc shard_blocks sigs root"
proof -
  obtain b1 b2 b3 b4 where h: "store_u256 B fh (b_new B) = Inr b1" "store_u32 B since b1 = Inr b2"
    "store_reference B mc b2 = Inr b3" "store_reference B sigs b3 = Inr b4" "brefs b4 = [mc, sigs]"
    by (rule chain_head_ok [OF laws])
  show ?thesis
  proof (cases shard_blocks)
    case Nil
    obtain root p where "build B b4 = Inr root" "crefs root = brefs b4"
      "build_merkle_proof B (cell_hash0 B root) (cell_depth0 B root) root = Inr p" "crefs p = [root]"
      by (rule chain_tail_ok [OF laws, of b4 d]) (use deep room h(5) in auto)
    with h Nil show ?thesis by (simp add: make_proof_chain_def chain_layout_def)
  next
    case (Cons s rest)
    obtain b5 b6 child it r where t: "store_reference B s b4 = Inr b5"
      "pack_first B (rev rest) = Inr (child, it)" "pack_rounds B (length rest div 3) it child = Inr r"
      "store_child B r b5 = Inr b6" "brefs b6 = [mc, sigs, s] @ (case r of None \<Rightarrow> [] | Some c \<Rightarrow> [c])"
      "holds crefs rest r" "\<And>c. r = Some c \<Longrightarrow> cdepth c \<le> d + length rest"
      by (rule chain_shards_ok [OF laws h(5), of rest s d]) (use packs deep room Cons in auto)
    have deep6: "cdepth x \<le> d + length rest" if "x \<in> set (brefs b6)" for x
    proof -
      from that t(5,7) deep Cons show ?thesis by (auto split: option.splits intro: trans_le_add1)
    qed
    obtain root p where "build B b6 = Inr root" "crefs root = brefs b6"
      "build_merkle_proof B (cell_hash0 B root) (cell_depth0 B root) root = Inr p" "crefs p = [root]"
      by (rule chain_tail_ok [OF laws, of b6 "d + length rest"]) (use deep6 room Cons in auto)
    with h t Cons show ?thesis by (auto simp: make_proof_chain_def intro: layout_of_holds)
  qed
qed

section \<open>More than three blocks in a partial cell\<close>

lemma pack_rounds_out_of_items:
  "pack_rounds B (Suc n) [] child = Inl Panic"
  by simp

lemma make_proof_chain_panics:
  assumes laws: "builder_laws B brefs bbits crefs cdepth max_depth"
    and bad: "3 < length shard_blocks - 1" "(length shard_blocks - 1) mod 3 \<noteq> 0"
    and deep: "\<And>x. x \<in> set shard_blocks \<Longrightarrow> cdepth x < max_depth"
  shows "make_proof_chain B fh mc shard_blocks since sigs = Inl Panic"
proof -
  from bad(1) obtain s rest where sb: "shard_blocks = s # rest" by (cases shard_blocks) auto
  let ?n = "length rest mod 3" and ?it = "rev rest"
  have n: "0 < ?n" "?n < 3" "?n \<le> length ?it" using bad sb by auto
  have rounds: "\<exists>m. length rest div 3 = Suc m" 
    using bad(1) sb by (cases "length rest div 3") auto
  obtain b1 b2 b3 b4 where h: "store_u256 B fh (b_new B) = Inr b1" "store_u32 B since b1 = Inr b2"
    "store_reference B mc b2 = Inr b3" "store_reference B sigs b3 = Inr b4" "brefs b4 = [mc, sigs]"
    by (rule chain_head_ok [OF laws])
  obtain b5 where b5: "store_reference B s b4 = Inr b5"
    by (rule store_reference_ok [OF laws, of b4 s]) (use h in auto)
  let ?cs = "rev (take ?n ?it)"
  obtain b where b: "store_references B ?cs (b_new B) = Inr b" "brefs b = ?cs"
    using store_references_ok [OF laws, of "b_new B" ?cs] builder_lawsD(1) [OF laws] n(2,3) by auto
  have "\<forall>r\<in>set (brefs b). cdepth r < max_depth"
    using deep sb by (auto simp: b(2) dest!: in_set_takeD)
  then obtain c where "build B b = Inr c"
    using builder_lawsD(6) [OF laws, rule_format, of b] by blast
  with b have "pack_first B ?it = Inr (Some c, [])"
    using take_rev_exhausts [OF n(3,1)] n(1) by (simp add: pack_first_def)
  with h b5 rounds sb show ?thesis by (auto simp: make_proof_chain_def)
qed

end
