(* ===== verification/Demo_Cells.thy ===== *)
theory Demo_Cells
  imports Block_Proofs Ton_Models Tycho_Models
begin

text \<open>
  A small concrete cell library: a cell is a list of numbers (one per field) and a list of
  references, and the usage tree is the list of cells opened so far. It instantiates the
  records \<open>cell_lib\<close> and \<open>builder_lib\<close>, so that theorems about the proof builders can be
  applied to concrete blocks. It models no code of the repository.
\<close>

datatype dcell = DC (toks: "int list") (refs: "dcell list")

type_synonym dslice = "int list \<times> dcell list"

definition d_open :: "dcell \<Rightarrow> (dcell list, dslice) io" where
  "d_open c u = (Inr (toks c, refs c), u @ [c])"

fun d_tok :: "(int \<Rightarrow> 'a) \<Rightarrow> (dslice, dcell list, 'a) rd" where
  "d_tok f ((t # ts, rs), u) = (Inr (f t), ((ts, rs), u))"
| "d_tok f (([], rs), u) = (Inl CellUnderflow, (([], rs), u))"

fun d_ref :: "(dslice, dcell list, dcell) rd" where
  "d_ref ((ts, r # rs), u) = (Inr r, ((ts, rs), u))"
| "d_ref ((ts, []), u) = (Inl CellUnderflow, ((ts, []), u))"

definition d_opt :: "(dslice, dcell list, dcell option) rd" where
  "d_opt = bnd (d_tok (\<lambda>t. t \<noteq> 0)) (\<lambda>b. load_if b d_ref)"

definition d_shard :: "(dslice, dcell list, shard_ident) rd" where
  "d_shard = bnd (d_tok of_int) (\<lambda>w. bnd (d_tok of_int) (\<lambda>p. ret \<lparr>workchain = w, prefix = p\<rparr>))"

definition d_block_id :: "(dslice, dcell list, block_id) rd" where
  "d_block_id =
     bnd d_shard (\<lambda>sh. bnd (d_tok of_int) (\<lambda>n. bnd (d_tok of_int) (\<lambda>r. bnd (d_tok of_int) (\<lambda>f.
     ret \<lparr>shard = sh, seqno = n, root_hash = r, file_hash = f\<rparr>))))"

definition d_only_last :: "nat \<Rightarrow> nat \<Rightarrow> (dslice, dcell list, unit) rd" where
  "d_only_last bits n s =
     (case s of ((ts, rs), u) \<Rightarrow> (Inr (), ((drop (length ts - 1) ts, drop (length rs - n) rs), u)))"

definition d_skip_first :: "nat \<Rightarrow> nat \<Rightarrow> (dslice, dcell list, unit) rd" where
  "d_skip_first bits n s =
     (case s of ((ts, rs), u) \<Rightarrow> (Inr (), ((if bits = 0 then ts else tl ts, drop n rs), u)))"

definition d_ref_slice :: "(dslice, dcell list, dslice) rd" where
  "d_ref_slice = bnd d_ref (\<lambda>c (s, u). (Inr (toks c, refs c), (s, u @ [c])))"

definition d_get_ref :: "nat \<Rightarrow> (dslice, dcell list, dcell) rd" where
  "d_get_ref n s =
     (case s of ((ts, rs), u) \<Rightarrow>
        (if n < length rs then Inr (rs ! n) else Inl CellUnderflow, s))"

fun d_index :: "('x \<Rightarrow> bool) \<Rightarrow> 'x list \<Rightarrow> 'y list \<Rightarrow> 'y option" where
  "d_index p (x # xs) (y # ys) = (if p x then Some y else d_index p xs ys)"
| "d_index p xs ys = None"

fun d_find_account :: "hash_bytes \<Rightarrow> dcell list \<Rightarrow> dslice option" where
  "d_find_account a [] = None"
| "d_find_account a (DC (t # k # ts) rs # cs) =
     (if of_int k = a then Some (t # k # ts, rs) else d_find_account a cs)"
| "d_find_account a (c # cs) = d_find_account a cs"

text \<open>The leaves of a shard tree, each under the prefix its path spells.\<close>

fun d_leaves :: "int \<Rightarrow> int \<Rightarrow> int \<Rightarrow> dcell \<Rightarrow> (error + block_id) list" where
  "d_leaves w p h (DC ts [l, r]) = d_leaves w (p - h) (h div 2) l @ d_leaves w (p + h) (h div 2) r"
| "d_leaves w p h (DC [f, tag, n] []) =
     [Inr \<lparr>shard = \<lparr>workchain = of_int w, prefix = of_int p\<rparr>, seqno = of_int n, root_hash = 0, file_hash = 0\<rparr>]"
| "d_leaves w p h c = [Inl InvalidData]"

definition d_latest :: "dcell \<Rightarrow> dcell list \<Rightarrow> (error + block_id) list \<times> dcell list" where
  "d_latest h u =
     (concat (map (\<lambda>(w, r). d_leaves w 0x8000000000000000 0x4000000000000000 r) (zip (toks h) (refs h))), u)"

definition demo_lib :: "(dcell, dslice, dcell list, dcell, (int \<times> dcell) list) cell_lib" where
  "demo_lib =
     \<lparr>as_slice = d_open,
      load_bit = d_tok (\<lambda>t. t \<noteq> 0), load_u8 = d_tok of_int, load_u16 = d_tok of_int,
      load_u32 = d_tok of_int, load_u64 = d_tok of_int, load_u256 = d_tok of_int,
      load_small_uint = (\<lambda>_. d_tok of_int),
      load_reference = d_ref, load_option_cell = d_opt, load_reference_as_slice = d_ref_slice,
      get_reference = d_get_ref, skip_first = d_skip_first, only_last = d_only_last,
      load_block_id = d_block_id, load_shard_ident = d_shard,
      load_global_version = d_tok (\<lambda>_. ()), load_shard_hashes = d_ref,
      load_config = bnd d_ref (\<lambda>c. ret (zip (toks c) (refs c))),
      load_validator_info = bnd (d_tok of_int) (\<lambda>a. bnd (d_tok of_int) (\<lambda>b. ret (a, b))),
      load_consensus_info = d_tok (\<lambda>_. ()),
      load_dict = d_opt, load_aug_dict = d_opt, load_aug_dict_root = d_opt,
      lazy_from_raw = Inr,
      sh_latest_blocks = d_latest,
      sh_raw_iter = (\<lambda>h u. (map (\<lambda>_. Inr ()) (refs h), u)),
      sh_workchain_root = (\<lambda>h w u. (Inr (d_index (\<lambda>t. of_int t = w) (toks h) (refs h)), u)),
      account_values = (\<lambda>r u. case r of None \<Rightarrow> ([], u)
        | Some c \<Rightarrow> (map (\<lambda>a. Inr (toks a, refs a)) (refs c), u @ [c])),
      account_get = (\<lambda>r a u. (Inr (case r of None \<Rightarrow> None | Some c \<Rightarrow> d_find_account a (refs c)), u)),
      tx_iter = (\<lambda>r u. (case r of None \<Rightarrow> [] | Some c \<Rightarrow> map (\<lambda>t. Inr (of_int t)) (toks c), u)),
      tx_get = (\<lambda>r lt u. (Inr (case r of None \<Rightarrow> None
        | Some c \<Rightarrow> if lt \<in> set (map of_int (toks c)) then Some c else None), u)),
      config_cell = (\<lambda>g n u. (Inr (map_of g (int n)), u)),
      usage_new = [],
      track = (\<lambda>c. c),
      touch = (\<lambda>c u. u @ [c]),
      touch_recursive = (\<lambda>c u. u @ [c]),
      build_merkle = (\<lambda>c u. Inr c),
      hash0 = (\<lambda>c. of_int (sum_list (toks c)))\<rparr>"

section \<open>A masterchain block of a TON network\<close>

definition demo_shard_leaf :: "int \<Rightarrow> dcell" where
  "demo_shard_leaf n = DC [0, 0xb, n] []"

text \<open>Workchain 0 is split in two; the left shard is at block 7, the right one at 9.\<close>

definition demo_shards :: dcell where
  "demo_shards = DC [0] [DC [1] [demo_shard_leaf 7, demo_shard_leaf 9]]"

definition demo_config :: dcell where
  "demo_config = DC [32, 34] [DC [1] [], DC [2] []]"

definition demo_mc_extra :: dcell where
  "demo_mc_extra = DC [0xcca5, 1] [demo_shards, demo_config]"

text \<open>Account 5 has the transactions 11 and 12, account 6 has 21.\<close>

definition demo_accounts :: dcell where
  "demo_accounts =
     DC [1] [DC [] [DC [5, 5, 1] [DC [11, 12] []], DC [5, 6, 1] [DC [21] []]]]"

definition demo_extra :: "bool \<Rightarrow> dcell" where
  "demo_extra mc =
     DC [0x4a33f6fd, 100, 200, if mc then 1 else 0]
        ([DC [] [], DC [] [], demo_accounts] @ (if mc then [demo_mc_extra] else []))"

definition demo_info :: dcell where
  "demo_info =
     DC [0x9bc7a987, 0, 0, 1, 0, 0xffffffff, 0x8000000000000000, 1000, 10, 30, 0, 0, 0, 0] [DC [77] []]"

definition demo_block :: "bool \<Rightarrow> dcell" where
  "demo_block mc = DC [0x11ef55aa, 0] [demo_info, DC [] [], DC [] [], demo_extra mc]"

lemmas demo_simps = demo_block_def demo_info_def demo_extra_def demo_accounts_def demo_mc_extra_def
  demo_config_def demo_shards_def demo_shard_leaf_def

definition demo_ton :: "(dcell ton_block, dcell ton_block_info, dcell ton_block_extra,
    (dcell, (int \<times> dcell) list) ton_mc_extra, dcell, dslice, dcell list, (int \<times> dcell) list) models" where
  "demo_ton = ton_models demo_lib"

definition demo_tycho_info :: dcell where
  "demo_tycho_info =
     DC [0x9bc7a988, 0, 0, 1, 0, 0xffffffff, 0x8000000000000000, 1000, 500, 10, 30, 0, 0, 0, 0] [DC [77] []]"

definition demo_tycho_extra :: "bool \<Rightarrow> dcell" where
  "demo_tycho_extra mc =
     DC [0x4a33f6fc, 100, 200, if mc then 1 else 0]
        ([DC [] [], DC [] [], demo_accounts] @ (if mc then [demo_mc_extra] else []))"

definition demo_tycho_block :: "bool \<Rightarrow> dcell" where
  "demo_tycho_block mc = DC [0x11ef55bb, 0] [demo_tycho_info, DC [] [], DC [] [], demo_tycho_extra mc]"

lemma demo_tycho_open:
  obtains b u1 where
    "open_block demo_lib (tycho_models demo_lib) (demo_tycho_block mc) (usage_new demo_lib) = (Inr b, u1)"
    "tycho_info b = demo_tycho_info" "tycho_extra b = demo_tycho_extra mc"
  by (simp add: open_block_def parse_def demo_lib_def d_open_def tycho_models_def tycho_load_block_def
      demo_tycho_block_def bnd_def guard_def rs_apply)

lemma demo_tycho_info_open:
  assumes "tycho_info b = demo_tycho_info"
  obtains i u2 where "tycho_block_load_info demo_lib b u1 = (Inr i, u2)"
  by (simp add: tycho_block_load_info_def parse_def demo_lib_def d_open_def assms demo_tycho_info_def
      tycho_load_info_def tycho_load_info_body_def TYCHO_INFO_TAG_def d_shard_def bnd_def guard_def
      load_if_def ignore_def rs_apply Let_def)

lemma demo_tycho_extra_open:
  assumes "tycho_extra b = demo_tycho_extra False"
  obtains e u3 where "tycho_block_load_extra demo_lib b u2 = (Inr e, u3)" "tycho_custom e = None"
  by (simp add: tycho_block_load_extra_def parse_def demo_lib_def d_open_def assms demo_tycho_extra_def
      tycho_load_extra_def d_opt_def bnd_def guard_def load_if_def rs_apply)

section \<open>A concrete builder\<close>

type_synonym dbuilder = "int list \<times> dcell list \<times> nat"

fun dcell_depth :: "dcell \<Rightarrow> nat" where
  "dcell_depth (DC ts rs) = foldr (\<lambda>r d. max (Suc (dcell_depth r)) d) rs 0"

definition d_store :: "nat \<Rightarrow> int \<Rightarrow> dbuilder \<Rightarrow> error + dbuilder" where
  "d_store n t b = (case b of (ts, rs, bits) \<Rightarrow>
     if bits + n \<le> 1023 then Inr (ts @ [t], rs, bits + n) else Inl CellOverflow)"

definition d_store_ref :: "dcell \<Rightarrow> dbuilder \<Rightarrow> error + dbuilder" where
  "d_store_ref c b = (case b of (ts, rs, bits) \<Rightarrow>
     if length rs < 4 then Inr (ts, rs @ [c], bits) else Inl CellOverflow)"

definition d_build :: "dbuilder \<Rightarrow> error + dcell" where
  "d_build b = (case b of (ts, rs, bits) \<Rightarrow>
     if \<forall>r\<in>set rs. dcell_depth r < 1024 then Inr (DC ts rs) else Inl CellOverflow)"

definition demo_builder :: "(dcell, dbuilder) builder_lib" where
  "demo_builder =
     \<lparr>b_new = ([], [], 0),
      store_u16 = (\<lambda>w. d_store 16 (uint w)), store_u32 = (\<lambda>w. d_store 32 (uint w)),
      store_u64 = (\<lambda>w. d_store 64 (uint w)), store_u256 = (\<lambda>w. d_store 256 (uint w)),
      store_tokens = (\<lambda>w. d_store 124 (uint w)),
      store_reference = d_store_ref, build = d_build,
      build_merkle_proof = (\<lambda>h d c. Inr (DC [uint h, uint d] [c])),
      cell_hash0 = (\<lambda>c. of_int (sum_list (toks c))),
      cell_depth0 = (\<lambda>c. of_nat (dcell_depth c)),
      dict_of_sigs = (\<lambda>xs. Inr (if xs = [] then None
        else Some (DC (concat (map (\<lambda>(k, s). [uint k, uint s]) xs)) []))),
      dict_of_weights = (\<lambda>xs. Inr (if xs = [] then None
        else Some (DC (concat (map (\<lambda>(k, h, w). [uint k, uint h, uint w]) xs)) [])))\<rparr>"

definition d_brefs :: "dbuilder \<Rightarrow> dcell list" where
  "d_brefs b = fst (snd b)"

definition d_bbits :: "dbuilder \<Rightarrow> nat" where
  "d_bbits b = snd (snd b)"

lemma dcell_depth_le: "(\<forall>r\<in>set rs. dcell_depth r < k) \<Longrightarrow> dcell_depth (DC ts rs) \<le> k"
  by (induction rs) auto

lemma demo_builder_laws: "builder_laws demo_builder d_brefs d_bbits refs dcell_depth 1024"
  unfolding builder_laws_def stores_bits_def
  by (auto simp: demo_builder_def d_brefs_def d_bbits_def d_store_def d_store_ref_def d_build_def
      dcell_depth_le simp del: dcell_depth.simps)

end
