(* ===== verification/Block_Properties.thy ===== *)
theory Block_Properties
  imports Legacy_Models Signatures Proof_Chain Demo_Cells
begin

text \<open>
  The properties of the block utilities (\<open>util/src/block\<close>), each followed by a witness that
  applies it to a concrete block, builder or validator set.
\<close>

section \<open>Signatures\<close>

text \<open>C1. \<open>check_signatures\<close> accepts a list of readable signatures exactly if every signing
  node is a validator of the set, every signature taken verifies, and the weight of the signers
  is more than two thirds of the total weight, with neither product overflowing 64 bits.\<close>

theorem check_signatures_accepts:
  "check_signatures kh verify data_for_sign bid (map Inr ss) vset = Inr () \<longleftrightarrow>
   (let m = signature_map ss; S = signing kh (validators vset) (dom m) in
      dom m \<subseteq> (kh \<circ> public_key) ` set (validators vset) \<and>
      (\<forall>v\<in>set S. \<exists>s. m (kh (public_key v)) = Some s \<and> verify (data_for_sign bid) (public_key v) s) \<and>
      2 * unat (total_weight vset) < 3 * weight_sum S \<and>
      3 * weight_sum S < 2 ^ 64 \<and> 2 * unat (total_weight vset) < 2 ^ 64)"
  by (rule check_signatures_map_Inr)

definition demo_vset :: validator_set where
  "demo_vset = \<lparr>utime_since = 1, utime_until = 2, main_count = 2, total_weight = 12,
     validators = [\<lparr>public_key = 1, weight = 4\<rparr>, \<lparr>public_key = 2, weight = 5\<rparr>, \<lparr>public_key = 3, weight = 3\<rparr>]\<rparr>"

definition demo_sigs :: "block_signature list" where
  "demo_sigs = [\<lparr>node_id_short = 2, signature = 20\<rparr>, \<lparr>node_id_short = 1, signature = 10\<rparr>]"

definition demo_bid :: block_id where
  "demo_bid = \<lparr>shard = MASTERCHAIN, seqno = 7, root_hash = 8, file_hash = 9\<rparr>"

definition demo_verify :: "u32 \<Rightarrow> hash_bytes \<Rightarrow> signature \<Rightarrow> bool" where
  "demo_verify d k s \<longleftrightarrow> uint s = 10 * uint k \<and> d = 7"

theorem check_signatures_accepts_witness:
  "(let m = signature_map demo_sigs; S = signing (\<lambda>k. k) (validators demo_vset) (dom m) in
      dom m \<subseteq> ((\<lambda>k. k) \<circ> public_key) ` set (validators demo_vset) \<and>
      (\<forall>v\<in>set S. \<exists>s. m (public_key v) = Some s \<and> demo_verify (seqno demo_bid) (public_key v) s) \<and>
      2 * unat (total_weight demo_vset) < 3 * weight_sum S \<and>
      3 * weight_sum S < 2 ^ 64 \<and> 2 * unat (total_weight demo_vset) < 2 ^ 64)"
proof -
  have "check_signatures (\<lambda>k. k) demo_verify seqno demo_bid (map Inr demo_sigs) demo_vset = Inr ()"
    by code_simp
  then show ?thesis
    using check_signatures_accepts [of "\<lambda>k. k" demo_verify seqno demo_bid demo_sigs demo_vset] by simp
qed

text \<open>The weight test of \<open>check_signatures\<close> and the cutoff weight that \<open>make_epoch_data\<close>
  stores for the bridge contract agree: a signature weight passes exactly if it reaches the cutoff
  of the same total and neither product overflows.\<close>

lemma cutoff_agrees:
  "enough_weight w tot = Inr () \<longleftrightarrow>
     unat (cutoff_weight tot) \<le> unat w \<and> 3 * unat w < 2 ^ 64 \<and> 2 * unat tot < 2 ^ 64"
  by (simp add: enough_weight_iff cutoff_weight_le_iff)

text \<open>\<open>make_epoch_data\<close> fails with \<open>InvalidData\<close> if the list is shorter than the number of
  main validators, with \<open>IntOverflow\<close> if their weights add up to 64 bits or more; otherwise it
  builds its cell from exactly the main validators in order and the cutoff of their exact sum.\<close>

lemma make_epoch_data_spec:
  "make_epoch_data B vset =
    (let main = take (unat (main_count vset)) (validators vset) in
     if length (validators vset) < unat (main_count vset) then Inl InvalidData
     else if 2 ^ 64 \<le> weight_sum main then Inl IntOverflow
     else bindR (dict_of_weights B (map (\<lambda>(i, v). (word_of_nat i, public_key v, weight v)) (enumerate 0 main))) (\<lambda>d.
          bindR (ok_or CellUnderflow d) (\<lambda>root.
          bindR (store_u32 B (utime_since vset) (b_new B)) (\<lambda>b.
          bindR (store_u32 B (utime_until vset) b) (\<lambda>b.
          bindR (store_u16 B (main_count vset) b) (\<lambda>b.
          bindR (store_tokens B (word_of_nat (2 * weight_sum main div 3 + 1)) b) (\<lambda>b.
          bindR (store_reference B root b) (build B))))))))"
proof -
  let ?main = "take (unat (main_count vset)) (validators vset)"
  have "cutoff_weight (word_of_nat (weight_sum ?main)) = word_of_nat (2 * weight_sum ?main div 3 + 1)"
    if "weight_sum ?main < 2 ^ 64"
    by (rule cutoff_weight_of_nat [OF that])
  then show ?thesis
    by (auto simp: make_epoch_data_def epoch_loop_eq Let_def min_def)
qed

text \<open>\<open>prepare_signatures\<close> on the signatures of distinct nodes fails with \<open>InvalidData\<close> if one
  of them is no validator; otherwise it hands the dictionary builder one entry per signing
  validator, under its index in the set and in strictly increasing order of these indices.\<close>

lemma prepare_signatures_spec:
  assumes "distinct (map (kh \<circ> public_key) (validators vset))"
    and "distinct (map node_id_short ss)" and "length (validators vset) \<le> 2 ^ 16"
  shows "prepare_signatures B kh (map Inr ss) vset =
    (if node_id_short ` set ss \<subseteq> (kh \<circ> public_key) ` set (validators vset)
     then bindR (dict_of_sigs B (signature_entries kh (signature_map ss) 0 (validators vset))) (ok_or EmptyProof)
     else Inl InvalidData) \<and>
    sorted_wrt (<) (map fst (signature_entries kh (signature_map ss) 0 (validators vset)))"
  by (rule conjI, rule prepare_signatures_distinct [OF assms(1,2)], rule signature_entries_sorted)
     (use assms(3) in simp)

lemma prepare_signatures_spec_witness:
  "prepare_signatures demo_builder (\<lambda>k. k) (map Inr demo_sigs) demo_vset = Inr (DC [0, 10, 1, 20] [])"
proof -
  have "distinct (map ((\<lambda>k. k) \<circ> public_key) (validators demo_vset))" "distinct (map node_id_short demo_sigs)"
    "length (validators demo_vset) \<le> 2 ^ 16"
    by (simp_all add: demo_vset_def demo_sigs_def)
  from prepare_signatures_spec [OF this, of demo_builder]
  have "prepare_signatures demo_builder (\<lambda>k. k) (map Inr demo_sigs) demo_vset =
    bindR (dict_of_sigs demo_builder (signature_entries (\<lambda>k. k) (signature_map demo_sigs) 0 (validators demo_vset)))
      (ok_or EmptyProof)"
    by (simp add: demo_vset_def demo_sigs_def)
  also have "\<dots> = Inr (DC [0, 10, 1, 20] [])" by code_simp
  finally show ?thesis .
qed

section \<open>Proof chains\<close>

text \<open>C3. With at most three shard blocks behind the first, or any multiple of three, the proof chain
  is built and its root holds the masterchain proof, the signatures, the first shard block and a
  chain of cells from which the remaining blocks are read back in order, three to a cell.\<close>

theorem proof_chain_layout:
  assumes "builder_laws B brefs bbits crefs cdepth max_depth"
    and "length shard_blocks - 1 < 3 \<or> (length shard_blocks - 1) mod 3 = 0"
    and "\<And>x. x \<in> set (mc # sigs # shard_blocks) \<Longrightarrow> cdepth x \<le> d"
    and "d + length shard_blocks + 1 < max_depth"
  shows "\<exists>root p. make_proof_chain B fh mc shard_blocks since sigs = Inr p \<and> crefs p = [root] \<and>
    chain_layout crefs mc shard_blocks sigs root"
  using make_proof_chain_ok [of B brefs bbits crefs cdepth max_depth shard_blocks mc sigs d] assms
  by (simp add: packs_def)

definition demo_blocks :: "int \<Rightarrow> dcell list" where
  "demo_blocks n = map (\<lambda>i. DC [i] []) [1..n]"

theorem proof_chain_layout_witness:
  "\<exists>root p. make_proof_chain demo_builder 1 (DC [100] []) (demo_blocks 7) 5 (DC [200] []) = Inr p \<and>
    refs p = [root] \<and> chain_layout refs (DC [100] []) (demo_blocks 7) (DC [200] []) root"
proof (rule proof_chain_layout [OF demo_builder_laws])
  show "length (demo_blocks 7) - 1 < 3 \<or> (length (demo_blocks 7) - 1) mod 3 = 0"
    by (simp add: demo_blocks_def)
  show "dcell_depth x \<le> 0" if "x \<in> set (DC [100] [] # DC [200] [] # demo_blocks 7)" for x
    using that by (auto simp: demo_blocks_def)
  show "0 + length (demo_blocks 7) + 1 < 1024" by (simp add: demo_blocks_def)
qed

text \<open>C4. With more than three shard blocks behind the first and a number of them that three does
  not divide, \<open>make_proof_chain\<close> panics: the adapter that takes the odd blocks walks the reversed
  iterator from its far end and leaves nothing for the full cells.\<close>

theorem proof_chain_panics:
  assumes "builder_laws B brefs bbits crefs cdepth max_depth"
    and "3 < length shard_blocks - 1" and "(length shard_blocks - 1) mod 3 \<noteq> 0"
    and "\<And>x. x \<in> set shard_blocks \<Longrightarrow> cdepth x < max_depth"
  shows "make_proof_chain B fh mc shard_blocks since sigs = Inl Panic"
  using assms by (rule make_proof_chain_panics)

theorem proof_chain_panics_witness:
  "make_proof_chain demo_builder 1 (DC [100] []) (demo_blocks 5) 5 (DC [200] []) = Inl Panic"
proof (rule proof_chain_panics [OF demo_builder_laws])
  show "3 < length (demo_blocks 5) - 1" "(length (demo_blocks 5) - 1) mod 3 \<noteq> 0"
    by (simp_all add: demo_blocks_def)
  show "dcell_depth x < 1024" if "x \<in> set (demo_blocks 5)" for x
    using that by (auto simp: demo_blocks_def)
qed

section \<open>Block proofs\<close>


definition count_until :: "u64 \<Rightarrow> hash_bytes \<Rightarrow> u64 \<Rightarrow> (int, error, unit) rs" where
  "count_until bound account lt n = (if bound < lt then Inl Cancelled else Inr (), n + 1)"


text \<open>C6. Every proof that one of the builders returns has the hash of the block it was made from.\<close>

theorem proofs_keep_hash:
  "(make_pruned_block L M on_tx r x = (Inr p, x1) \<longrightarrow> hash0 L p = hash0 L r) \<and>
   (make_pivot_block_proof L M is_mc r = Inr p \<longrightarrow> hash0 L p = hash0 L r) \<and>
   (make_key_block_proof L M r with_prev = Inr p \<longrightarrow> hash0 L p = hash0 L r) \<and>
   (make_mc_proof L M r sh = Inr mp \<longrightarrow> hash0 L (mc_root mp) = hash0 L r) \<and>
   (make_tx_proof L M r account lt with_info = Inr (Some p) \<longrightarrow> hash0 L p = hash0 L r)"
  using make_pruned_block_hash [of L M on_tx r x p x1] make_pivot_block_proof_hash [of L M is_mc r p]
    make_key_block_proof_hash [of L M r with_prev p] make_mc_proof_hash [of L M r sh mp]
    make_tx_proof_hash [of L M r account lt with_info p]
  by blast

theorem proofs_keep_hash_witness:
  "hash0 demo_lib (demo_block True) = hash0 demo_lib (demo_block True) \<and>
   make_pivot_block_proof demo_lib demo_ton True (demo_block True) = Inr (demo_block True)"
proof -
  have "make_pivot_block_proof demo_lib demo_ton True (demo_block True) = Inr (demo_block True)"
    by code_simp
  with proofs_keep_hash [where L = demo_lib and M = demo_ton and is_mc = True and r = "demo_block True"
      and p = "demo_block True"]
  show ?thesis by blast
qed

lemma legacy_ops:
  "m_load_extra (legacy_models L) = legacy_block_load_extra L"
  "m_load_custom (legacy_models L) = legacy_load_custom L"
  by (simp_all add: legacy_models_def)

lemma tycho_ops:
  "m_load_block (tycho_models L) = tycho_load_block L"
  "m_load_extra (tycho_models L) = tycho_block_load_extra L"
  "m_load_custom (tycho_models L) = tycho_load_custom L"
  "m_end_lt (tycho_models L) = tycho_end_lt"
  by (simp_all add: tycho_models_def)

lemma demo_tycho_latest:
  "\<exists>u9. parse_latest_shard_blocks demo_lib (tycho_models demo_lib) (demo_tycho_block True) [] =
    (Inr \<lparr>bound_end_lt = 30, shard_ids = [\<lparr>shard = \<lparr>workchain = 0, prefix = 0x4000000000000000\<rparr>, seqno = 7\<rparr>, \<lparr>shard = \<lparr>workchain = 0, prefix = 0xc000000000000000\<rparr>, seqno = 9\<rparr>]\<rparr>, u9)"
proof -
  have "fst (parse_latest_shard_blocks demo_lib (tycho_models demo_lib) (demo_tycho_block True) []) =
    Inr \<lparr>bound_end_lt = 30, shard_ids = [\<lparr>shard = \<lparr>workchain = 0, prefix = 0x4000000000000000\<rparr>, seqno = 7\<rparr>, \<lparr>shard = \<lparr>workchain = 0, prefix = 0xc000000000000000\<rparr>, seqno = 9\<rparr>]\<rparr>"
    by code_simp
  then show ?thesis by (simp add: prod_eq_iff)
qed

lemma demo_ton_header:
  "\<exists>u. tx_header demo_lib demo_ton (demo_block True) True (usage_new demo_lib) =
      (Inr (Some (DC [] [DC [5, 5, 1] [DC [11, 12] []], DC [5, 6, 1] [DC [21] []]])), u)"
proof -
  have "fst (tx_header demo_lib demo_ton (demo_block True) True (usage_new demo_lib)) =
      Inr (Some (DC [] [DC [5, 5, 1] [DC [11, 12] []], DC [5, 6, 1] [DC [21] []]]))"
    by code_simp
  then show ?thesis by (simp add: prod_eq_iff)
qed

text \<open>C5. The shard sequence number in a masterchain proof of a block of any of the networks the
  legacy reader handles is the one at the leaf that the bits of the shard prefix lead to, in the
  shard tree of the workchain as the block's masterchain extra lists it.\<close>

theorem mc_proof_seqno:
  assumes "make_mc_proof L (legacy_models L) r sh = Inr p" and "prefix sh \<noteq> 0"
  shows "\<exists>blk e mc ua ub uc u0 u1 root.
    open_block L (legacy_models L) r (usage_new L) = (Inr blk, ua) \<and>
    legacy_block_load_extra L blk ub = (Inr e, uc) \<and>
    legacy_load_custom L e uc = (Inr (Some mc), u0) \<and>
    sh_workchain_root L (legacy_shard_hashes mc) (workchain sh) u0 = (Inr (Some root), u1) \<and>
    run_io (bnd (follow_path L root (shard_path (prefix sh))) (descr_seqno L legacy_known_descr)) u1
      = Inr (latest_shard_seqno p)"
  by (rule legacy.mc_proof_follows_path [OF assms], unfold legacy_ops) (blast 12)

theorem mc_proof_seqno_witness:
  "\<exists>blk e mc ua ub uc u0 u1 root.
    open_block demo_lib (legacy_models demo_lib) (demo_block True) (usage_new demo_lib) = (Inr blk, ua) \<and>
    legacy_block_load_extra demo_lib blk ub = (Inr e, uc) \<and>
    legacy_load_custom demo_lib e uc = (Inr (Some mc), u0) \<and>
    sh_workchain_root demo_lib (legacy_shard_hashes mc) 0 u0 = (Inr (Some root), u1) \<and>
    run_io (bnd (follow_path demo_lib root (shard_path 0xc000000000000000)) (descr_seqno demo_lib legacy_known_descr)) u1
      = Inr 9"
proof -
  have "make_mc_proof demo_lib (legacy_models demo_lib) (demo_block True)
      \<lparr>workchain = 0, prefix = 0xc000000000000000\<rparr> = Inr \<lparr>mc_root = demo_block True, latest_shard_seqno = 9\<rparr>"
    by code_simp
  from mc_proof_seqno [OF this] show ?thesis by simp
qed

text \<open>A block whose extra holds no masterchain part has neither a masterchain proof nor a
  key block proof: both builders end with \<open>CellUnderflow\<close>.\<close>

lemma no_mc_extra_no_proof:
  assumes "open_block L (tycho_models L) r (usage_new L) = (Inr b, u1)"
    and "tycho_block_load_info L b u1 = (Inr i, u2)"
    and "tycho_block_load_extra L b u2 = (Inr e, u3)" and "tycho_custom e = None"
  shows "make_mc_proof L (tycho_models L) r sh = Inl CellUnderflow \<and>
    make_key_block_proof L (tycho_models L) r with_prev = Inl CellUnderflow"
  using tycho.no_custom_no_mc_proof [of L r b u1 i u2 e u3] assms
  by (simp add: tycho_models_def tycho_has_custom_def)

theorem no_mc_extra_no_proof_witness:
  "make_mc_proof demo_lib (tycho_models demo_lib) (demo_tycho_block False) MASTERCHAIN = Inl CellUnderflow"
proof -
  let ?L = demo_lib and ?r = "demo_tycho_block False"
  obtain b u1 where b: "open_block ?L (tycho_models ?L) ?r (usage_new ?L) = (Inr b, u1)"
    "tycho_info b = demo_tycho_info" "tycho_extra b = demo_tycho_extra False"
    by (rule demo_tycho_open)
  obtain i u2 where i: "tycho_block_load_info ?L b u1 = (Inr i, u2)"
    by (rule demo_tycho_info_open [OF b(2)])
  obtain e u3 where e: "tycho_block_load_extra ?L b u2 = (Inr e, u3)" "tycho_custom e = None"
    by (rule demo_tycho_extra_open [OF b(3)])
  from no_mc_extra_no_proof [OF b(1) i e, of MASTERCHAIN True] show ?thesis by simp
qed

text \<open>What \<open>parse_latest_shard_blocks\<close> returns for a pivot block of a Tycho network is the end
  logical time in its block info and the short ids of all latest shard blocks, in their order.\<close>

lemma bound_info_of_pivot:
  assumes "parse_latest_shard_blocks L (tycho_models L) r u = (Inr b, u9)"
  shows "\<exists>blk info e mc ids u1 u2 u3 u4 u5.
    parse L (tycho_load_block L) r u = (Inr blk, u1) \<and>
    parse L (tycho_load_info L) (tycho_info blk) u1 = (Inr info, u2) \<and>
    tycho_block_load_extra L blk u2 = (Inr e, u5) \<and>
    tycho_load_custom L e u5 = (Inr (Some mc), u3) \<and>
    sh_latest_blocks L (tycho_shard_hashes mc) u3 = (map Inr ids, u4) \<and>
    b = \<lparr>bound_end_lt = tycho_end_lt info, shard_ids = map as_short_id ids\<rparr>"
  by (rule tycho.bound_info_latest [OF assms], unfold tycho_ops) (blast 14)

theorem bound_info_of_pivot_witness:
  "\<exists>blk info e mc ids u1 u2 u3 u4 u5.
    parse demo_lib (tycho_load_block demo_lib) (demo_tycho_block True) [] = (Inr blk, u1) \<and>
    parse demo_lib (tycho_load_info demo_lib) (tycho_info blk) u1 = (Inr info, u2) \<and>
    tycho_block_load_extra demo_lib blk u2 = (Inr e, u5) \<and>
    tycho_load_custom demo_lib e u5 = (Inr (Some mc), u3) \<and>
    sh_latest_blocks demo_lib (tycho_shard_hashes mc) u3 = (map Inr ids, u4) \<and>
    \<lparr>bound_end_lt = 30, shard_ids = [\<lparr>shard = \<lparr>workchain = 0, prefix = 0x4000000000000000\<rparr>, seqno = 7\<rparr>, \<lparr>shard = \<lparr>workchain = 0, prefix = 0xc000000000000000\<rparr>, seqno = 9\<rparr>]\<rparr> =
      \<lparr>bound_end_lt = tycho_end_lt info, shard_ids = map as_short_id ids\<rparr>"
proof -
  have "\<exists>u9. parse_latest_shard_blocks demo_lib (tycho_models demo_lib) (demo_tycho_block True) [] =
    (Inr \<lparr>bound_end_lt = 30, shard_ids = [\<lparr>shard = \<lparr>workchain = 0, prefix = 0x4000000000000000\<rparr>, seqno = 7\<rparr>, \<lparr>shard = \<lparr>workchain = 0, prefix = 0xc000000000000000\<rparr>, seqno = 9\<rparr>]\<rparr>, u9)"
    by (rule demo_tycho_latest)
  then show ?thesis by (elim exE) (rule bound_info_of_pivot)
qed

text \<open>Once the header of a block is read, \<open>make_tx_proof\<close> returns \<open>None\<close> exactly if the block
  has no readable account block for the account or that has no readable entry for the logical
  time; an error can then only come from building the proof of a transaction that was found.\<close>

lemma tx_proof_none_iff:
  assumes "tx_header L M r with_info (usage_new L) = (Inr accounts, u)"
  shows "(make_tx_proof L M r account lt with_info = Inr None \<longleftrightarrow> \<not> tx_found L accounts account lt u) \<and>
    (\<forall>e. make_tx_proof L M r account lt with_info = Inl e \<longrightarrow>
      tx_found L accounts account lt u \<and> (\<exists>u1. fst (build_proof_cell L r u1) = Inl e))"
proof (cases "tx_found L accounts account lt u")
  case True
  obtain u1 where "make_tx_proof L M r account lt with_info =
      bindR (fst (build_proof_cell L r u1)) (\<lambda>p. Inr (Some p))"
    by (rule make_tx_proof_found [OF assms True])
  with True show ?thesis by (cases "fst (build_proof_cell L r u1)") auto
next
  case False
  with make_tx_proof_missing [OF assms False] show ?thesis by simp
qed

lemma tx_proof_none_iff_witness:
  "make_tx_proof demo_lib demo_ton (demo_block True) 5 11 True \<noteq> Inr None \<and>
   make_tx_proof demo_lib demo_ton (demo_block True) 5 21 True = Inr None"
proof -
  have h: "\<exists>u. tx_header demo_lib demo_ton (demo_block True) True (usage_new demo_lib) =
      (Inr (Some (DC [] [DC [5, 5, 1] [DC [11, 12] []], DC [5, 6, 1] [DC [21] []]])), u)"
    by (rule demo_ton_header)
  then obtain u where u: "tx_header demo_lib demo_ton (demo_block True) True (usage_new demo_lib) =
      (Inr (Some (DC [] [DC [5, 5, 1] [DC [11, 12] []], DC [5, 6, 1] [DC [21] []]])), u)" ..
  have "tx_found demo_lib (Some (DC [] [DC [5, 5, 1] [DC [11, 12] []], DC [5, 6, 1] [DC [21] []]])) 5 11 u"
    "\<not> tx_found demo_lib (Some (DC [] [DC [5, 5, 1] [DC [11, 12] []], DC [5, 6, 1] [DC [21] []]])) 5 21 u"
    by (simp_all add: tx_found_def get_account_def read_account_def load_account_block_def demo_lib_def
        d_opt_def bnd_def on_slice_def guard_def load_if_def rs_apply)
  with tx_proof_none_iff [OF u, of 5 11] tx_proof_none_iff [OF u, of 5 21] show ?thesis by simp
qed

section \<open>Readers\<close>

text \<open>The walk \<open>find_shard_descr\<close> over a shard tree ends after at most 63 levels for every
  non-zero prefix, and reads the leaf at the path spelled by the prefix bits above the marker.\<close>

lemma find_shard_descr_path:
  assumes "p \<noteq> 0"
  shows "find_shard_descr L root p = follow_path L root (shard_path p) \<and> length (shard_path p) \<le> 63"
  using find_shard_descr_follows [OF assms] shifts_left_le [OF assms] by (simp add: shard_path_def)

theorem find_shard_descr_path_witness:
  "find_shard_descr demo_lib demo_shards 0xc000000000000000 =
   follow_path demo_lib demo_shards (shard_path 0xc000000000000000)"
  using find_shard_descr_path [of "0xc000000000000000" demo_lib demo_shards] by simp

text \<open>The legacy reader of block info, used for uploads whatever the network, agrees with the
  two others: it reads what the Tycho reader reads, and on the bytes the TON reader accepts it
  gives the same info with the sequence number in addition; both leave the slice at the same place.\<close>

lemma legacy_reads_both:
  "(tycho_load_info L st = (Inr i, st1) \<longrightarrow> legacy_load_info L st = (Inr (legacy_of_tycho i), st1)) \<and>
   (ton_load_info L st = (Inr j, st2) \<longrightarrow>
     (\<exists>k. legacy_load_info L st = (Inr k, st2) \<and> ton_of_legacy k = j))"
  using legacy_info_tycho [of L st i st1] legacy_info_ton [of L st j st2] by blast

theorem legacy_reads_both_witness:
  "\<exists>i st1. tycho_load_info demo_lib ((toks demo_tycho_info, refs demo_tycho_info), []) = (Inr i, st1) \<and>
     legacy_load_info demo_lib ((toks demo_tycho_info, refs demo_tycho_info), []) = (Inr (legacy_of_tycho i), st1)"
proof -
  obtain i st1 where i: "tycho_load_info demo_lib ((toks demo_tycho_info, refs demo_tycho_info), []) = (Inr i, st1)"
    by (simp add: demo_lib_def demo_tycho_info_def tycho_load_info_def tycho_load_info_body_def
        TYCHO_INFO_TAG_def d_shard_def bnd_def guard_def load_if_def ignore_def rs_apply Let_def)
  with legacy_reads_both [of demo_lib "((toks demo_tycho_info, refs demo_tycho_info), [])" i st1]
  show ?thesis by blast
qed

end
