(* ===== verification/Proof_Tables.thy ===== *)
theory Proof_Tables
  imports Cell_Api
begin

text \<open>
  The tables of the proof storage (\<open>proof-api-l2/src/storage/tables.rs\<close>) and the keys and
  values \<open>storage/mod.rs\<close> lays out in them. RocksDB is a parameter: the record \<open>kv_lib\<close> holds
  the operations the storage calls, and \<open>kv_laws\<close> what they promise of the table contents.
  The locale \<open>ordered_key\<close> is the interface between the key layouts and the range deletions:
  the bytewise order of the encoded keys is the order of their ranks.
\<close>

section \<open>Tables and batches\<close>

datatype table = State | PrunedBlocks | PivotBlocks | Transactions | Signatures | Timings

type_synonym contents = "table \<Rightarrow> bytes \<rightharpoonup> bytes"

datatype batch_op = Put table bytes bytes | DeleteRange table bytes bytes

definition in_range :: "bytes \<Rightarrow> bytes \<Rightarrow> bytes \<Rightarrow> bool" where
  "in_range from until k \<longleftrightarrow> \<not> bytes_less k from \<and> bytes_less k until"

text \<open>What a write batch does to the contents, operation by operation.\<close>

fun apply_op :: "batch_op \<Rightarrow> contents \<Rightarrow> contents" where
  "apply_op (Put t k v) m = m(t := (m t)(k \<mapsto> v))"
| "apply_op (DeleteRange t a b) m = m(t := (\<lambda>k. if in_range a b k then None else m t k))"

definition apply_batch :: "batch_op list \<Rightarrow> contents \<Rightarrow> contents" where
  "apply_batch ops m = fold apply_op ops m"

record 'db kv_lib =
  kv_get :: "'db \<Rightarrow> table \<Rightarrow> bytes \<Rightarrow> any_error + bytes option"
  kv_seek_for_prev :: "'db \<Rightarrow> table \<Rightarrow> bytes \<Rightarrow> bytes option"
  kv_write :: "batch_op list \<Rightarrow> 'db \<Rightarrow> any_error + 'db"
  kv_snapshot :: "'db \<Rightarrow> 'db"

text \<open>
  The documented behaviour: a read that succeeds sees the contents; \<open>seek_for_prev\<close> finds the
  value of the last key that is not after the target; a write that succeeds applies the whole
  batch; a snapshot keeps the contents it was taken from.
\<close>

definition prev_value :: "(bytes \<rightharpoonup> bytes) \<Rightarrow> bytes \<Rightarrow> bytes option \<Rightarrow> bool" where
  "prev_value m k r \<longleftrightarrow>
     (case r of
        None \<Rightarrow> (\<forall>k1\<in>dom m. bytes_less k k1)
      | Some v \<Rightarrow> (\<exists>k1. m k1 = Some v \<and> \<not> bytes_less k k1 \<and>
                    (\<forall>k2\<in>dom m. bytes_less k1 k2 \<longrightarrow> bytes_less k k2)))"

definition kv_laws :: "'db kv_lib \<Rightarrow> ('db \<Rightarrow> contents) \<Rightarrow> bool" where
  "kv_laws K contents \<longleftrightarrow>
     (\<forall>db t k v. kv_get K db t k = Inr v \<longrightarrow> v = contents db t k) \<and>
     (\<forall>db t k. prev_value (contents db t) k (kv_seek_for_prev K db t k)) \<and>
     (\<forall>ops db db1. kv_write K ops db = Inr db1 \<longrightarrow> contents db1 = apply_batch ops (contents db)) \<and>
     (\<forall>db. contents (kv_snapshot K db) = contents db)"

definition reads_succeed :: "'db kv_lib \<Rightarrow> 'db \<Rightarrow> bool" where
  "reads_succeed K db \<longleftrightarrow> (\<forall>t k. \<exists>v. kv_get K db t k = Inr v)"

lemma kv_lawsD:
  assumes "kv_laws K contents"
  shows "kv_get K db t k = Inr v \<Longrightarrow> v = contents db t k"
    and "prev_value (contents db t) k (kv_seek_for_prev K db t k)"
    and "kv_write K ops db = Inr db1 \<Longrightarrow> contents db1 = apply_batch ops (contents db)"
    and "contents (kv_snapshot K db) = contents db"
  using assms unfolding kv_laws_def by auto

lemma kv_get_contents:
  assumes "kv_laws K contents" and "reads_succeed K db"
  shows "kv_get K db t k = Inr (contents db t k)"
  using assms kv_lawsD(1) [OF assms(1)] unfolding reads_succeed_def by metis

lemma apply_batch_simps [simp]:
  "apply_batch [] m = m"
  "apply_batch (x # xs) m = apply_batch xs (apply_op x m)"
  "apply_batch (xs @ ys) m = apply_batch ys (apply_batch xs m)"
  by (simp_all add: apply_batch_def)

section \<open>Key and value layouts\<close>

definition block_key :: "u8 \<Rightarrow> u64 \<Rightarrow> u32 \<Rightarrow> bytes" where
  "block_key wc pfx n = wc # u64_be pfx @ u32_be n"

definition tx_key :: "u64 \<Rightarrow> u8 \<Rightarrow> hash_bytes \<Rightarrow> bytes" where
  "tx_key lt wc account = u64_be lt @ wc # hash_to_bytes account"

definition tx_value :: "u8 \<Rightarrow> u64 \<Rightarrow> u32 \<Rightarrow> u32 \<Rightarrow> bytes" where
  "tx_value wc pfx n ref_by_mc_seqno = block_key wc pfx n @ u32_le ref_by_mc_seqno"

text \<open>\<open>[0; KEY_LEN]\<close>, the start of the range deletions.\<close>

definition TX_KEY_LEN :: nat where "TX_KEY_LEN = 8 + 1 + 32"
definition BLOCK_KEY_LEN :: nat where "BLOCK_KEY_LEN = 1 + 8 + 4"
definition TIMINGS_KEY_LEN :: nat where "TIMINGS_KEY_LEN = 4"

lemma key_lengths [simp]:
  "length (block_key wc pfx n) = BLOCK_KEY_LEN"
  "length (tx_key lt wc account) = TX_KEY_LEN"
  "length (tx_value wc pfx n r) = BLOCK_KEY_LEN + 4"
  by (simp_all add: block_key_def tx_key_def tx_value_def BLOCK_KEY_LEN_def TX_KEY_LEN_def)

section \<open>The order of keys\<close>

locale ordered_key =
  fixes enc :: "'k \<Rightarrow> bytes" and rank :: "'k \<Rightarrow> nat" and len :: nat
  assumes enc_length: "length (enc k) = len"
    and enc_rank: "of_be (enc k) = rank k"
    and rank_inj: "rank a = rank b \<Longrightarrow> a = b"
begin

lemma less_iff: "bytes_less (enc a) (enc b) \<longleftrightarrow> rank a < rank b"
  by (simp add: bytes_less_of_be enc_length enc_rank)

lemma enc_inj: "enc a = enc b \<longleftrightarrow> a = b"
  by (metis enc_rank rank_inj)

lemma from_zero: "in_range (replicate len 0) (enc b) (enc a) \<longleftrightarrow> rank a < rank b"
proof -
  have "of_be (replicate len 0) = 0"
    by (induction len) (simp_all add: of_be_Cons, simp add: of_be_def)
  then have "\<not> bytes_less (enc a) (replicate len 0)"
    by (simp add: bytes_less_of_be enc_length)
  then show ?thesis by (simp add: in_range_def less_iff)
qed

lemma range_iff: "in_range (enc a) (enc b) (enc k) \<longleftrightarrow> rank a \<le> rank k \<and> rank k < rank b"
  by (auto simp: in_range_def less_iff)

end

definition tx_rank :: "u64 \<times> u8 \<times> hash_bytes \<Rightarrow> nat" where
  "tx_rank k = (case k of (lt, wc, a) \<Rightarrow> (unat lt * 2 ^ 8 + unat wc) * 2 ^ 256 + unat a)"

definition block_rank :: "u8 \<times> u64 \<times> u32 \<Rightarrow> nat" where
  "block_rank k = (case k of (wc, pfx, n) \<Rightarrow> (unat wc * 2 ^ 64 + unat pfx) * 2 ^ 32 + unat n)"

lemma of_be_append: "of_be (xs @ ys) = of_be xs * 256 ^ length ys + of_be ys"
  by (induction xs) (simp_all add: of_be_Cons power_add algebra_simps, simp add: of_be_def)

lemma rank_pair_inj:
  fixes a b c d n :: nat
  assumes "a * n + c = b * n + d" and "c < n" and "d < n"
  shows "a = b \<and> c = d"
proof -
  have "(a * n + c) div n = a" "(b * n + d) div n = b" using assms(2,3) by simp_all
  with assms(1) have "a = b" by simp
  with assms(1) show ?thesis by simp
qed

lemma rank_less_iff:
  fixes a b c n m :: nat
  assumes "c * n + m < k * n"
  shows "(a * k + c) * n + m < (b * k) * n \<longleftrightarrow> a < b"
proof
  assume "a < b"
  then have "a * k * n + k * n \<le> b * k * n"
    by (metis Suc_leI add.commute mult.assoc mult_Suc mult_le_mono1)
  with assms show "(a * k + c) * n + m < (b * k) * n" by (simp add: algebra_simps)
next
  assume l: "(a * k + c) * n + m < (b * k) * n"
  show "a < b"
  proof (rule ccontr)
    assume "\<not> a < b"
    then have "b * k * n \<le> a * k * n" by simp
    with l show False by (simp add: algebra_simps)
  qed
qed

lemma rank_range:
  fixes a b c d n :: nat
  assumes "a * n \<le> b * n + c" and "b * n + c < a * n + d" and "c < n" and "d \<le> n"
  shows "a = b \<and> c < d"
proof -
  have "a \<le> b"
  proof (rule ccontr)
    assume "\<not> a \<le> b"
    then have "b * n + n \<le> a * n" by (metis Suc_leI add.commute mult_Suc mult_le_mono1 not_le)
    with assms show False by linarith
  qed
  moreover have "b \<le> a"
  proof (rule ccontr)
    assume "\<not> b \<le> a"
    then have "a * n + n \<le> b * n" by (metis Suc_leI add.commute mult_Suc mult_le_mono1 not_le)
    with assms show False by linarith
  qed
  ultimately show ?thesis using assms(2) by simp
qed

lemma tx_rank_inj:
  assumes "tx_rank a = tx_rank b" shows "a = b"
proof -
  obtain lt wc h lt1 wc1 h1 where ab: "a = (lt, wc, h)" "b = (lt1, wc1, h1)" by (cases a; cases b) auto
  have lts: "unat h < 2 ^ 256" "unat h1 < 2 ^ 256" "unat wc < 2 ^ 8" "unat wc1 < 2 ^ 8"
    using unat_less_pow [of h] unat_less_pow [of h1] unat_less_pow [of wc] unat_less_pow [of wc1] by simp_all
  from assms ab have "(unat lt * 2 ^ 8 + unat wc) * 2 ^ 256 + unat h = (unat lt1 * 2 ^ 8 + unat wc1) * 2 ^ 256 + unat h1"
    unfolding tx_rank_def by (simp only: prod.case)
  note h = rank_pair_inj [OF this lts(1,2)]
  note w = rank_pair_inj [OF h [THEN conjunct1] lts(3,4)]
  from h w ab show ?thesis by (simp add: word_unat_eq_iff)
qed

lemma block_rank_inj:
  assumes "block_rank a = block_rank b" shows "a = b"
proof -
  obtain wc p n wc1 p1 n1 where ab: "a = (wc, p, n)" "b = (wc1, p1, n1)" by (cases a; cases b) auto
  have lts: "unat n < 2 ^ 32" "unat n1 < 2 ^ 32" "unat p < 2 ^ 64" "unat p1 < 2 ^ 64"
    using unat_less_pow [of n] unat_less_pow [of n1] unat_less_pow [of p] unat_less_pow [of p1] by simp_all
  from assms ab have "(unat wc * 2 ^ 64 + unat p) * 2 ^ 32 + unat n = (unat wc1 * 2 ^ 64 + unat p1) * 2 ^ 32 + unat n1"
    unfolding block_rank_def by (simp only: prod.case)
  note h = rank_pair_inj [OF this lts(1,2)]
  note w = rank_pair_inj [OF h [THEN conjunct1] lts(3,4)]
  from h w ab show ?thesis by (simp add: word_unat_eq_iff)
qed

lemma of_be_single: "of_be [b] = unat b"
  by (simp add: of_be_def)

interpretation timings_key: ordered_key u32_be unat 4
  by unfold_locales (simp_all add: word_unat_eq_iff)

interpretation tx_keys: ordered_key "\<lambda>(lt, wc, a). tx_key lt wc a" tx_rank TX_KEY_LEN
proof unfold_locales
  show "of_be (case k of (lt, wc, a) \<Rightarrow> tx_key lt wc a) = tx_rank k" for k
    by (cases k) (simp add: tx_key_def tx_rank_def of_be_append of_be_Cons algebra_simps)
qed (auto dest: tx_rank_inj)

interpretation block_keys: ordered_key "\<lambda>(wc, p, n). block_key wc p n" block_rank BLOCK_KEY_LEN
proof unfold_locales
  show "of_be (case k of (wc, p, n) \<Rightarrow> block_key wc p n) = block_rank k" for k
    by (cases k) (simp add: block_key_def block_rank_def of_be_append of_be_Cons algebra_simps)
qed (auto dest: block_rank_inj)

section \<open>What the range deletions cover\<close>

lemma unat_Suc_word: "w \<noteq> -1 \<Longrightarrow> unat (w + 1 :: 'a::len word) = Suc (unat w)"
  by (metis add.commute unatSuc add_eq_0_iff2 add_0)

lemma timings_range:
  assumes "until \<noteq> -1"
  shows "in_range (replicate TIMINGS_KEY_LEN 0) (u32_be (until + 1)) (u32_be t) \<longleftrightarrow> t \<le> until"
  using timings_key.from_zero [of "until + 1" t]
  by (simp add: TIMINGS_KEY_LEN_def unat_Suc_word [OF assms] less_Suc_eq_le word_le_nat_alt)

lemma tx_range:
  assumes "lt \<noteq> -1"
  shows "in_range (replicate TX_KEY_LEN 0) (tx_key (lt + 1) 0 0) (tx_key lt1 wc a) \<longleftrightarrow> lt1 \<le> lt"
proof -
  have w: "unat wc < 2 ^ 8" "unat a < 2 ^ 256" using unat_less_pow [of wc] unat_less_pow [of a] by simp_all
  have lt: "unat (lt + 1) = Suc (unat lt)" by (rule unat_Suc_word [OF assms])
  have "unat wc * 2 ^ 256 + unat a < 2 ^ 8 * 2 ^ 256"
  proof -
    have "unat wc * 2 ^ 256 + 2 ^ 256 \<le> 2 ^ 8 * (2 ^ 256 :: nat)"
      using mult_le_mono1 [of "Suc (unat wc)" "2 ^ 8" "2 ^ 256"] w(1) by (simp add: Suc_le_eq)
    with w(2) show ?thesis by linarith
  qed
  from rank_less_iff [OF this, of "unat lt1" "Suc (unat lt)"]
  have "tx_rank (lt1, wc, a) < tx_rank (lt + 1, 0, 0) \<longleftrightarrow> unat lt1 < Suc (unat lt)"
    unfolding tx_rank_def prod.case lt unat_0 add_0_right .
  with tx_keys.from_zero [of "(lt + 1, 0, 0)" "(lt1, wc, a)"] show ?thesis
    by (simp add: less_Suc_eq_le word_le_nat_alt)
qed

lemma block_range:
  assumes "n \<noteq> -1"
  shows "in_range (block_key wc p 0) (block_key wc p (n + 1)) (block_key wc1 p1 n1) \<longleftrightarrow>
    wc1 = wc \<and> p1 = p \<and> n1 \<le> n"
proof -
  let ?k = "\<lambda>wc (p :: u64). unat wc * 2 ^ 64 + unat p :: nat"
  have n: "unat (n + 1) = Suc (unat n)" by (rule unat_Suc_word [OF assms])
  have m: "Suc (unat n) < 2 ^ 32" "unat n1 < 2 ^ 32"
    using unat_less_pow [of "n + 1"] unat_less_pow [of n1] n by simp_all
  have "in_range (block_key wc p 0) (block_key wc p (n + 1)) (block_key wc1 p1 n1) \<longleftrightarrow>
    ?k wc p * 2 ^ 32 \<le> ?k wc1 p1 * 2 ^ 32 + unat n1 \<and>
    ?k wc1 p1 * 2 ^ 32 + unat n1 < ?k wc p * 2 ^ 32 + Suc (unat n)"
    using block_keys.range_iff [of "(wc, p, 0)" "(wc, p, n + 1)" "(wc1, p1, n1)"]
    by (simp only: prod.case block_rank_def n unat_0 add_0_right)
  also have "\<dots> \<longleftrightarrow> ?k wc p = ?k wc1 p1 \<and> unat n1 \<le> unat n"
  proof
    assume r: "?k wc p * 2 ^ 32 \<le> ?k wc1 p1 * 2 ^ 32 + unat n1 \<and>
      ?k wc1 p1 * 2 ^ 32 + unat n1 < ?k wc p * 2 ^ 32 + Suc (unat n)"
    from rank_range [OF conjunct1 [OF r] conjunct2 [OF r] m(2) less_imp_le [OF m(1)]]
    show "?k wc p = ?k wc1 p1 \<and> unat n1 \<le> unat n" by (simp only: less_Suc_eq_le)
  next
    assume "?k wc p = ?k wc1 p1 \<and> unat n1 \<le> unat n"
    then show "?k wc p * 2 ^ 32 \<le> ?k wc1 p1 * 2 ^ 32 + unat n1 \<and>
      ?k wc1 p1 * 2 ^ 32 + unat n1 < ?k wc p * 2 ^ 32 + Suc (unat n)" by simp
  qed
  also have "?k wc p = ?k wc1 p1 \<longleftrightarrow> wc = wc1 \<and> p = p1"
    using rank_pair_inj [of "unat wc" "2 ^ 64" "unat p" "unat wc1" "unat p1"]
      unat_less_pow [of p] unat_less_pow [of p1]
    by (auto simp: word_unat_eq_iff)
  finally show ?thesis by (auto simp: word_le_nat_alt)
qed

lemma lex_less:
  fixes a b c d n :: nat
  assumes "c < n" and "d < n"
  shows "a * n + c < b * n + d \<longleftrightarrow> a < b \<or> a = b \<and> c < d"
proof -
  have step: "a * n + n \<le> b * n" if "a < b" for a b
    using that by (metis Suc_leI add.commute mult_Suc mult_le_mono1)
  consider "a < b" | "a = b" | "b < a" by linarith
  then show ?thesis
  proof cases
    case 1
    with step [OF 1] assms(1) show ?thesis by linarith
  next
    case 3
    with step [OF 3] assms(2) show ?thesis by linarith
  qed simp
qed

lemma tx_key_less:
  "bytes_less (tx_key lt wc a) (tx_key lt1 wc1 a1) \<longleftrightarrow>
     lt < lt1 \<or> lt = lt1 \<and> (wc < wc1 \<or> wc = wc1 \<and> a < a1)"
proof -
  have lts: "unat a < 2 ^ 256" "unat a1 < 2 ^ 256" "unat wc < 2 ^ 8" "unat wc1 < 2 ^ 8"
    using unat_less_pow [of a] unat_less_pow [of a1] unat_less_pow [of wc] unat_less_pow [of wc1] by simp_all
  have same: "unat lt * 2 ^ 8 + unat wc = unat lt1 * 2 ^ 8 + unat wc1 \<longleftrightarrow> unat lt = unat lt1 \<and> unat wc = unat wc1"
    using rank_pair_inj [OF _ lts(3,4), of "unat lt" "unat lt1"] by (intro iffI) (assumption | simp)+
  have "bytes_less (tx_key lt wc a) (tx_key lt1 wc1 a1) \<longleftrightarrow> tx_rank (lt, wc, a) < tx_rank (lt1, wc1, a1)"
    using tx_keys.less_iff [of "(lt, wc, a)" "(lt1, wc1, a1)"] by simp
  also have "\<dots> \<longleftrightarrow> unat lt < unat lt1 \<or> unat lt = unat lt1 \<and>
      (unat wc < unat wc1 \<or> unat wc = unat wc1 \<and> unat a < unat a1)"
    unfolding tx_rank_def prod.case lex_less [OF lts(1,2)] lex_less [OF lts(3,4)] same by blast
  finally show ?thesis by (simp add: word_less_nat_alt word_unat_eq_iff)
qed

end
