(* ===== verification/Proof_Storage.thy ===== *)
theory Proof_Storage
  imports Proof_Tables Proof_Chain Signatures Tycho_Models
begin

text \<open>
  \<open>ProofStorage\<close> of \<open>proof-api-l2/src/storage/mod.rs\<close>. Its state is the database, the snapshot
  proofs are built from, the current validator set and the life time of proofs. A call of an
  async function runs to its end as one step; the tasks it spawns compute pure results, and
  their results are taken in the order in which the code waits for them. The cancellation flag
  is an argument that answers the successive checks. Time is an argument.
\<close>

section \<open>State and environment\<close>

record ('c, 's, 'u, 'h, 'g, 'b, 'db) storage_env =
  env_cells :: "('c, 's, 'u, 'h, 'g) cell_lib"
  env_builder :: "('c, 'b) builder_lib"
  env_key_hash :: "hash_bytes \<Rightarrow> hash_bytes"
  env_kv :: "'db kv_lib"
  boc_encode :: "'c \<Rightarrow> bytes"
  boc_decode :: "bytes \<Rightarrow> error + 'c"
  shard_new :: "i32 \<Rightarrow> u64 \<Rightarrow> shard_ident option"

record 'db proof_storage =
  ps_db :: 'db
  ps_snapshot :: 'db
  current_vset :: "validator_set option"
  min_proof_ttl_sec :: u32

text \<open>A block as the strider hands it over: its id, its root and the result of reading its info.\<close>

record 'c block_stuff =
  bs_id :: block_id
  bs_root :: 'c
  bs_gen_utime :: "any_error + u32"

definition STORE_TIMINGS_STEP :: u32 where
  "STORE_TIMINGS_STEP = 100"

text \<open>\<open>Duration::as_secs().try_into().unwrap_or(u32::MAX)\<close>, and the state after \<open>new\<close>.\<close>

definition ttl_secs :: "u64 \<Rightarrow> u32" where
  "ttl_secs s = (if uint s < 2 ^ 32 then ucast s else -1)"

definition new_storage :: "'db kv_lib \<Rightarrow> 'db \<Rightarrow> u64 \<Rightarrow> 'db proof_storage" where
  "new_storage K db ttl =
     \<lparr>ps_db = db, ps_snapshot = kv_snapshot K db, current_vset = None, min_proof_ttl_sec = ttl_secs ttl\<rparr>"

definition update_snapshot :: "'db kv_lib \<Rightarrow> 'db proof_storage \<Rightarrow> 'db proof_storage" where
  "update_snapshot K st = st\<lparr>ps_snapshot := kv_snapshot K (ps_db st)\<rparr>"

definition set_current_vset :: "validator_set \<Rightarrow> 'db proof_storage \<Rightarrow> 'db proof_storage" where
  "set_current_vset vset st = st\<lparr>current_vset := Some vset\<rparr>"

section \<open>Values\<close>

definition encode_block :: "('c \<Rightarrow> bytes) \<Rightarrow> hash_bytes \<Rightarrow> 'c \<Rightarrow> bytes" where
  "encode_block enc fh cell = hash_to_bytes fh @ enc cell"

definition decode_block :: "(bytes \<Rightarrow> error + 'c) \<Rightarrow> bytes \<Rightarrow> any_error + hash_bytes \<times> 'c" where
  "decode_block dec data =
     (if length data < 32 then Inl (Lib Panic)
      else bindR (map_err Lib (dec (drop 32 data))) (\<lambda>cell. Inr (hash_of_bytes (take 32 data), cell)))"

definition encode_signatures :: "('c \<Rightarrow> bytes) \<Rightarrow> u32 \<Rightarrow> 'c \<Rightarrow> bytes" where
  "encode_signatures enc vset_utime_since cell = u32_le vset_utime_since @ enc cell"

definition decode_signatures :: "(bytes \<Rightarrow> error + 'c) \<Rightarrow> bytes \<Rightarrow> any_error + u32 \<times> 'c" where
  "decode_signatures dec data =
     (if length data < 4 then Inl (Lib Panic)
      else bindR (map_err Lib (dec (drop 4 data))) (\<lambda>cell. Inr (u32_of_le (take 4 data), cell)))"

text \<open>The value of the transactions table: the key of the block and the referencing seqno.\<close>

definition split_tx_value :: "bytes \<Rightarrow> any_error + bytes \<times> u32" where
  "split_tx_value v =
     (if length v < 17 then Inl (Lib Panic)
      else Inr (take 13 v, u32_of_le (take 4 (drop 13 v))))"

section \<open>Cancellation\<close>

type_synonym polls = "nat \<Rightarrow> bool"

definition check :: "polls \<Rightarrow> (nat, any_error, unit) rs" where
  "check cancelled n = (if cancelled n then Inl (Lib Cancelled) else Inr (), Suc n)"

section \<open>Building a proof\<close>

definition get_decoded ::
  "'db kv_lib \<Rightarrow> 'db \<Rightarrow> table \<Rightarrow> bytes \<Rightarrow> string \<Rightarrow> (bytes \<Rightarrow> any_error + 'a) \<Rightarrow> (nat, any_error, 'a) rs" where
  "get_decoded K db t key missing dec =
     of_result (bindR (kv_get K db t key) (\<lambda>v. bindR (ok_or (Msg missing) v) dec))"

definition mc_block_key :: "u32 \<Rightarrow> bytes" where
  "mc_block_key n = block_key (-1) (prefix MASTERCHAIN) n"

text \<open>The loop over the intermediate shard blocks, from the latest one down.\<close>

fun load_pivots ::
  "('c, 's, 'u, 'h, 'g, 'b, 'db) storage_env \<Rightarrow> polls \<Rightarrow> 'db \<Rightarrow> bytes \<Rightarrow> u32 list \<Rightarrow> 'c list \<Rightarrow>
   (nat, any_error, 'c list) rs" where
  "load_pivots E cancelled db key [] acc = ret acc"
| "load_pivots E cancelled db key (n # ns) acc =
     bnd (check cancelled) (\<lambda>_.
     bnd (get_decoded (env_kv E) db PivotBlocks (take 9 key @ u32_be n) ''pivot shard block not found''
           (decode_block (boc_decode E))) (\<lambda>(_, sc_block).
     load_pivots E cancelled db key ns (acc @ [sc_block])))"

definition shard_chain ::
  "('c, 's, 'u, 'h, 'g, 'b, 'db) storage_env \<Rightarrow> polls \<Rightarrow> 'db \<Rightarrow> bytes \<Rightarrow> u32 \<Rightarrow> u32 \<Rightarrow> shard_ident \<Rightarrow> 'c \<Rightarrow>
   (nat, any_error, hash_bytes \<times> 'c \<times> 'c list) rs" where
  "shard_chain E cancelled db key tx_block_seqno ref_by_mc_seqno sh tx_proof =
     bnd (get_decoded (env_kv E) db PivotBlocks (mc_block_key ref_by_mc_seqno) ''ref mc block not found''
           (decode_block (boc_decode E))) (\<lambda>(mc_block_hash, mc_block).
     bnd (of_result (map_err Lib (make_mc_proof (env_cells E) (tycho_models (env_cells E)) mc_block sh))) (\<lambda>mc.
     bnd (guard (tx_block_seqno \<le> latest_shard_seqno mc)
           (Msg ''stored masterchain block has some strange shard description'')) (\<lambda>_.
     bnd (load_pivots E cancelled db key
           (map word_of_nat (rev [unat (tx_block_seqno + 1)..<Suc (unat (latest_shard_seqno mc))])) []) (\<lambda>proofs.
     ret (mc_block_hash, mc_root mc, proofs @ [tx_proof])))))"

definition build_from_snapshot ::
  "('c, 's, 'u, 'h, 'g, 'b, 'db) storage_env \<Rightarrow> polls \<Rightarrow> 'db \<Rightarrow> std_addr \<Rightarrow> u64 \<Rightarrow> bytes \<Rightarrow> u32 \<Rightarrow> u32 \<Rightarrow>
   shard_ident \<Rightarrow> (nat, any_error, 'c option) rs" where
  "build_from_snapshot E cancelled db account lt key tx_block_seqno ref_by_mc_seqno sh =
     (let is_mc = addr_workchain account = -1 in
      bnd (check cancelled) (\<lambda>_.
      bnd (get_decoded (env_kv E) db PrunedBlocks key ''block not found'' (decode_block (boc_decode E)))
        (\<lambda>(tx_block_hash, block_with_tx).
      bnd (check cancelled) (\<lambda>_.
      bnd (of_result (map_err Lib (make_tx_proof (env_cells E) (tycho_models (env_cells E))
             block_with_tx (address account) lt is_mc))) (\<lambda>found.
      bnd (of_result (ok_or (Msg ''tx not found in block'') found)) (\<lambda>tx_proof.
      bnd (check cancelled) (\<lambda>_.
      bnd (get_decoded (env_kv E) db Signatures (u32_be ref_by_mc_seqno) ''signatures not found''
             (decode_signatures (boc_decode E))) (\<lambda>(vset_utime_since, signatures).
      bnd (if is_mc then ret (tx_block_hash, tx_proof, [])
           else shard_chain E cancelled db key tx_block_seqno ref_by_mc_seqno sh tx_proof)
        (\<lambda>(fh, mc_proof, shard_proofs).
      bnd (check cancelled) (\<lambda>_.
      bnd (of_result (map_err Lib (make_proof_chain (env_builder E) fh mc_proof shard_proofs
             vset_utime_since signatures))) (\<lambda>proof_chain.
      ret (Some proof_chain))))))))))))"

definition build_proof ::
  "('c, 's, 'u, 'h, 'g, 'b, 'db) storage_env \<Rightarrow> polls \<Rightarrow> 'db proof_storage \<Rightarrow> std_addr \<Rightarrow> u64 \<Rightarrow>
   any_error + 'c option" where
  "build_proof E cancelled st account lt =
     bindR (kv_get (env_kv E) (ps_db st) Transactions (tx_key lt (addr_workchain account) (address account))) (\<lambda>row.
     case row of
       None \<Rightarrow> Inr None
     | Some v \<Rightarrow>
         bindR (split_tx_value v) (\<lambda>(key, ref_by_mc_seqno).
         bindR (ok_or (Lib Panic) (shard_new E (of_i8 (hd key)) (u64_of_be (take 8 (drop 1 key))))) (\<lambda>sh.
         fst (build_from_snapshot E cancelled (ps_snapshot st) account lt key
                (u32_of_be (take 4 (drop 9 key))) ref_by_mc_seqno sh 0))))"

section \<open>Garbage collection bounds\<close>

record outdated_bound =
  remove_until :: u32
  bound_lt :: u64
  bound_blocks :: "block_id_short list"

definition bound_timings_key :: "outdated_bound \<Rightarrow> bytes" where
  "bound_timings_key b = u32_be (remove_until b + 1)"

definition bound_tx_key :: "outdated_bound \<Rightarrow> bytes" where
  "bound_tx_key b = tx_key (bound_lt b + 1) 0 0"

fun block_key_ranges :: "block_id_short list \<Rightarrow> (bytes \<times> bytes) list" where
  "block_key_ranges [] = []"
| "block_key_ranges (b # bs) =
     (case to_i8 (workchain (shard b)) of
        None \<Rightarrow> block_key_ranges bs
      | Some wc \<Rightarrow>
          (block_key wc (prefix (shard b)) 0, block_key wc (prefix (shard b)) (seqno b + 1))
          # block_key_ranges bs)"

definition iter_block_keys :: "outdated_bound \<Rightarrow> (bytes \<times> bytes) list" where
  "iter_block_keys b = block_key_ranges (bound_blocks b)"

definition find_outdated_bound ::
  "('c, 's, 'u, 'h, 'g, 'b, 'db) storage_env \<Rightarrow> 'db \<Rightarrow> u32 \<Rightarrow> any_error + outdated_bound option" where
  "find_outdated_bound E db until =
     (case kv_seek_for_prev (env_kv E) db Timings (u32_be until) of
        None \<Rightarrow> Inr None
      | Some v \<Rightarrow>
          if length v < 4 then Inl (Lib Panic)
          else
            let until_mc_seqno = u32_of_le (take 4 v) in
            bindR (kv_get (env_kv E) db PivotBlocks (mc_block_key until_mc_seqno)) (\<lambda>row.
            case row of
              None \<Rightarrow> Inr None
            | Some data \<Rightarrow>
                bindR (decode_block (boc_decode E) data) (\<lambda>(_, block).
                bindR (map_err Lib (run_io (parse_latest_shard_blocks (env_cells E)
                         (tycho_models (env_cells E)) block) (usage_new (env_cells E)))) (\<lambda>info.
                Inr (Some \<lparr>remove_until = until, bound_lt = bound_end_lt info,
                           bound_blocks = shard_ids info @ [\<lparr>shard = MASTERCHAIN, seqno = until_mc_seqno\<rparr>]\<rparr>)))))"

definition bound_ops :: "outdated_bound \<Rightarrow> batch_op list" where
  "bound_ops b =
     [DeleteRange Timings (replicate TIMINGS_KEY_LEN 0) (bound_timings_key b),
      DeleteRange Transactions (replicate TX_KEY_LEN 0) (bound_tx_key b)] @
     concat (map (\<lambda>(from_key, to_key).
       [DeleteRange PivotBlocks from_key to_key, DeleteRange PrunedBlocks from_key to_key]) (iter_block_keys b))"

section \<open>Storing a block\<close>

text \<open>The callback that fills the batch; it polls the cancellation flag first.\<close>

definition put_tx ::
  "polls \<Rightarrow> u8 \<Rightarrow> bytes \<Rightarrow> hash_bytes \<Rightarrow> u64 \<Rightarrow> (batch_op list \<times> nat, error, unit) rs" where
  "put_tx cancelled wc value account lt s =
     (case s of (ops, n) \<Rightarrow>
        if cancelled n then (Inl Cancelled, (ops, Suc n))
        else (Inr (), (ops @ [Put Transactions (tx_key lt wc account) value], Suc n)))"

definition store_batch ::
  "('c, 's, 'u, 'h, 'g, 'b, 'db) storage_env \<Rightarrow> polls \<Rightarrow> u32 \<Rightarrow> 'db proof_storage \<Rightarrow> validator_set \<Rightarrow>
   'c block_stuff \<Rightarrow> (error + block_signature) list \<Rightarrow> u32 \<Rightarrow> u8 \<Rightarrow> u32 \<Rightarrow> any_error + batch_op list" where
  "store_batch E cancelled now st vset block sigs ref_by_mc_seqno wc gen_utime =
     (let L = env_cells E; M = tycho_models L; id = bs_id block; is_mc = is_masterchain id;
          signatures = map_err Lib (bindR (prepare_signatures (env_builder E) (env_key_hash E) sigs vset)
            (\<lambda>cell. Inr (encode_signatures (boc_encode E) (utime_since vset) cell)));
          pivot = map_err Lib (bindR (make_pivot_block_proof L M is_mc (bs_root block))
            (\<lambda>cell. Inr (encode_block (boc_encode E) (file_hash id) cell)));
          store_timings = is_mc \<and> seqno id mod STORE_TIMINGS_STEP = 0;
          bound = find_outdated_bound E (ps_db st) (saturating_sub now (min_proof_ttl_sec st));
          timings = (if store_timings then [Put Timings (u32_be gen_utime) (u32_le (seqno id))] else []);
          key = block_key wc (prefix (shard id)) (seqno id);
          value = tx_value wc (prefix (shard id)) (seqno id) ref_by_mc_seqno
      in
      if cancelled 0 then Inl (Lib Cancelled) else
      case make_pruned_block L M (put_tx cancelled wc value) (bs_root block) (timings, 1) of
        (Inl e, _) \<Rightarrow> Inl (Lib e)
      | (Inr pruned, (batch, n)) \<Rightarrow>
          if cancelled n then Inl (Lib Cancelled) else
          let batch = batch @ [Put PrunedBlocks key (encode_block (boc_encode E) (file_hash id) pruned)] in
          bindR (if is_mc then bindR signatures (\<lambda>s. Inr (batch @ [Put Signatures (u32_be (seqno id)) s]))
                 else Inr batch) (\<lambda>batch.
          bindR pivot (\<lambda>p.
          let batch = batch @ [Put PivotBlocks key p] in
          if store_timings then
            bindR bound (\<lambda>b. case b of None \<Rightarrow> Inr batch | Some b \<Rightarrow> Inr (batch @ bound_ops b))
          else Inr batch)))"

definition store_block ::
  "('c, 's, 'u, 'h, 'g, 'b, 'db) storage_env \<Rightarrow> polls \<Rightarrow> u32 \<Rightarrow> 'c block_stuff \<Rightarrow>
   (error + block_signature) list \<Rightarrow> u32 \<Rightarrow> ('db proof_storage, any_error, unit) rs" where
  "store_block E cancelled now block sigs ref_by_mc_seqno st =
     (case to_i8 (workchain (shard (bs_id block))) of
        None \<Rightarrow> (Inr (), st)
      | Some wc \<Rightarrow>
          case bs_gen_utime block of
            Inl e \<Rightarrow> (Inl e, st)
          | Inr gen_utime \<Rightarrow>
              if min_proof_ttl_sec st < saturating_sub now gen_utime then (Inr (), st)
              else
                case current_vset st of
                  None \<Rightarrow> (Inl (Msg ''no current vset found''), st)
                | Some vset \<Rightarrow>
                    case bindR (store_batch E cancelled now st vset block sigs ref_by_mc_seqno wc gen_utime)
                           (\<lambda>batch. kv_write (env_kv E) batch (ps_db st)) of
                      Inl e \<Rightarrow> (Inl e, st)
                    | Inr db \<Rightarrow> (Inr (), st\<lparr>ps_db := db\<rparr>))"

end
