(* ===== verification/Storage_Effects.thy ===== *)
theory Storage_Effects
  imports Proof_Storage
begin

text \<open>
  What \<open>store_block\<close> and the range deletions of its garbage collection do to the contents of
  the tables, and what \<open>build_proof\<close> reads back.
\<close>

section \<open>Batches, table by table\<close>

fun op_table :: "batch_op \<Rightarrow> table" where
  "op_table (Put t k v) = t"
| "op_table (DeleteRange t a b) = t"

lemma apply_batch_other:
  "(\<And>x. x \<in> set ops \<Longrightarrow> op_table x \<noteq> t) \<Longrightarrow> apply_batch ops m t = m t"
proof (induction ops arbitrary: m)
  case (Cons x ops)
  have "apply_op x m t = m t" using Cons.prems [of x] by (cases x) auto
  with Cons show ?case by simp
qed simp

definition tx_puts :: "u8 \<Rightarrow> bytes \<Rightarrow> (hash_bytes \<times> u64) list \<Rightarrow> batch_op list" where
  "tx_puts wc v txs = map (\<lambda>(a, lt). Put Transactions (tx_key lt wc a) v) txs"

lemma tx_key_inj [simp]: "tx_key lt wc a = tx_key lt1 wc1 a1 \<longleftrightarrow> lt = lt1 \<and> wc = wc1 \<and> a = a1"
  using tx_keys.enc_inj [of "(lt, wc, a)" "(lt1, wc1, a1)"] by simp

lemma block_key_inj [simp]: "block_key wc p n = block_key wc1 p1 n1 \<longleftrightarrow> wc = wc1 \<and> p = p1 \<and> n = n1"
  using block_keys.enc_inj [of "(wc, p, n)" "(wc1, p1, n1)"] by simp

lemma tx_puts_lookup:
  "apply_batch (tx_puts wc v txs) m Transactions (tx_key lt w a) =
     (if w = wc \<and> (a, lt) \<in> set txs then Some v else m Transactions (tx_key lt w a))"
  by (induction txs arbitrary: m) (auto simp: tx_puts_def split: if_splits)

lemma tx_puts_other: "t \<noteq> Transactions \<Longrightarrow> apply_batch (tx_puts wc v txs) m t = m t"
  by (rule apply_batch_other) (auto simp: tx_puts_def)

lemma block_key_ranges_set:
  "(f, u) \<in> set (block_key_ranges bs) \<longleftrightarrow>
   (\<exists>b\<in>set bs. \<exists>wc. to_i8 (workchain (shard b)) = Some wc \<and>
      f = block_key wc (prefix (shard b)) 0 \<and> u = block_key wc (prefix (shard b)) (seqno b + 1))"
  by (induction bs) (auto split: option.splits)

lemma delete_ranges_lookup:
  assumes "t = PivotBlocks \<or> t = PrunedBlocks"
  shows "apply_batch (concat (map (\<lambda>(f, u).
      [DeleteRange PivotBlocks f u, DeleteRange PrunedBlocks f u]) rs)) m t k =
    (if \<exists>(f, u)\<in>set rs. in_range f u k then None else m t k)"
  using assms by (induction rs arbitrary: m) auto

lemma delete_ranges_other:
  assumes "t \<noteq> PivotBlocks" and "t \<noteq> PrunedBlocks"
  shows "apply_batch (concat (map (\<lambda>(f, u).
      [DeleteRange PivotBlocks f u, DeleteRange PrunedBlocks f u]) rs)) m t = m t"
  using assms by (intro apply_batch_other) auto

text \<open>The effect of one garbage collection, on the keys the storage writes.\<close>

definition covers_block :: "outdated_bound \<Rightarrow> u8 \<Rightarrow> u64 \<Rightarrow> u32 \<Rightarrow> bool" where
  "covers_block b wc p n \<longleftrightarrow>
     (\<exists>x\<in>set (bound_blocks b). to_i8 (workchain (shard x)) = Some wc \<and> prefix (shard x) = p \<and> n \<le> seqno x)"

definition no_overflow :: "outdated_bound \<Rightarrow> bool" where
  "no_overflow b \<longleftrightarrow> remove_until b \<noteq> -1 \<and> bound_lt b \<noteq> -1 \<and> (\<forall>x\<in>set (bound_blocks b). seqno x \<noteq> -1)"

lemma bound_ops_transactions:
  assumes "no_overflow b"
  shows "apply_batch (bound_ops b) m Transactions (tx_key lt w a) =
    (if lt \<le> bound_lt b then None else m Transactions (tx_key lt w a))"
  using assms unfolding bound_ops_def apply_batch_simps
  by (simp add: delete_ranges_other bound_tx_key_def tx_range no_overflow_def)

lemma bound_ops_timings:
  assumes "no_overflow b"
  shows "apply_batch (bound_ops b) m Timings (u32_be t) =
    (if t \<le> remove_until b then None else m Timings (u32_be t))"
  using assms unfolding bound_ops_def apply_batch_simps
  by (simp add: delete_ranges_other bound_timings_key_def timings_range no_overflow_def)

lemma bound_ops_blocks:
  assumes "no_overflow b" and t: "t = PivotBlocks \<or> t = PrunedBlocks"
  shows "apply_batch (bound_ops b) m t (block_key wc p n) =
    (if covers_block b wc p n then None else m t (block_key wc p n))"
proof -
  have "(\<exists>(f, u)\<in>set (iter_block_keys b). in_range f u (block_key wc p n)) \<longleftrightarrow> covers_block b wc p n"
    using assms(1) unfolding iter_block_keys_def covers_block_def no_overflow_def Bex_def case_prod_beta
    by (auto simp: block_key_ranges_set block_range)
       (metis block_range)
  moreover have "t \<noteq> Timings" "t \<noteq> Transactions" using t by auto
  ultimately show ?thesis
    unfolding bound_ops_def by (simp add: delete_ranges_lookup [OF t])
qed

lemma bound_ops_signatures: "apply_batch (bound_ops b) m Signatures = m Signatures"
  unfolding bound_ops_def by (simp add: delete_ranges_other)

section \<open>The batch of a block\<close>

lemma put_tx_apply:
  "put_tx cancelled wc v account lt (ops, n) =
     (if cancelled n then (Inl Cancelled, (ops, Suc n))
      else (Inr (), (ops @ [Put Transactions (tx_key lt wc account) v], Suc n)))"
  by (simp add: put_tx_def)

lemma call_each_Cons: "call_each f ((a, lt) # ts) = bnd (f a lt) (\<lambda>_. call_each f ts)"
  by (simp add: call_each_def)

lemma put_tx_calls:
  "call_each (put_tx cancelled wc v) txs (ops, n) = (Inr (), (ops1, n1)) \<Longrightarrow>
   ops1 = ops @ tx_puts wc v txs \<and> n1 = n + length txs"
proof (induction txs arbitrary: ops n)
  case Nil
  then show ?case by (simp add: tx_puts_def)
next
  case (Cons t txs)
  obtain a lt where t: "t = (a, lt)" by (cases t)
  with Cons.prems have "call_each (put_tx cancelled wc v) txs
      (ops @ [Put Transactions (tx_key lt wc a) v], Suc n) = (Inr (), (ops1, n1))"
    by (auto simp: call_each_Cons bnd_def put_tx_apply split: if_splits)
  from Cons.IH [OF this] t show ?case by (simp add: tx_puts_def)
qed

definition gc_bound ::
  "('c, 's, 'u, 'h, 'g, 'b, 'db) storage_env \<Rightarrow> u32 \<Rightarrow> 'db proof_storage \<Rightarrow> block_id \<Rightarrow> any_error + outdated_bound option" where
  "gc_bound E now st bid =
     (if is_masterchain bid \<and> seqno bid mod STORE_TIMINGS_STEP = 0
      then find_outdated_bound E (ps_db st) (saturating_sub now (min_proof_ttl_sec st))
      else Inr None)"

definition gc_ops :: "outdated_bound option \<Rightarrow> batch_op list" where
  "gc_ops bo = (case bo of None \<Rightarrow> [] | Some b \<Rightarrow> bound_ops b)"

definition timing_ops :: "block_id \<Rightarrow> u32 \<Rightarrow> batch_op list" where
  "timing_ops bid gen_utime =
     (if is_masterchain bid \<and> seqno bid mod STORE_TIMINGS_STEP = 0
      then [Put Timings (u32_be gen_utime) (u32_le (seqno bid))] else [])"

definition signature_ops ::
  "('c, 's, 'u, 'h, 'g, 'b, 'db) storage_env \<Rightarrow> (error + block_signature) list \<Rightarrow> validator_set \<Rightarrow>
   block_id \<Rightarrow> batch_op list \<Rightarrow> bool" where
  "signature_ops E sigs vset bid ops \<longleftrightarrow>
     (if is_masterchain bid
      then \<exists>c. prepare_signatures (env_builder E) (env_key_hash E) sigs vset = Inr c \<and>
        ops = [Put Signatures (u32_be (seqno bid)) (encode_signatures (boc_encode E) (utime_since vset) c)]
      else ops = [])"

text \<open>The parts of the batch, as applied to the contents one after another.\<close>

definition batch_effect ::
  "('c, 's, 'u, 'h, 'g, 'b, 'db) storage_env \<Rightarrow> block_id \<Rightarrow> u8 \<Rightarrow> u32 \<Rightarrow> u32 \<Rightarrow>
   (hash_bytes \<times> u64) list \<Rightarrow> 'c \<Rightarrow> batch_op list \<Rightarrow> 'c \<Rightarrow> outdated_bound option \<Rightarrow> contents \<Rightarrow> contents" where
  "batch_effect E bid wc g ref txs pruned sig_ops pivot bo m =
     (let key = block_key wc (prefix (shard bid)) (seqno bid) in
      apply_batch (gc_ops bo)
        (apply_batch [Put PivotBlocks key (encode_block (boc_encode E) (file_hash bid) pivot)]
        (apply_batch sig_ops
        (apply_batch [Put PrunedBlocks key (encode_block (boc_encode E) (file_hash bid) pruned)]
        (apply_batch (tx_puts wc (tx_value wc (prefix (shard bid)) (seqno bid) ref) txs)
        (apply_batch (timing_ops bid g) m))))))"

lemma store_batch_InrE:
  assumes "store_batch E cancelled now st vset block sigs ref wc gen_utime = Inr batch"
  obtains txs pruned pivot sig_ops bo where
    "make_pruned_block (env_cells E) (tycho_models (env_cells E)) record_tx (bs_root block) [] = (Inr pruned, txs)"
    "make_pivot_block_proof (env_cells E) (tycho_models (env_cells E)) (is_masterchain (bs_id block)) (bs_root block) = Inr pivot"
    "signature_ops E sigs vset (bs_id block) sig_ops"
    "gc_bound E now st (bs_id block) = Inr bo"
    "batch = timing_ops (bs_id block) gen_utime
      @ tx_puts wc (tx_value wc (prefix (shard (bs_id block))) (seqno (bs_id block)) ref) txs
      @ [Put PrunedBlocks (block_key wc (prefix (shard (bs_id block))) (seqno (bs_id block)))
          (encode_block (boc_encode E) (file_hash (bs_id block)) pruned)]
      @ sig_ops
      @ [Put PivotBlocks (block_key wc (prefix (shard (bs_id block))) (seqno (bs_id block)))
          (encode_block (boc_encode E) (file_hash (bs_id block)) pivot)]
      @ gc_ops bo"
proof -
  let ?L = "env_cells E" and ?id = "bs_id block"
  let ?key = "block_key wc (prefix (shard ?id)) (seqno ?id)"
  let ?val = "tx_value wc (prefix (shard ?id)) (seqno ?id) ref"
  obtain res ops n where run: "make_pruned_block ?L (tycho_models ?L) (put_tx cancelled wc ?val)
      (bs_root block) (timing_ops ?id gen_utime, 1) = (res, (ops, n))" by (metis surj_pair)
  note def = assms [unfolded store_batch_def Let_def, folded timing_ops_def, unfolded run prod.case]
  from def obtain pruned where res: "res = Inr pruned"
    by (cases res) (auto split: if_splits)
  obtain txs where txs: "make_pruned_block ?L (tycho_models ?L) record_tx (bs_root block) [] = (Inr pruned, txs)"
    "call_each (put_tx cancelled wc ?val) txs (timing_ops ?id gen_utime, 1) = (Inr (), (ops, n))"
    by (rule pruned_block_success [OF run [unfolded res]])
  from put_tx_calls [OF txs(2)] have ops: "ops = timing_ops ?id gen_utime @ tx_puts wc ?val txs" by simp
  from def obtain pivot where piv: "make_pivot_block_proof ?L (tycho_models ?L) (is_masterchain ?id) (bs_root block) = Inr pivot"
    by (cases "make_pivot_block_proof ?L (tycho_models ?L) (is_masterchain ?id) (bs_root block)")
       (auto simp: res split: if_splits)
  show ?thesis
  proof (cases "is_masterchain ?id")
    case False
    with piv have piv1: "make_pivot_block_proof ?L (tycho_models ?L) False (bs_root block) = Inr pivot" by simp
    show ?thesis
      by (rule that [OF txs(1) piv, of "[]" None])
         (use def False ops in \<open>auto simp: res piv1 gc_bound_def gc_ops_def signature_ops_def split: if_splits\<close>)
  next
    case True
    with piv have piv1: "make_pivot_block_proof ?L (tycho_models ?L) True (bs_root block) = Inr pivot" by simp
    from True def obtain c where c: "prepare_signatures (env_builder E) (env_key_hash E) sigs vset = Inr c"
      by (cases "prepare_signatures (env_builder E) (env_key_hash E) sigs vset")
         (auto simp: res split: if_splits)
    let ?sig = "[Put Signatures (u32_be (seqno ?id)) (encode_signatures (boc_encode E) (utime_since vset) c)]"
    from def True obtain bo where bo: "gc_bound E now st ?id = Inr bo"
      by (auto simp: res piv1 c gc_bound_def split: if_splits)
    show ?thesis
      by (rule that [OF txs(1) piv, of ?sig bo])
         (use def True ops bo c in \<open>auto simp: res piv1 gc_bound_def gc_ops_def signature_ops_def split: if_splits option.splits\<close>)
  qed
qed

section \<open>The contents after a block is stored\<close>

text \<open>A block is taken on if its workchain fits a byte and it is younger than the life time.\<close>

definition taken_on :: "u32 \<Rightarrow> 'db proof_storage \<Rightarrow> 'c block_stuff \<Rightarrow> u8 \<Rightarrow> u32 \<Rightarrow> bool" where
  "taken_on now st block wc gen_utime \<longleftrightarrow>
     to_i8 (workchain (shard (bs_id block))) = Some wc \<and> bs_gen_utime block = Inr gen_utime \<and>
     \<not> min_proof_ttl_sec st < saturating_sub now gen_utime"

lemma store_block_InrE:
  assumes "store_block E cancelled now block sigs ref st = (Inr (), st1)" and "taken_on now st block wc g"
  obtains vset batch db where "current_vset st = Some vset"
    "store_batch E cancelled now st vset block sigs ref wc g = Inr batch"
    "kv_write (env_kv E) batch (ps_db st) = Inr db" "st1 = st\<lparr>ps_db := db\<rparr>"
  using assms unfolding store_block_def taken_on_def
  by (auto split: option.splits sum.splits if_splits)

lemma store_block_error:
  "store_block E cancelled now block sigs ref st = (Inl e, st1) \<Longrightarrow> st1 = st"
  unfolding store_block_def by (auto split: option.splits sum.splits if_splits)

lemma store_block_skips:
  "\<not> (\<exists>wc g. taken_on now st block wc g) \<Longrightarrow>
   snd (store_block E cancelled now block sigs ref st) = st"
  unfolding store_block_def taken_on_def by (auto split: option.splits sum.splits)

definition collected :: "outdated_bound option \<Rightarrow> (outdated_bound \<Rightarrow> bool) \<Rightarrow> bool" where
  "collected bo p = (case bo of None \<Rightarrow> False | Some b \<Rightarrow> p b)"

lemma store_block_contents:
  assumes kv: "kv_laws (env_kv E) contents"
    and run: "store_block E cancelled now block sigs ref st = (Inr (), st1)" and taken: "taken_on now st block wc g"
  obtains txs pruned pivot sig_ops bo vset where
    "make_pruned_block (env_cells E) (tycho_models (env_cells E)) record_tx (bs_root block) [] = (Inr pruned, txs)"
    "make_pivot_block_proof (env_cells E) (tycho_models (env_cells E)) (is_masterchain (bs_id block)) (bs_root block) = Inr pivot"
    "current_vset st = Some vset"
    "signature_ops E sigs vset (bs_id block) sig_ops"
    "gc_bound E now st (bs_id block) = Inr bo"
    "contents (ps_db st1) = batch_effect E (bs_id block) wc g ref txs pruned sig_ops pivot bo (contents (ps_db st))"
    "ps_snapshot st1 = ps_snapshot st" "current_vset st1 = current_vset st"
proof -
  from run taken obtain vset batch db where b: "current_vset st = Some vset"
    "store_batch E cancelled now st vset block sigs ref wc g = Inr batch"
    "kv_write (env_kv E) batch (ps_db st) = Inr db" "st1 = st\<lparr>ps_db := db\<rparr>"
    by (rule store_block_InrE)
  from kv_lawsD(3) [OF kv b(3)] b(4) have c: "contents (ps_db st1) = apply_batch batch (contents (ps_db st))" by simp
  show ?thesis
    by (rule store_batch_InrE [OF b(2)], rule that) (use b c in \<open>simp_all add: batch_effect_def Let_def\<close>)
qed

lemma sig_ops_other:
  assumes "signature_ops E sigs vset bid sig_ops" and "t \<noteq> Signatures"
  shows "apply_batch sig_ops m t = m t"
  using assms unfolding signature_ops_def by (cases "is_masterchain bid") auto

lemma timing_ops_other: "t \<noteq> Timings \<Longrightarrow> apply_batch (timing_ops bid g) m t = m t"
  by (simp add: timing_ops_def)

lemma store_block_transactions:
  assumes kv: "kv_laws (env_kv E) contents"
    and run: "store_block E cancelled now block sigs ref st = (Inr (), st1)" and taken: "taken_on now st block wc g"
    and txs: "make_pruned_block (env_cells E) (tycho_models (env_cells E)) record_tx (bs_root block) [] = (Inr pruned, txs)"
    and bo: "gc_bound E now st (bs_id block) = Inr bo" and ov: "\<And>b. bo = Some b \<Longrightarrow> no_overflow b"
  shows "contents (ps_db st1) Transactions (tx_key lt w a) =
    (if collected bo (\<lambda>b. lt \<le> bound_lt b) then None
     else if w = wc \<and> (a, lt) \<in> set txs
       then Some (tx_value wc (prefix (shard (bs_id block))) (seqno (bs_id block)) ref)
     else contents (ps_db st) Transactions (tx_key lt w a))"
proof (rule store_block_contents [OF kv run taken])
  fix txs1 pruned1 pivot sig_ops bo1 vset
  assume r: "make_pruned_block (env_cells E) (tycho_models (env_cells E)) record_tx (bs_root block) [] = (Inr pruned1, txs1)"
    and s: "signature_ops E sigs vset (bs_id block) sig_ops"
    and b: "gc_bound E now st (bs_id block) = Inr bo1"
    and c: "contents (ps_db st1) = batch_effect E (bs_id block) wc g ref txs1 pruned1 sig_ops pivot bo1 (contents (ps_db st))"
  have "txs1 = txs" "bo1 = bo" using r txs b bo by simp_all
  then show ?thesis unfolding c batch_effect_def Let_def gc_ops_def collected_def
    using ov by (cases bo)
      (simp_all add: bound_ops_transactions sig_ops_other [OF s] tx_puts_lookup timing_ops_other)
qed

lemma store_block_blocks:
  assumes kv: "kv_laws (env_kv E) contents"
    and run: "store_block E cancelled now block sigs ref st = (Inr (), st1)" and taken: "taken_on now st block wc g"
    and bo: "gc_bound E now st (bs_id block) = Inr bo" and ov: "\<And>b. bo = Some b \<Longrightarrow> no_overflow b"
    and txs: "make_pruned_block (env_cells E) (tycho_models (env_cells E)) record_tx (bs_root block) [] = (Inr pruned, txs)"
    and piv: "make_pivot_block_proof (env_cells E) (tycho_models (env_cells E)) (is_masterchain (bs_id block)) (bs_root block) = Inr pivot"
  shows "contents (ps_db st1) PrunedBlocks (block_key w p n) =
    (if collected bo (\<lambda>b. covers_block b w p n) then None
     else if w = wc \<and> p = prefix (shard (bs_id block)) \<and> n = seqno (bs_id block)
       then Some (encode_block (boc_encode E) (file_hash (bs_id block)) pruned)
     else contents (ps_db st) PrunedBlocks (block_key w p n))"
    and "contents (ps_db st1) PivotBlocks (block_key w p n) =
    (if collected bo (\<lambda>b. covers_block b w p n) then None
     else if w = wc \<and> p = prefix (shard (bs_id block)) \<and> n = seqno (bs_id block)
       then Some (encode_block (boc_encode E) (file_hash (bs_id block)) pivot)
     else contents (ps_db st) PivotBlocks (block_key w p n))"
proof (rule_tac [!] store_block_contents [OF kv run taken])
  fix txs1 pruned1 pivot1 sig_ops bo1 vset
  assume r: "make_pruned_block (env_cells E) (tycho_models (env_cells E)) record_tx (bs_root block) [] = (Inr pruned1, txs1)"
    and q: "make_pivot_block_proof (env_cells E) (tycho_models (env_cells E)) (is_masterchain (bs_id block)) (bs_root block) = Inr pivot1"
    and s: "signature_ops E sigs vset (bs_id block) sig_ops"
    and b: "gc_bound E now st (bs_id block) = Inr bo1"
    and c: "contents (ps_db st1) = batch_effect E (bs_id block) wc g ref txs1 pruned1 sig_ops pivot1 bo1 (contents (ps_db st))"
  have eq: "pruned1 = pruned" "bo1 = bo" "pivot1 = pivot" using r txs b bo q piv by simp_all
  show "contents (ps_db st1) PrunedBlocks (block_key w p n) =
    (if collected bo (\<lambda>b. covers_block b w p n) then None
     else if w = wc \<and> p = prefix (shard (bs_id block)) \<and> n = seqno (bs_id block)
       then Some (encode_block (boc_encode E) (file_hash (bs_id block)) pruned)
     else contents (ps_db st) PrunedBlocks (block_key w p n))"
    unfolding c batch_effect_def Let_def gc_ops_def collected_def eq
    using ov by (cases bo) (auto simp: bound_ops_blocks sig_ops_other [OF s] tx_puts_other timing_ops_other)
  show "contents (ps_db st1) PivotBlocks (block_key w p n) =
    (if collected bo (\<lambda>b. covers_block b w p n) then None
     else if w = wc \<and> p = prefix (shard (bs_id block)) \<and> n = seqno (bs_id block)
       then Some (encode_block (boc_encode E) (file_hash (bs_id block)) pivot)
     else contents (ps_db st) PivotBlocks (block_key w p n))"
    unfolding c batch_effect_def Let_def gc_ops_def collected_def eq
    using ov by (cases bo) (auto simp: bound_ops_blocks sig_ops_other [OF s] tx_puts_other timing_ops_other)
qed

lemma store_block_signatures:
  assumes kv: "kv_laws (env_kv E) contents"
    and run: "store_block E cancelled now block sigs ref st = (Inr (), st1)" and taken: "taken_on now st block wc g"
    and mc: "is_masterchain (bs_id block)" and vset: "current_vset st = Some vset"
  obtains c where "prepare_signatures (env_builder E) (env_key_hash E) sigs vset = Inr c"
    "contents (ps_db st1) Signatures (u32_be (seqno (bs_id block))) =
       Some (encode_signatures (boc_encode E) (utime_since vset) c)"
proof (rule store_block_contents [OF kv run taken])
  fix txs pruned pivot sig_ops bo vset1
  assume v: "current_vset st = Some vset1"
    and s: "signature_ops E sigs vset1 (bs_id block) sig_ops"
    and c: "contents (ps_db st1) = batch_effect E (bs_id block) wc g ref txs pruned sig_ops pivot bo (contents (ps_db st))"
  from s v vset mc obtain cell where cell: "prepare_signatures (env_builder E) (env_key_hash E) sigs vset = Inr cell"
    "sig_ops = [Put Signatures (u32_be (seqno (bs_id block))) (encode_signatures (boc_encode E) (utime_since vset) cell)]"
    by (auto simp: signature_ops_def)
  have "contents (ps_db st1) Signatures (u32_be (seqno (bs_id block))) =
       Some (encode_signatures (boc_encode E) (utime_since vset) cell)"
    unfolding c batch_effect_def Let_def gc_ops_def cell(2)
    by (cases bo) (simp_all add: bound_ops_signatures)
  with cell(1) show thesis by (rule that)
qed

lemma store_block_timings:
  assumes kv: "kv_laws (env_kv E) contents"
    and run: "store_block E cancelled now block sigs ref st = (Inr (), st1)" and taken: "taken_on now st block wc g"
    and bo: "gc_bound E now st (bs_id block) = Inr bo" and ov: "\<And>b. bo = Some b \<Longrightarrow> no_overflow b"
  shows "contents (ps_db st1) Timings (u32_be t) =
    (if collected bo (\<lambda>b. t \<le> remove_until b) then None
     else if is_masterchain (bs_id block) \<and> seqno (bs_id block) mod STORE_TIMINGS_STEP = 0 \<and> t = g
       then Some (u32_le (seqno (bs_id block)))
     else contents (ps_db st) Timings (u32_be t))"
proof (rule store_block_contents [OF kv run taken])
  fix txs pruned pivot sig_ops bo1 vset1
  assume s: "signature_ops E sigs vset1 (bs_id block) sig_ops" and b: "gc_bound E now st (bs_id block) = Inr bo1"
    and c: "contents (ps_db st1) = batch_effect E (bs_id block) wc g ref txs pruned sig_ops pivot bo1 (contents (ps_db st))"
  have "bo1 = bo" using b bo by simp
  then show ?thesis
    unfolding c batch_effect_def Let_def gc_ops_def collected_def
    using ov by (cases bo)
      (auto simp: bound_ops_timings sig_ops_other [OF s] tx_puts_other timing_ops_def)
qed

section \<open>Reading back\<close>

lemma split_tx_value_tx_value [simp]:
  "split_tx_value (tx_value wc p n ref) = Inr (block_key wc p n, ref)"
  by (simp add: split_tx_value_def tx_value_def block_key_def)

lemma block_key_parts [simp]:
  "hd (block_key wc p n) = wc"
  "take 8 (drop (Suc 0) (block_key wc p n)) = u64_be p"
  "take 4 (drop 9 (block_key wc p n)) = u32_be n"
  "take 9 (block_key wc p n) @ u32_be m = block_key wc p m"
  by (simp_all add: block_key_def)

lemma u32_of_be_u32_be: "u32_of_be (u32_be n) = n"
  by simp

lemma decode_encode_block:
  "dec (enc c) = Inr c \<Longrightarrow> decode_block dec (encode_block enc fh c) = Inr (fh, c)"
  by (simp add: decode_block_def encode_block_def)

lemma decode_encode_signatures:
  "dec (enc c) = Inr c \<Longrightarrow> decode_signatures dec (encode_signatures enc t c) = Inr (t, c)"
  by (simp add: decode_signatures_def encode_signatures_def)

lemma check_ok: "\<not> cancelled n \<Longrightarrow> check cancelled n = (Inr (), Suc n)"
  by (simp add: check_def)

lemma get_decoded_found:
  assumes "kv_laws K contents" and "reads_succeed K db" and "contents db t key = Some v" and "dec v = Inr a"
  shows "get_decoded K db t key msg dec n = (Inr a, n)"
  using assms by (simp add: get_decoded_def of_result_def kv_get_contents)

lemma get_decoded_missing:
  assumes "kv_laws K contents" and "reads_succeed K db" and "contents db t key = None"
  shows "get_decoded K db t key msg dec n = (Inl (Msg msg), n)"
  using assms by (simp add: get_decoded_def of_result_def kv_get_contents)

text \<open>The shard proofs come in the order of the loop, each decoded from its stored pivot block.\<close>

lemma load_pivots_ok:
  assumes kv: "kv_laws (env_kv E) contents" and rd: "reads_succeed (env_kv E) db" and nc: "\<forall>n. \<not> cancelled n"
    and boc: "\<And>c. boc_decode E (boc_encode E c) = Inr c"
  shows "(\<And>s. s \<in> set ns \<Longrightarrow> contents db PivotBlocks (block_key wc p s) =
      Some (encode_block (boc_encode E) (hash_of s) (pivot_of s))) \<Longrightarrow>
    \<exists>k. load_pivots E cancelled db (block_key wc p m) ns acc n = (Inr (acc @ map pivot_of ns), k)"
proof (induction ns arbitrary: acc n)
  case Nil
  then show ?case by (simp add: rs_apply)
next
  case (Cons s ns)
  have g: "get_decoded (env_kv E) db PivotBlocks (block_key wc p s) msg (decode_block (boc_decode E)) k
      = (Inr (hash_of s, pivot_of s), k)" for msg k
    by (rule get_decoded_found [OF kv rd], rule Cons.prems, simp, rule decode_encode_block, rule boc)
  from Cons.IH [of "acc @ [pivot_of s]" "Suc n"] Cons.prems
  show ?case by (simp add: bnd_def check_ok nc g)
qed

lemma shard_chain_ok:
  assumes kv: "kv_laws (env_kv E) contents" and rd: "reads_succeed (env_kv E) db" and nc: "\<forall>n. \<not> cancelled n"
    and boc: "\<And>c. boc_decode E (boc_encode E c) = Inr c"
    and mc: "contents db PivotBlocks (mc_block_key ref) = Some (encode_block (boc_encode E) mc_hash mc_block)"
    and made: "make_mc_proof (env_cells E) (tycho_models (env_cells E)) mc_block sh =
      Inr \<lparr>mc_root = mc_proof, latest_shard_seqno = latest\<rparr>"
    and le: "n \<le> latest" and ov: "n \<noteq> -1"
    and pivots: "\<And>s. n < s \<Longrightarrow> s \<le> latest \<Longrightarrow> contents db PivotBlocks (block_key wc p s) =
      Some (encode_block (boc_encode E) (hash_of s) (pivot_of s))"
  shows "fst (shard_chain E cancelled db (block_key wc p n) n ref sh tx_proof k) =
    Inr (mc_hash, mc_proof, map (\<lambda>i. pivot_of (word_of_nat i)) (rev [Suc (unat n)..<Suc (unat latest)]) @ [tx_proof])"
proof -
  let ?ns = "map word_of_nat (rev [unat (n + 1)..<Suc (unat latest)]) :: u32 list"
  have n1: "unat (n + 1) = Suc (unat n)" by (rule unat_Suc_word [OF ov])
  have "contents db PivotBlocks (block_key wc p s) = Some (encode_block (boc_encode E) (hash_of s) (pivot_of s))"
    if "s \<in> set ?ns" for s
  proof -
    from that n1 obtain i where i: "s = word_of_nat i" "unat n < i" "i \<le> unat latest" 
      by (auto simp del: upt_Suc simp: less_Suc_eq_le Suc_le_eq)
    then have "unat s = i" using unat_less_pow [of latest] by (simp add: unat_of_nat take_bit_nat_eq_self)
    with i have "n < s" "s \<le> latest" by (simp_all add: word_less_nat_alt word_le_nat_alt)
    then show ?thesis by (rule pivots)
  qed
  then have "\<exists>j. load_pivots E cancelled db (block_key wc p n) ?ns [] k = (Inr ([] @ map pivot_of ?ns), j)"
    by (rule load_pivots_ok [OF kv rd nc boc])
  then obtain j where
    "load_pivots E cancelled db (block_key wc p n) ?ns [] k = (Inr (map pivot_of ?ns), j)"
    unfolding append_Nil ..
  moreover have "get_decoded (env_kv E) db PivotBlocks (mc_block_key ref) msg (decode_block (boc_decode E)) i
      = (Inr (mc_hash, mc_block), i)" for msg i
    by (rule get_decoded_found [OF kv rd mc], rule decode_encode_block, rule boc)
  ultimately show ?thesis
    using le by (simp add: shard_chain_def bnd_def made of_result_def guard_def ret_def n1 rev_map del: upt_Suc)
qed

section \<open>Building proofs\<close>

lemma build_from_snapshot_Some:
  "build_from_snapshot E cancelled db account lt key n ref sh k = (Inr r, k1) \<Longrightarrow> r \<noteq> None"
  unfolding build_from_snapshot_def Let_def
  by (auto elim!: bnd_InrE ret_InrE split: prod.splits)

lemma build_proof_None_iff:
  assumes kv: "kv_laws (env_kv E) contents" and rd: "reads_succeed (env_kv E) (ps_db st)"
  shows "build_proof E cancelled st account lt = Inr None \<longleftrightarrow>
    contents (ps_db st) Transactions (tx_key lt (addr_workchain account) (address account)) = None"
proof -
  have no: "fst (build_from_snapshot E cancelled db account lt key n ref sh k) \<noteq> Inr None" for db key n ref sh k
    using build_from_snapshot_Some [of E cancelled db account lt key n ref sh k None] by (metis prod.collapse)
  show ?thesis
    by (cases "contents (ps_db st) Transactions (tx_key lt (addr_workchain account) (address account))")
       (auto simp: build_proof_def kv_get_contents [OF kv rd] no)
qed

lemma build_proof_indexed:
  assumes kv: "kv_laws (env_kv E) contents" and rd: "reads_succeed (env_kv E) (ps_db st)"
    and row: "contents (ps_db st) Transactions (tx_key lt (addr_workchain account) (address account)) =
      Some (tx_value wc p n ref)"
    and sh: "shard_new E (of_i8 wc) p = Some sh"
  shows "build_proof E cancelled st account lt =
    fst (build_from_snapshot E cancelled (ps_snapshot st) account lt (block_key wc p n) n ref sh 0)"
  by (simp add: build_proof_def kv_get_contents [OF kv rd] row sh)

lemma build_proof_stale:
  assumes kv: "kv_laws (env_kv E) contents" and rd: "reads_succeed (env_kv E) (ps_db st)"
    and rs: "reads_succeed (env_kv E) (ps_snapshot st)"
    and row: "contents (ps_db st) Transactions (tx_key lt (addr_workchain account) (address account)) =
      Some (tx_value wc p n ref)"
    and sh: "shard_new E (of_i8 wc) p = Some sh" and nc: "\<forall>n. \<not> cancelled n"
    and missing: "contents (ps_snapshot st) PrunedBlocks (block_key wc p n) = None"
  shows "build_proof E cancelled st account lt = Inl (Msg ''block not found'')"
  unfolding build_proof_indexed [OF kv rd row sh] build_from_snapshot_def Let_def
  by (simp add: bnd_def check_ok nc get_decoded_missing [OF kv rs missing])

text \<open>A masterchain transaction: the proof chain over what the snapshot holds for its block.\<close>

lemma build_from_snapshot_mc:
  assumes kv: "kv_laws (env_kv E) contents" and rs: "reads_succeed (env_kv E) db" and nc: "\<forall>n. \<not> cancelled n"
    and boc: "\<And>c. boc_decode E (boc_encode E c) = Inr c"
    and blk: "contents db PrunedBlocks key = Some (encode_block (boc_encode E) fh pruned)"
    and sig: "contents db Signatures (u32_be ref) = Some (encode_signatures (boc_encode E) since sigs)"
    and mc: "addr_workchain account = -1"
  shows "fst (build_from_snapshot E cancelled db account lt key n ref sh k) =
    bindR (map_err Lib (make_tx_proof (env_cells E) (tycho_models (env_cells E)) pruned (address account) lt True)) (\<lambda>found.
    bindR (ok_or (Msg ''tx not found in block'') found) (\<lambda>tx_proof.
    bindR (map_err Lib (make_proof_chain (env_builder E) fh tx_proof [] since sigs)) (\<lambda>p. Inr (Some p))))"
proof -
  have b: "get_decoded (env_kv E) db PrunedBlocks key msg (decode_block (boc_decode E)) i = (Inr (fh, pruned), i)" for msg i
    by (rule get_decoded_found [OF kv rs blk], rule decode_encode_block, rule boc)
  have s: "get_decoded (env_kv E) db Signatures (u32_be ref) msg (decode_signatures (boc_decode E)) i = (Inr (since, sigs), i)" for msg i
    by (rule get_decoded_found [OF kv rs sig], rule decode_encode_signatures, rule boc)
  let ?tx = "make_tx_proof (env_cells E) (tycho_models (env_cells E)) pruned (address account) lt True"
  note eqs = build_from_snapshot_def Let_def bnd_def check_ok nc b s mc of_result_def ret_def
  consider (err) e where "?tx = Inl e" | (none) "?tx = Inr None" | (found) tx where "?tx = Inr (Some tx)"
    by (cases ?tx; cases "projr ?tx") auto
  then show ?thesis
  proof cases
    case (found tx)
    then show ?thesis
      by (cases "make_proof_chain (env_builder E) fh tx [] since sigs") (simp_all add: eqs)
  qed (simp_all add: eqs)
qed

lemma mc_workchain_byte:
  assumes "is_masterchain bid" and "to_i8 (workchain (shard bid)) = Some wc"
  shows "wc = -1"
proof -
  have "to_i8 (-1) = Some (-1)" by code_simp
  with assms show ?thesis by (simp add: is_masterchain_def)
qed

lemma build_after_store:
  fixes E :: "('c, 's, 'u, 'h, 'g, 'b, 'db) storage_env"
  assumes kv: "kv_laws (env_kv E) contents" and rd: "\<And>db. reads_succeed (env_kv E) db"
    and boc: "\<And>c. boc_decode E (boc_encode E c) = Inr c" and nc: "\<forall>n. \<not> cancelled2 n"
    and run: "store_block E cancelled now block sigs (seqno (bs_id block)) st = (Inr (), st1)"
    and taken: "taken_on now st block wc g" and vset: "current_vset st = Some vset"
    and mc: "is_masterchain (bs_id block)" and sh: "shard_new E (-1) (prefix (shard (bs_id block))) = Some sh"
    and bo: "gc_bound E now st (bs_id block) = Inr bo" and ov: "\<And>b. bo = Some b \<Longrightarrow> no_overflow b"
    and keep: "\<not> collected bo (\<lambda>b. lt \<le> bound_lt b)"
      "\<not> collected bo (\<lambda>b. covers_block b wc (prefix (shard (bs_id block))) (seqno (bs_id block)))"
    and txs: "make_pruned_block (env_cells E) (tycho_models (env_cells E)) record_tx (bs_root block) [] = (Inr pruned, txs)"
    and tx: "(a, lt) \<in> set txs"
  shows "\<exists>sig_cell. prepare_signatures (env_builder E) (env_key_hash E) sigs vset = Inr sig_cell \<and>
    build_proof E cancelled2 (update_snapshot (env_kv E) st1) \<lparr>addr_workchain = -1, address = a\<rparr> lt =
      bindR (map_err Lib (make_tx_proof (env_cells E) (tycho_models (env_cells E)) pruned a lt True)) (\<lambda>found.
      bindR (ok_or (Msg ''tx not found in block'') found) (\<lambda>tx_proof.
      bindR (map_err Lib (make_proof_chain (env_builder E) (file_hash (bs_id block)) tx_proof []
        (utime_since vset) sig_cell)) (\<lambda>p. Inr (Some p))))"
proof -
  let ?id = "bs_id block" and ?st = "update_snapshot (env_kv E) st1"
  have wc: "wc = -1" using mc_workchain_byte [OF mc] taken by (auto simp: taken_on_def)
  obtain cell where cell: "prepare_signatures (env_builder E) (env_key_hash E) sigs vset = Inr cell"
    "contents (ps_db st1) Signatures (u32_be (seqno ?id)) = Some (encode_signatures (boc_encode E) (utime_since vset) cell)"
    by (rule store_block_signatures [OF kv run taken mc vset])
  obtain pivot where piv: "make_pivot_block_proof (env_cells E) (tycho_models (env_cells E)) (is_masterchain ?id) (bs_root block) = Inr pivot"
    by (rule store_block_contents [OF kv run taken])
  have row: "contents (ps_db ?st) Transactions (tx_key lt (addr_workchain \<lparr>addr_workchain = -1, address = a\<rparr>)
      (address \<lparr>addr_workchain = -1, address = a\<rparr>)) = Some (tx_value wc (prefix (shard ?id)) (seqno ?id) (seqno ?id))"
    using store_block_transactions [OF kv run taken txs bo ov, of lt "-1" a] keep(1) tx
    by (simp add: update_snapshot_def wc)
  have snap: "contents (ps_snapshot ?st) = contents (ps_db st1)"
    by (simp add: update_snapshot_def kv_lawsD(4) [OF kv])
  have blk: "contents (ps_snapshot ?st) PrunedBlocks (block_key wc (prefix (shard ?id)) (seqno ?id)) =
      Some (encode_block (boc_encode E) (file_hash ?id) pruned)"
    unfolding snap using store_block_blocks(1) [OF kv run taken bo ov txs piv, of wc "prefix (shard ?id)" "seqno ?id"] keep(2)
    by simp
  have sh1: "shard_new E (of_i8 wc) (prefix (shard ?id)) = Some sh"
    using sh by (simp add: wc of_i8_def)
  have "build_proof E cancelled2 ?st \<lparr>addr_workchain = -1, address = a\<rparr> lt =
      fst (build_from_snapshot E cancelled2 (ps_snapshot ?st) \<lparr>addr_workchain = -1, address = a\<rparr> lt
        (block_key wc (prefix (shard ?id)) (seqno ?id)) (seqno ?id) (seqno ?id) sh 0)"
    by (rule build_proof_indexed [OF kv rd row sh1])
  also have "\<dots> = bindR (map_err Lib (make_tx_proof (env_cells E) (tycho_models (env_cells E)) pruned a lt True)) (\<lambda>found.
      bindR (ok_or (Msg ''tx not found in block'') found) (\<lambda>tx_proof.
      bindR (map_err Lib (make_proof_chain (env_builder E) (file_hash ?id) tx_proof []
        (utime_since vset) cell)) (\<lambda>p. Inr (Some p))))"
    using build_from_snapshot_mc [OF kv rd nc boc blk cell(2) [folded snap], of "\<lparr>addr_workchain = -1, address = a\<rparr>" lt "seqno ?id" sh 0]
    by simp
  finally show ?thesis using cell(1) by blast
qed

section \<open>The bound of a collection\<close>

lemma find_outdated_bound_Some:
  assumes kv: "kv_laws (env_kv E) contents"
    and b: "find_outdated_bound E db until = Inr (Some ob)"
  obtains k v data fh block info where
    "contents db Timings k = Some v" "\<not> bytes_less (u32_be until) k"
    "\<And>k2. k2 \<in> dom (contents db Timings) \<Longrightarrow> bytes_less k k2 \<Longrightarrow> bytes_less (u32_be until) k2"
    "contents db PivotBlocks (mc_block_key (u32_of_le (take 4 v))) = Some data"
    "decode_block (boc_decode E) data = Inr (fh, block)"
    "run_io (parse_latest_shard_blocks (env_cells E) (tycho_models (env_cells E)) block) (usage_new (env_cells E)) = Inr info"
    "ob = \<lparr>remove_until = until, bound_lt = bound_end_lt info,
      bound_blocks = shard_ids info @ [\<lparr>shard = MASTERCHAIN, seqno = u32_of_le (take 4 v)\<rparr>]\<rparr>"
proof -
  from b obtain v where v: "kv_seek_for_prev (env_kv E) db Timings (u32_be until) = Some v"
    by (cases "kv_seek_for_prev (env_kv E) db Timings (u32_be until)") (auto simp: find_outdated_bound_def)
  from kv_lawsD(2) [OF kv, of db Timings "u32_be until"] v obtain k where k:
    "contents db Timings k = Some v" "\<not> bytes_less (u32_be until) k"
    "\<And>k2. k2 \<in> dom (contents db Timings) \<Longrightarrow> bytes_less k k2 \<Longrightarrow> bytes_less (u32_be until) k2"
    by (auto simp: prev_value_def)
  from b v obtain row where row: "kv_get (env_kv E) db PivotBlocks (mc_block_key (u32_of_le (take 4 v))) = Inr row"
    by (auto simp: find_outdated_bound_def Let_def split: if_splits)
  with b v obtain data fh block info where d: "row = Some data"
    "decode_block (boc_decode E) data = Inr (fh, block)"
    "run_io (parse_latest_shard_blocks (env_cells E) (tycho_models (env_cells E)) block) (usage_new (env_cells E)) = Inr info"
    "ob = \<lparr>remove_until = until, bound_lt = bound_end_lt info,
      bound_blocks = shard_ids info @ [\<lparr>shard = MASTERCHAIN, seqno = u32_of_le (take 4 v)\<rparr>]\<rparr>"
    by (auto simp: find_outdated_bound_def Let_def split: if_splits option.splits)
  from kv_lawsD(1) [OF kv row] d(1)
  have "contents db PivotBlocks (mc_block_key (u32_of_le (take 4 v))) = Some data" by simp
  from that [OF k this d(2-4)] show ?thesis .
qed

end
