(* ===== verification/Storage_Node.thy ===== *)
theory Storage_Node
  imports Storage_Effects
begin

text \<open>
  How the node drives the proof storage: the version provider of its database and \<open>init\<close> in
  \<open>proof-api-l2/src/storage/mod.rs\<close>, and the block subscriber \<open>LightSubscriber\<close> of
  \<open>proof-api-l2/src/cmd/run.rs\<close>. The storages of the node core are parameters. The code prepares blocks
  first and handles them afterwards, which are the two kinds of steps here.
\<close>

section \<open>Database version\<close>

datatype migration_error = DbError any_error | WrongName bytes bytes | InvalidDbVersion

definition bytes_of :: "string \<Rightarrow> bytes" where
  "bytes_of s = map of_char s"

definition DB_NAME_KEY :: bytes where "DB_NAME_KEY = bytes_of ''__db_name''"
definition DB_VERSION_KEY :: bytes where "DB_VERSION_KEY = bytes_of ''__db_version''"

definition get_version :: "'db kv_lib \<Rightarrow> string \<Rightarrow> 'db \<Rightarrow> migration_error + bytes option" where
  "get_version K db_name db =
     bindR (map_err DbError (kv_get K db State DB_NAME_KEY)) (\<lambda>stored.
     if stored \<noteq> None \<and> the stored \<noteq> bytes_of db_name
     then Inl (WrongName (bytes_of db_name) (the stored))
     else
       bindR (map_err DbError (kv_get K db State DB_VERSION_KEY)) (\<lambda>v.
       case v of
         None \<Rightarrow> Inr None
       | Some ver \<Rightarrow> if length ver = 3 then Inr (Some ver) else Inl InvalidDbVersion))"

definition set_version :: "'db kv_lib \<Rightarrow> string \<Rightarrow> bytes \<Rightarrow> 'db \<Rightarrow> migration_error + 'db" where
  "set_version K db_name version db =
     bindR (map_err DbError (kv_write K [Put State DB_NAME_KEY (bytes_of db_name)] db)) (\<lambda>db.
     map_err DbError (kv_write K [Put State DB_VERSION_KEY version] db))"

lemma version_keys_differ: "DB_NAME_KEY \<noteq> DB_VERSION_KEY"
  by code_simp

lemma get_set_version:
  assumes kv: "kv_laws K contents" and rd: "reads_succeed K db1"
    and w: "set_version K db_name version db = Inr db1" and "length version = 3"
  shows "get_version K name1 db1 =
    (if bytes_of name1 = bytes_of db_name then Inr (Some version)
     else Inl (WrongName (bytes_of name1) (bytes_of db_name)))"
proof -
  from w obtain db0 where w0: "kv_write K [Put State DB_NAME_KEY (bytes_of db_name)] db = Inr db0"
    "kv_write K [Put State DB_VERSION_KEY version] db0 = Inr db1"
    unfolding set_version_def by auto
  have "contents db1 State DB_NAME_KEY = Some (bytes_of db_name)"
    "contents db1 State DB_VERSION_KEY = Some version"
    using kv_lawsD(3) [OF kv w0(1)] kv_lawsD(3) [OF kv w0(2)] version_keys_differ by simp_all
  with assms(4) show ?thesis by (auto simp: get_version_def kv_get_contents [OF kv rd])
qed

section \<open>The initial validator set\<close>

text \<open>
  What \<open>init\<close> asks of the node core: \<open>'z\<close> is a shard state, \<open>'hd\<close> a block handle, \<open>'pr\<close> a block
  proof, \<open>'x\<close> a masterchain extra and \<open>'cfg\<close> a blockchain config.
\<close>

record ('z, 'hd, 'pr, 'x, 'cfg) core_lib =
  load_state :: "block_id \<Rightarrow> any_error + 'z"
  state_config :: "'z \<Rightarrow> any_error + 'cfg"
  find_prev_key_block :: "u32 \<Rightarrow> 'hd option"
  load_block_proof :: "'hd \<Rightarrow> any_error + 'pr"
  proof_custom :: "'pr \<Rightarrow> any_error + 'x option"
  custom_config :: "'x \<Rightarrow> 'cfg option"
  current_validator_set :: "'cfg \<Rightarrow> any_error + validator_set"

definition init_storage ::
  "('z, 'hd, 'pr, 'x, 'cfg) core_lib \<Rightarrow> block_id \<Rightarrow> ('db proof_storage, any_error, unit) rs" where
  "init_storage N init_block_id st =
     (let vset =
        (if seqno init_block_id = 0 then
           bindR (load_state N init_block_id) (\<lambda>zerostate.
           bindR (state_config N zerostate) (\<lambda>config.
           current_validator_set N config))
         else
           bindR (ok_or (Msg ''no key block found'') (find_prev_key_block N (seqno init_block_id + 1))) (\<lambda>handle.
           bindR (load_block_proof N handle) (\<lambda>block_proof.
           bindR (proof_custom N block_proof) (\<lambda>custom.
           bindR (ok_or (Msg ''invalid key block'') custom) (\<lambda>custom.
           bindR (ok_or (Msg ''key block without config'') (custom_config N custom)) (\<lambda>config.
           current_validator_set N config))))))
      in case vset of
        Inl e \<Rightarrow> (Inl e, st)
      | Inr v \<Rightarrow> (Inr (), set_current_vset v st))"

section \<open>The block subscriber\<close>

record 'c subscriber_cx =
  cx_mc_seqno :: u32
  cx_block :: "'c block_stuff"
  cx_is_key_block :: bool
  cx_signatures :: "any_error + (error + block_signature) list option"
  cx_vset :: "any_error + validator_set"

text \<open>
  The proof part of \<open>prepare_block_impl\<close>: the signatures of a masterchain block come from its
  stored proof, \<open>cx_signatures\<close>, and a shard block has none.
\<close>

definition prepare_block ::
  "('c, 's, 'u, 'h, 'g, 'b, 'db) storage_env \<Rightarrow> polls \<Rightarrow> u32 \<Rightarrow> 'c subscriber_cx \<Rightarrow>
   ('db proof_storage, any_error, unit) rs" where
  "prepare_block E cancelled now cx =
     (let block = cx_block cx in
      bnd (of_result (if is_masterchain (bs_id block)
             then bindR (cx_signatures cx) (ok_or (Msg ''masterchain block proof without signatures''))
             else Inr [])) (\<lambda>sigs.
      store_block E cancelled now block sigs (cx_mc_seqno cx)))"

text \<open>
  The proof part of \<open>handle_block_impl\<close>: masterchain blocks move the snapshot, key blocks bring
  a new validator set.
\<close>

definition handle_block ::
  "'db kv_lib \<Rightarrow> 'c subscriber_cx \<Rightarrow> ('db proof_storage, any_error, unit) rs" where
  "handle_block K cx st =
     (let st = (if is_masterchain (bs_id (cx_block cx)) then update_snapshot K st else st) in
      if cx_is_key_block cx then
        case cx_vset cx of
          Inl e \<Rightarrow> (Inl e, st)
        | Inr v \<Rightarrow> (Inr (), set_current_vset v st)
      else (Inr (), st))"

section \<open>Runs of the subscriber\<close>

text \<open>
  One step prepares or handles a block, at some time and with some answers of the cancellation
  flag; whether the step reports an error or not, the storage goes on from the state it leaves.
\<close>

inductive node_step ::
  "('c, 's, 'u, 'h, 'g, 'b, 'db) storage_env \<Rightarrow> 'db proof_storage \<Rightarrow> 'db proof_storage \<Rightarrow> bool"
  for E where
  prepare: "prepare_block E cancelled now cx st = (r, st1) \<Longrightarrow> node_step E st st1"
| handle: "handle_block (env_kv E) (cx :: 'c subscriber_cx) st = (r, st1) \<Longrightarrow> node_step E st st1"

inductive_cases node_stepE: "node_step E st st1"

inductive reachable ::
  "('c, 's, 'u, 'h, 'g, 'b, 'db) storage_env \<Rightarrow> 'db proof_storage \<Rightarrow> 'db proof_storage \<Rightarrow> bool"
  for E st0 where
  start: "reachable E st0 st0"
| step: "reachable E st0 st \<Longrightarrow> node_step E st st1 \<Longrightarrow> reachable E st0 st1"

text \<open>
  The well-formedness of the tables: every row of the transactions table, under a key the
  storage writes, has the length of its value layout and its block key names the workchain
  of the row; every block and signature row is long enough to be taken apart.
\<close>

definition well_formed :: "contents \<Rightarrow> bool" where
  "well_formed m \<longleftrightarrow>
     (\<forall>lt wc a v. m Transactions (tx_key lt wc a) = Some v \<longrightarrow>
        (\<exists>p n ref. v = tx_value wc p n ref)) \<and>
     (\<forall>k v. m PrunedBlocks k = Some v \<or> m PivotBlocks k = Some v \<longrightarrow> 32 \<le> length v) \<and>
     (\<forall>k v. m Signatures k = Some v \<longrightarrow> 4 \<le> length v) \<and>
     (\<forall>k v. m Timings k = Some v \<longrightarrow> length v = 4)"

fun op_ok :: "batch_op \<Rightarrow> bool" where
  "op_ok (Put Transactions k v) \<longleftrightarrow>
     (\<forall>lt wc a. k = tx_key lt wc a \<longrightarrow> (\<exists>p n ref. v = tx_value wc p n ref))"
| "op_ok (Put PrunedBlocks k v) \<longleftrightarrow> 32 \<le> length v"
| "op_ok (Put PivotBlocks k v) \<longleftrightarrow> 32 \<le> length v"
| "op_ok (Put Signatures k v) \<longleftrightarrow> 4 \<le> length v"
| "op_ok (Put Timings k v) \<longleftrightarrow> length v = 4"
| "op_ok (Put State k v) \<longleftrightarrow> True"
| "op_ok (DeleteRange t a b) \<longleftrightarrow> True"

lemma well_formed_op: "well_formed m \<Longrightarrow> op_ok x \<Longrightarrow> well_formed (apply_op x m)"
  unfolding well_formed_def by (cases x rule: op_ok.cases) (auto split: if_splits)

lemma well_formed_batch: "well_formed m \<Longrightarrow> (\<And>x. x \<in> set ops \<Longrightarrow> op_ok x) \<Longrightarrow> well_formed (apply_batch ops m)"
  by (induction ops arbitrary: m) (simp_all add: well_formed_op)

lemma ex_tx_value: "\<exists>p1 n1 ref1. tx_value wc p n ref = tx_value wc p1 n1 ref1"
  by blast

lemma batch_effect_well_formed:
  assumes "well_formed m" and "signature_ops E sigs vset bid sig_ops"
  shows "well_formed (batch_effect E bid wc g ref txs pruned sig_ops pivot bo m)"
  unfolding batch_effect_def Let_def
  by (intro well_formed_batch assms(1))
     (use assms(2) in \<open>auto simp: ex_tx_value gc_ops_def bound_ops_def tx_puts_def timing_ops_def encode_block_def
       encode_signatures_def signature_ops_def split: option.splits if_splits\<close>)

lemma store_block_well_formed:
  assumes kv: "kv_laws (env_kv E) contents" and wf: "well_formed (contents (ps_db st))"
    and run: "store_block E cancelled now block sigs ref st = (r, st1)"
  shows "well_formed (contents (ps_db st1)) \<and> ps_snapshot st1 = ps_snapshot st"
proof (cases "r = Inr () \<and> (\<exists>wc g. taken_on now st block wc g)")
  case True
  then obtain wc g where t: "taken_on now st block wc g" by blast
  from run True have run1: "store_block E cancelled now block sigs ref st = (Inr (), st1)" by simp
  show ?thesis
    by (rule store_block_contents [OF kv run1 t]) (simp add: batch_effect_well_formed [OF wf])
next
  case False
  have "st1 = st"
  proof (cases r)
    case (Inl e)
    with run show ?thesis by (auto dest: store_block_error)
  next
    case (Inr u)
    with False store_block_skips [of now st block E cancelled sigs ref] run show ?thesis by simp
  qed
  with wf show ?thesis by simp
qed

lemma node_step_well_formed:
  fixes E :: "('a, 's, 'u, 'h, 'g, 'b, 'db) storage_env"
  assumes kv: "kv_laws (env_kv E) contents"
    and wf: "well_formed (contents (ps_db st)) \<and> well_formed (contents (ps_snapshot st))"
    and step: "node_step E st st1"
  shows "well_formed (contents (ps_db st1)) \<and> well_formed (contents (ps_snapshot st1))"
proof -
  from step consider (prepare) cancelled now cx r where "prepare_block E cancelled now cx st = (r, st1)"
    | (handle) cx r where "handle_block (env_kv E) (cx :: 'a subscriber_cx) st = (r, st1)"
    by (rule node_stepE)
  then show ?thesis
  proof cases
  case prepare
  then have "st1 = st \<or> (\<exists>sigs. store_block E cancelled now (cx_block cx) sigs (cx_mc_seqno cx) st = (r, st1))"
    unfolding prepare_block_def Let_def bnd_def of_result_def by (auto split: sum.splits)
  with store_block_well_formed [OF kv wf [THEN conjunct1]] wf show ?thesis by metis
next
  case handle
  then show ?thesis
    using wf by (auto simp: handle_block_def Let_def update_snapshot_def set_current_vset_def
        kv_lawsD(4) [OF kv] split: if_splits sum.splits)
  qed
qed

lemma reachable_well_formed:
  assumes "reachable E st0 st" and kv: "kv_laws (env_kv E) contents"
    and "well_formed (contents (ps_db st0)) \<and> well_formed (contents (ps_snapshot st0))"
  shows "well_formed (contents (ps_db st)) \<and> well_formed (contents (ps_snapshot st))"
  using assms(1,3)
  by (induction rule: reachable.induct) (use node_step_well_formed [OF kv] in \<open>blast+\<close>)

end
