(* ===== verification/Demo_Storage.thy ===== *)
theory Demo_Storage
  imports Storage_Node Demo_Cells
begin

text \<open>
  Concrete parameters for the proof storage: a key-value store on association lists, a cell
  serialization, and the environment over the concrete cells of \<open>Demo_Cells\<close>. They show
  that the hypotheses about these parameters can hold. It models no code of the repository.
\<close>

section \<open>A key-value store\<close>

type_synonym demo_db = "table \<Rightarrow> (bytes \<times> bytes) list"

definition d_contents :: "demo_db \<Rightarrow> contents" where
  "d_contents db t = map_of (db t)"

definition d_seek :: "demo_db \<Rightarrow> table \<Rightarrow> bytes \<Rightarrow> bytes option" where
  "d_seek db t k =
     (let ks = filter (\<lambda>k1. \<not> bytes_less k k1) (map fst (db t)) in
      if ks = [] then None else map_of (db t) (key_bytes (Max (set (map Key ks)))))"

fun d_apply :: "batch_op \<Rightarrow> demo_db \<Rightarrow> demo_db" where
  "d_apply (Put t k v) db = db(t := (k, v) # db t)"
| "d_apply (DeleteRange t a b) db = db(t := filter (\<lambda>(k, v). \<not> in_range a b k) (db t))"

definition demo_kv :: "demo_db kv_lib" where
  "demo_kv = \<lparr>kv_get = (\<lambda>db t k. Inr (map_of (db t) k)), kv_seek_for_prev = d_seek,
     kv_write = (\<lambda>ops db. Inr (fold d_apply ops db)), kv_snapshot = (\<lambda>db. db)\<rparr>"

lemma map_of_filter_key:
  "map_of (filter (\<lambda>(k, v). P k) xs) k = (if P k then map_of xs k else None)"
  by (induction xs) auto

lemma d_apply_contents: "d_contents (d_apply x db) = apply_op x (d_contents db)"
  by (cases x) (auto simp: d_contents_def fun_eq_iff map_of_filter_key)

lemma d_fold_contents: "d_contents (fold d_apply ops db) = apply_batch ops (d_contents db)"
  by (induction ops arbitrary: db) (simp_all add: d_apply_contents)

lemma d_seek_prev: "prev_value (d_contents db t) k (d_seek db t k)"
proof -
  let ?ks = "filter (\<lambda>k1. \<not> bytes_less k k1) (map fst (db t))"
  have dom: "dom (d_contents db t) = set (map fst (db t))"
    by (simp add: d_contents_def dom_map_of_conv_image_fst)
  show ?thesis
  proof (cases "?ks = []")
    case True
    then have "\<forall>k1\<in>set (map fst (db t)). bytes_less k k1" unfolding filter_empty_conv by blast
    with True show ?thesis unfolding prev_value_def dom by (simp add: d_seek_def)
  next
    case False
    let ?m = "Max (set (map Key ?ks))"
    have fin: "finite (set (map Key ?ks))" "set (map Key ?ks) \<noteq> {}"
      using False by (blast, metis set_empty map_is_Nil_conv)
    then have "?m \<in> set (map Key ?ks)" by (rule Max_in)
    then obtain k1 where k1: "?m = Key k1" "k1 \<in> set (map fst (db t))" "\<not> bytes_less k k1" by auto
    then obtain v where v: "map_of (db t) k1 = Some v"
      by (metis dom_map_of_conv_image_fst domD list.set_map)
    have "bytes_less k k2" if "k2 \<in> set (map fst (db t))" "bytes_less k1 k2" for k2
    proof (rule ccontr)
      assume "\<not> bytes_less k k2"
      with that have "Key k2 \<in> set (map Key ?ks)" by auto
      then have "Key k2 \<le> ?m" using fin by simp
      with that(2) k1(1) show False
        by (auto simp: less_eq_db_key_def dest: bytes_less_trans)
    qed
    moreover have "d_seek db t k = Some v"
      using False v k1(1) by (simp only: d_seek_def Let_def if_False db_key.sel)
    ultimately show ?thesis using v k1(3) unfolding prev_value_def dom by (auto simp: d_contents_def)
  qed
qed

lemma demo_kv_laws: "kv_laws demo_kv d_contents"
  unfolding kv_laws_def
  by (simp add: demo_kv_def d_seek_prev d_fold_contents, simp add: d_contents_def)

lemma demo_kv_snapshot [simp]: "kv_snapshot demo_kv db = db"
  by (simp add: demo_kv_def)

lemma demo_reads: "reads_succeed demo_kv db"
  by (simp add: reads_succeed_def demo_kv_def)

section \<open>A serialization of cells\<close>

function d_enc_nat :: "nat \<Rightarrow> bytes" where
  "d_enc_nat n = (if n = 0 then [255] else word_of_nat (n mod 255) # d_enc_nat (n div 255))"
  by auto
termination by (relation "measure id") auto

declare d_enc_nat.simps [simp del]

fun d_dec_nat :: "bytes \<Rightarrow> (nat \<times> bytes) option" where
  "d_dec_nat [] = None"
| "d_dec_nat (b # bs) =
     (if b = 255 then Some (0, bs) else map_option (\<lambda>(n, r). (unat b + 255 * n, r)) (d_dec_nat bs))"

lemma d_dec_enc_nat: "d_dec_nat (d_enc_nat n @ r) = Some (n, r)"
proof (induction n rule: d_enc_nat.induct)
  case (1 n)
  have u: "unat (word_of_nat (n mod 255) :: u8) = n mod 255"
  proof -
    have "n mod 255 < 255" by simp
    then have "n mod 255 < 2 ^ 8" by (rule less_le_trans) simp
    then show ?thesis by (simp add: unat_of_nat take_bit_nat_eq_self)
  qed
  have "n mod 255 < 255" by simp
  then have "word_of_nat (n mod 255) \<noteq> (255 :: u8)" using u by auto
  with 1 u show ?case by (subst d_enc_nat.simps) simp
qed

definition d_enc_int :: "int \<Rightarrow> bytes" where
  "d_enc_int i = (if i < 0 then 1 else 0) # d_enc_nat (nat \<bar>i\<bar>)"

fun d_dec_int :: "bytes \<Rightarrow> (int \<times> bytes) option" where
  "d_dec_int [] = None"
| "d_dec_int (b # bs) = map_option (\<lambda>(n, r). (if b = 1 then - int n else int n, r)) (d_dec_nat bs)"

lemma d_dec_enc_int: "d_dec_int (d_enc_int i @ r) = Some (i, r)"
  by (simp add: d_enc_int_def d_dec_enc_nat)

fun d_dec_many :: "(bytes \<Rightarrow> ('a \<times> bytes) option) \<Rightarrow> nat \<Rightarrow> bytes \<Rightarrow> ('a list \<times> bytes) option" where
  "d_dec_many f 0 bs = Some ([], bs)"
| "d_dec_many f (Suc n) bs =
     (case f bs of None \<Rightarrow> None
      | Some (x, r) \<Rightarrow> map_option (\<lambda>(xs, r). (x # xs, r)) (d_dec_many f n r))"

lemma d_dec_many_map:
  "(\<And>x r. x \<in> set xs \<Longrightarrow> f (e x @ r) = Some (x, r)) \<Longrightarrow>
   d_dec_many f (length xs) (concat (map e xs) @ r) = Some (xs, r)"
  by (induction xs) simp_all

fun d_enc_cell :: "dcell \<Rightarrow> bytes" where
  "d_enc_cell (DC ts rs) =
     d_enc_nat (length ts) @ concat (map d_enc_int ts) @ d_enc_nat (length rs) @ concat (map d_enc_cell rs)"

fun d_dec_cell :: "nat \<Rightarrow> bytes \<Rightarrow> (dcell \<times> bytes) option" where
  "d_dec_cell 0 bs = None"
| "d_dec_cell (Suc k) bs =
     (case d_dec_nat bs of None \<Rightarrow> None | Some (n, bs) \<Rightarrow>
     (case d_dec_many d_dec_int n bs of None \<Rightarrow> None | Some (ts, bs) \<Rightarrow>
     (case d_dec_nat bs of None \<Rightarrow> None | Some (m, bs) \<Rightarrow>
     (case d_dec_many (d_dec_cell k) m bs of None \<Rightarrow> None | Some (rs, bs) \<Rightarrow> Some (DC ts rs, bs)))))"

lemma d_dec_enc_cell: "length (d_enc_cell c) < k \<Longrightarrow> d_dec_cell k (d_enc_cell c @ r) = Some (c, r)"
proof (induction c arbitrary: k r rule: d_enc_cell.induct)
  case (1 ts rs)
  then obtain j where k: "k = Suc j" by (cases k) auto
  have "d_dec_cell j (d_enc_cell c @ r) = Some (c, r)" if "c \<in> set rs" for c r
  proof (rule "1.IH" [OF that])
    have "length (d_enc_cell c) \<le> length (concat (map d_enc_cell rs))"
      using that by (auto simp: length_concat intro: member_le_sum_list)
    moreover have "0 < length (d_enc_nat (length ts))" "0 < length (d_enc_nat (length rs))"
      by ((subst d_enc_nat.simps, simp)+)
    ultimately show "length (d_enc_cell c) < j" using "1.prems" k
      unfolding d_enc_cell.simps length_append by linarith
  qed
  then have "d_dec_many (d_dec_cell j) (length rs) (concat (map d_enc_cell rs) @ r) = Some (rs, r)"
    by (rule d_dec_many_map)
  moreover have "d_dec_many d_dec_int (length ts) (concat (map d_enc_int ts) @ q) = Some (ts, q)" for q
    by (rule d_dec_many_map) (rule d_dec_enc_int)
  ultimately show ?case by (simp add: k d_dec_enc_nat)
qed

definition d_boc_decode :: "bytes \<Rightarrow> error + dcell" where
  "d_boc_decode bs =
     (case d_dec_cell (Suc (length bs)) bs of Some (c, []) \<Rightarrow> Inr c | _ \<Rightarrow> Inl InvalidData)"

lemma d_boc_roundtrip: "d_boc_decode (d_enc_cell c) = Inr c"
  using d_dec_enc_cell [of c "Suc (length (d_enc_cell c))" "[]"] by (simp add: d_boc_decode_def)

section \<open>The environment and a block\<close>

definition demo_env ::
  "(dcell, dslice, dcell list, dcell, (int \<times> dcell) list, dbuilder, demo_db) storage_env" where
  "demo_env = \<lparr>env_cells = demo_lib, env_builder = demo_builder, env_key_hash = (\<lambda>k. k), env_kv = demo_kv,
     boc_encode = d_enc_cell, boc_decode = d_boc_decode,
     shard_new = (\<lambda>w p. Some \<lparr>workchain = w, prefix = p\<rparr>)\<rparr>"

definition demo_vset2 :: validator_set where
  "demo_vset2 = \<lparr>utime_since = 1, utime_until = 2, main_count = 2, total_weight = 9,
     validators = [\<lparr>public_key = 1, weight = 4\<rparr>, \<lparr>public_key = 2, weight = 5\<rparr>]\<rparr>"

definition demo_storage :: "demo_db proof_storage" where
  "demo_storage = set_current_vset demo_vset2 (new_storage demo_kv (\<lambda>_. []) 1000)"

definition demo_stuff :: "u32 \<Rightarrow> dcell block_stuff" where
  "demo_stuff n = \<lparr>bs_id = \<lparr>shard = MASTERCHAIN, seqno = n, root_hash = 8, file_hash = 9\<rparr>,
     bs_root = demo_tycho_block True, bs_gen_utime = Inr 2000\<rparr>"

definition demo_signed :: "(error + block_signature) list" where
  "demo_signed = [Inr \<lparr>node_id_short = 2, signature = 20\<rparr>, Inr \<lparr>node_id_short = 1, signature = 10\<rparr>]"

lemma demo_env_simps [simp]:
  "env_cells demo_env = demo_lib" "env_builder demo_env = demo_builder" "env_key_hash demo_env = (\<lambda>k. k)"
  "env_kv demo_env = demo_kv" "boc_encode demo_env = d_enc_cell" "boc_decode demo_env = d_boc_decode"
  "shard_new demo_env w p = Some \<lparr>workchain = w, prefix = p\<rparr>"
  by (simp_all add: demo_env_def)

lemma demo_tycho_pruned:
  "make_pruned_block demo_lib (tycho_models demo_lib) record_tx (demo_tycho_block True) [] =
     (Inr (demo_tycho_block True), [(5, 11), (5, 12), (6, 21)])"
  by code_simp

lemma demo_tycho_pivot:
  "make_pivot_block_proof demo_lib (tycho_models demo_lib) True (demo_tycho_block True) = Inr (demo_tycho_block True)"
  by code_simp

lemma demo_prepared:
  "prepare_signatures demo_builder (\<lambda>k. k) demo_signed demo_vset2 = Inr (DC [0, 10, 1, 20] [])"
  by code_simp

lemma demo_taken: "taken_on 2500 demo_storage (demo_stuff n) (-1) 2000"
proof -
  have "to_i8 (workchain MASTERCHAIN) = Some (-1)" by code_simp
  moreover have "\<not> ttl_secs 1000 < saturating_sub 2500 2000" by code_simp
  ultimately show ?thesis
    by (simp add: taken_on_def demo_stuff_def demo_storage_def set_current_vset_def new_storage_def)
qed

text \<open>The block of sequence number 7 is stored; no collection is due.\<close>

lemma demo_store:
  "fst (store_block demo_env (\<lambda>_. False) 2500 (demo_stuff 7) demo_signed 7 demo_storage) = Inr ()"
proof -
  have mc: "is_masterchain (bs_id (demo_stuff 7))" "bs_root (demo_stuff 7) = demo_tycho_block True"
    by (simp_all add: demo_stuff_def is_masterchain_def MASTERCHAIN_def)
  have step: "seqno (bs_id (demo_stuff 7)) mod STORE_TIMINGS_STEP \<noteq> 0"
    by code_simp
  have txs: "make_pruned_block demo_lib (tycho_models demo_lib) (put_tx (\<lambda>_. False) (-1) v)
      (demo_tycho_block True) (ops, n) = (Inr (demo_tycho_block True),
        (ops @ tx_puts (-1) v [(5, 11), (5, 12), (6, 21)], n + 3))" for v ops n
    unfolding pruned_block_callback [OF demo_tycho_pruned]
    by (simp add: call_each_Cons bnd_def put_tx_def tx_puts_def)
  show ?thesis
    using demo_taken [of 7] mc step
    by (auto simp: store_block_def taken_on_def store_batch_def Let_def txs demo_tycho_pivot demo_prepared
        demo_storage_def set_current_vset_def demo_kv_def)
qed

text \<open>A storage with an old pivot block and an old transaction, which the block 200 collects.\<close>

definition demo_old_db :: demo_db where
  "demo_old_db t =
     (case t of
        Timings \<Rightarrow> [(u32_be 1400, u32_le 100)]
      | PivotBlocks \<Rightarrow> [(mc_block_key 100, encode_block d_enc_cell 3 (demo_tycho_block True))]
      | Transactions \<Rightarrow> [(tx_key 25 0 77, tx_value 0 1 5 100)]
      | _ \<Rightarrow> [])"

definition demo_old :: "demo_db proof_storage" where
  "demo_old = demo_storage\<lparr>ps_db := demo_old_db\<rparr>"

definition demo_bound :: outdated_bound where
  "demo_bound = \<lparr>remove_until = 1500, bound_lt = 30,
     bound_blocks = [\<lparr>shard = \<lparr>workchain = 0, prefix = 0x4000000000000000\<rparr>, seqno = 7\<rparr>,
       \<lparr>shard = \<lparr>workchain = 0, prefix = 0xc000000000000000\<rparr>, seqno = 9\<rparr>,
       \<lparr>shard = MASTERCHAIN, seqno = 100\<rparr>]\<rparr>"

lemma demo_latest_ids:
  "run_io (parse_latest_shard_blocks demo_lib (tycho_models demo_lib) (demo_tycho_block True)) [] =
    Inr \<lparr>bound_end_lt = 30, shard_ids = [\<lparr>shard = \<lparr>workchain = 0, prefix = 0x4000000000000000\<rparr>, seqno = 7\<rparr>,
       \<lparr>shard = \<lparr>workchain = 0, prefix = 0xc000000000000000\<rparr>, seqno = 9\<rparr>]\<rparr>"
  by code_simp

lemma demo_find_bound: "find_outdated_bound demo_env demo_old_db 1500 = Inr (Some demo_bound)"
proof -
  have "\<not> bytes_less (u32_be 1500) (u32_be 1400)" by (simp add: bytes_less_of_be)
  then have seek: "d_seek demo_old_db Timings (u32_be 1500) = Some (u32_le 100)"
    by (simp add: d_seek_def demo_old_db_def)
  have "usage_new demo_lib = []" by (simp add: demo_lib_def)
  then show ?thesis
    by (simp add: find_outdated_bound_def demo_kv_def seek demo_old_db_def
        decode_encode_block d_boc_roundtrip demo_latest_ids demo_bound_def)
qed

lemma demo_remove_until: "saturating_sub 2500 (ttl_secs 1000) = 1500"
  by code_simp

lemma demo_step: "seqno (bs_id (demo_stuff 200)) mod STORE_TIMINGS_STEP = 0"
  by code_simp

lemma demo_mc: "is_masterchain (bs_id (demo_stuff n))" "bs_root (demo_stuff n) = demo_tycho_block True"
  by (simp_all add: demo_stuff_def is_masterchain_def MASTERCHAIN_def)

lemma demo_gc_bound: "gc_bound demo_env 2500 demo_old (bs_id (demo_stuff 200)) = Inr (Some demo_bound)"
  by (simp add: gc_bound_def demo_mc demo_step demo_old_def demo_storage_def set_current_vset_def
      new_storage_def demo_remove_until demo_find_bound)

lemma demo_taken_old: "taken_on 2500 demo_old (demo_stuff n) (-1) 2000"
  using demo_taken [of n] by (simp add: taken_on_def demo_old_def)

lemma demo_put_txs:
  "make_pruned_block demo_lib (tycho_models demo_lib) (put_tx (\<lambda>_. False) (-1) v)
      (demo_tycho_block True) (ops, n) = (Inr (demo_tycho_block True),
        (ops @ tx_puts (-1) v [(5, 11), (5, 12), (6, 21)], n + 3))"
  unfolding pruned_block_callback [OF demo_tycho_pruned]
  by (simp add: call_each_Cons bnd_def put_tx_def tx_puts_def)

lemma demo_store_old:
  "fst (store_block demo_env (\<lambda>_. False) 2500 (demo_stuff 200) demo_signed 200 demo_old) = Inr ()"
  using demo_taken_old [of 200] demo_mc [of 200] demo_step
  by (auto simp: store_block_def taken_on_def store_batch_def Let_def demo_put_txs demo_tycho_pivot demo_prepared
      demo_old_def demo_storage_def set_current_vset_def new_storage_def demo_remove_until demo_find_bound
      demo_kv_def)

end
