(* ===== verification/Storage_Properties.thy ===== *)
theory Storage_Properties
  imports Demo_Storage Block_Properties
begin

text \<open>
  The properties of the proof storage of \<open>proof-api-l2\<close>: its keys, what storing a block and
  collecting garbage do to the tables, what is built from them, and the invariant of every run
  of the block subscriber. Each is followed by a witness on the concrete store.
\<close>

section \<open>Keys and values\<close>

text \<open>The bytewise order in which the database keeps transaction keys is the order of logical
  time first, then workchain byte, then account; and the range a collection deletes up to a
  logical time covers exactly the keys of transactions that are not later.\<close>

lemma tx_key_order:
  "(bytes_less (tx_key lt wc a) (tx_key lt1 wc1 a1) \<longleftrightarrow>
      lt < lt1 \<or> lt = lt1 \<and> (wc < wc1 \<or> wc = wc1 \<and> a < a1)) \<and>
   (bound_lt b \<noteq> -1 \<longrightarrow>
      (in_range (replicate TX_KEY_LEN 0) (bound_tx_key b) (tx_key lt wc a) \<longleftrightarrow> lt \<le> bound_lt b))"
  by (simp add: tx_key_less bound_tx_key_def tx_range)

lemma tx_key_order_witness:
  "in_range (replicate TX_KEY_LEN 0) (bound_tx_key \<lparr>remove_until = 1, bound_lt = 30, bound_blocks = []\<rparr>)
     (tx_key 30 (-1) 5)"
  using tx_key_order [where b = "\<lparr>remove_until = 1, bound_lt = 30, bound_blocks = []\<rparr>"
      and lt = 30 and wc = "-1" and a = 5]
  by simp



text \<open>Blocks, signatures and transaction rows are read back as they were written, given that the
  cell serialization reads back what it writes.\<close>

lemma value_roundtrips:
  assumes "\<And>c. dec (enc c) = Inr c"
  shows "decode_block dec (encode_block enc fh cell) = Inr (fh, cell) \<and>
    decode_signatures dec (encode_signatures enc since cell) = Inr (since, cell) \<and>
    split_tx_value (tx_value wc p n ref) = Inr (block_key wc p n, ref) \<and>
    (to_i8 w = Some wc \<longrightarrow> of_i8 wc = w)"
  by (simp add: decode_encode_block decode_encode_signatures assms of_i8_to_i8)

theorem value_roundtrips_witness:
  "decode_block d_boc_decode (encode_block d_enc_cell 9 (DC [1] [])) = Inr (9, DC [1] [])"
  using value_roundtrips [of d_boc_decode d_enc_cell 9 "DC [1] []"] d_boc_roundtrip by simp

section \<open>Storing a block\<close>

text \<open>C11. \<open>store_block\<close> is atomic: if it reports an error, and also if it skips the block because of
  its workchain or its age, neither the database nor anything else in the storage changes.\<close>

theorem store_block_atomic:
  "(store_block E cancelled now block sigs ref st = (Inl e, st1) \<longrightarrow> st1 = st) \<and>
   (\<not> (\<exists>wc g. taken_on now st block wc g) \<longrightarrow> snd (store_block E cancelled now block sigs ref st) = st)"
  using store_block_error [of E cancelled now block sigs ref st e st1]
    store_block_skips [of now st block E cancelled sigs ref] by blast

theorem store_block_atomic_witness:
  "snd (store_block demo_env (\<lambda>_. False) 5000 (demo_stuff 7) demo_signed 7 demo_storage) = demo_storage"
proof -
  have "ttl_secs 1000 < saturating_sub 5000 2000" by code_simp
  then have "\<not> (\<exists>wc g. taken_on 5000 demo_storage (demo_stuff 7) wc g)"
    by (auto simp: taken_on_def demo_stuff_def demo_storage_def set_current_vset_def new_storage_def)
  with store_block_atomic [where now = 5000 and st = demo_storage and block = "demo_stuff 7"
      and E = demo_env and cancelled = "\<lambda>_. False" and sigs = demo_signed and ref = 7]
  show ?thesis by blast
qed

text \<open>C8. After a block was stored, a row of the transactions table is gone if a collection ran and the
  row is not later than its bound; otherwise it points to the new block if the block holds that
  transaction, and is unchanged if not.\<close>

theorem transactions_after_store:
  assumes "kv_laws (env_kv E) contents"
    and "store_block E cancelled now block sigs ref st = (Inr (), st1)" and "taken_on now st block wc g"
    and "make_pruned_block (env_cells E) (tycho_models (env_cells E)) record_tx (bs_root block) [] = (Inr pruned, txs)"
    and "gc_bound E now st (bs_id block) = Inr bo" and "\<And>b. bo = Some b \<Longrightarrow> no_overflow b"
  shows "contents (ps_db st1) Transactions (tx_key lt w a) =
    (if collected bo (\<lambda>b. lt \<le> bound_lt b) then None
     else if w = wc \<and> (a, lt) \<in> set txs
       then Some (tx_value wc (prefix (shard (bs_id block))) (seqno (bs_id block)) ref)
     else contents (ps_db st) Transactions (tx_key lt w a))"
  using assms by (rule store_block_transactions)

theorem transactions_after_store_witness:
  "d_contents (ps_db (snd (store_block demo_env (\<lambda>_. False) 2500 (demo_stuff 200) demo_signed 200 demo_old)))
     Transactions (tx_key 25 0 77) = None \<and>
   d_contents (ps_db demo_old) Transactions (tx_key 25 0 77) \<noteq> None"
proof -
  have run: "store_block demo_env (\<lambda>_. False) 2500 (demo_stuff 200) demo_signed 200 demo_old =
      (Inr (), snd (store_block demo_env (\<lambda>_. False) 2500 (demo_stuff 200) demo_signed 200 demo_old))"
    using demo_store_old by (simp add: prod_eq_iff)
  have pr: "make_pruned_block (env_cells demo_env) (tycho_models (env_cells demo_env)) record_tx
      (bs_root (demo_stuff 200)) [] = (Inr (demo_tycho_block True), [(5, 11), (5, 12), (6, 21)])"
    using demo_tycho_pruned by (simp add: demo_stuff_def)
  have kv: "kv_laws (env_kv demo_env) d_contents" by (simp add: demo_kv_laws)
  have "no_overflow demo_bound" by (simp add: no_overflow_def demo_bound_def)
  then show ?thesis
    using transactions_after_store [OF kv run demo_taken_old pr demo_gc_bound, of 25 0 77]
    by (auto simp: collected_def demo_bound_def demo_old_def d_contents_def demo_old_db_def)
qed

text \<open>After a block was stored, the two block tables lost exactly the blocks the collection's bound
  covers and gained the new block, and the timings table lost the entries up to the collection's
  time and gained an entry for every hundredth masterchain block that is not itself in that range.\<close>

lemma blocks_after_store:
  assumes "kv_laws (env_kv E) contents"
    and "store_block E cancelled now block sigs ref st = (Inr (), st1)" and "taken_on now st block wc g"
    and "gc_bound E now st (bs_id block) = Inr bo" and "\<And>b. bo = Some b \<Longrightarrow> no_overflow b"
    and "make_pruned_block (env_cells E) (tycho_models (env_cells E)) record_tx (bs_root block) [] = (Inr pruned, txs)"
    and "make_pivot_block_proof (env_cells E) (tycho_models (env_cells E)) (is_masterchain (bs_id block)) (bs_root block) = Inr pivot"
  shows "contents (ps_db st1) PrunedBlocks (block_key w p n) =
      (if collected bo (\<lambda>b. covers_block b w p n) then None
       else if w = wc \<and> p = prefix (shard (bs_id block)) \<and> n = seqno (bs_id block)
         then Some (encode_block (boc_encode E) (file_hash (bs_id block)) pruned)
       else contents (ps_db st) PrunedBlocks (block_key w p n)) \<and>
    contents (ps_db st1) PivotBlocks (block_key w p n) =
      (if collected bo (\<lambda>b. covers_block b w p n) then None
       else if w = wc \<and> p = prefix (shard (bs_id block)) \<and> n = seqno (bs_id block)
         then Some (encode_block (boc_encode E) (file_hash (bs_id block)) pivot)
       else contents (ps_db st) PivotBlocks (block_key w p n)) \<and>
    contents (ps_db st1) Timings (u32_be t) =
      (if collected bo (\<lambda>b. t \<le> remove_until b) then None
       else if is_masterchain (bs_id block) \<and> seqno (bs_id block) mod STORE_TIMINGS_STEP = 0 \<and> t = g
         then Some (u32_le (seqno (bs_id block)))
       else contents (ps_db st) Timings (u32_be t))"
  by (intro conjI)
     (rule store_block_blocks(1) [OF assms(1-4) _ assms(6,7)], erule assms(5),
      rule store_block_blocks(2) [OF assms(1-4) _ assms(6,7)], erule assms(5),
      rule store_block_timings [OF assms(1-4)], erule assms(5))

lemma blocks_after_store_witness:
  "d_contents (ps_db (snd (store_block demo_env (\<lambda>_. False) 2500 (demo_stuff 200) demo_signed 200 demo_old)))
     PivotBlocks (mc_block_key 100) = None"
proof -
  have run: "store_block demo_env (\<lambda>_. False) 2500 (demo_stuff 200) demo_signed 200 demo_old =
      (Inr (), snd (store_block demo_env (\<lambda>_. False) 2500 (demo_stuff 200) demo_signed 200 demo_old))"
    using demo_store_old by (simp add: prod_eq_iff)
  have pr: "make_pruned_block (env_cells demo_env) (tycho_models (env_cells demo_env)) record_tx
      (bs_root (demo_stuff 200)) [] = (Inr (demo_tycho_block True), [(5, 11), (5, 12), (6, 21)])"
    "make_pivot_block_proof (env_cells demo_env) (tycho_models (env_cells demo_env))
      (is_masterchain (bs_id (demo_stuff 200))) (bs_root (demo_stuff 200)) = Inr (demo_tycho_block True)"
    using demo_tycho_pruned demo_tycho_pivot
    by (simp_all add: demo_stuff_def is_masterchain_def MASTERCHAIN_def)
  have kv: "kv_laws (env_kv demo_env) d_contents" by (simp add: demo_kv_laws)
  have ov: "no_overflow demo_bound" by (simp add: no_overflow_def demo_bound_def)
  have "to_i8 (workchain MASTERCHAIN) = Some (-1)" by code_simp
  then have "covers_block demo_bound (-1) (prefix MASTERCHAIN) 100"
    by (simp add: covers_block_def demo_bound_def)
  with blocks_after_store [OF kv run demo_taken_old demo_gc_bound _ pr, of "-1" "prefix MASTERCHAIN" 100] ov
  show ?thesis by (simp add: collected_def mc_block_key_def)
qed

section \<open>Building proofs\<close>

text \<open>C7. A masterchain transaction that \<open>store_block\<close> indexed, and no collection of the same call
  removed, can be proved once the snapshot is updated: \<open>build_proof\<close> then returns exactly the proof
  chain over the transaction proof from the stored pruned block, the file hash of the block, and the
  prepared signatures with the start time of the validator set, as the storage was given them.\<close>

theorem store_then_prove:
  fixes E :: "('c, 's, 'u, 'h, 'g, 'b, 'db) storage_env"
  assumes "kv_laws (env_kv E) contents" and "\<And>db. reads_succeed (env_kv E) db"
    and "\<And>c. boc_decode E (boc_encode E c) = Inr c" and "\<forall>n. \<not> cancelled2 n"
    and "store_block E cancelled now block sigs (seqno (bs_id block)) st = (Inr (), st1)"
    and "taken_on now st block wc g" and "current_vset st = Some vset"
    and "is_masterchain (bs_id block)" and "shard_new E (-1) (prefix (shard (bs_id block))) = Some sh"
    and "gc_bound E now st (bs_id block) = Inr bo" and "\<And>b. bo = Some b \<Longrightarrow> no_overflow b"
    and "\<not> collected bo (\<lambda>b. lt \<le> bound_lt b)"
    and "\<not> collected bo (\<lambda>b. covers_block b wc (prefix (shard (bs_id block))) (seqno (bs_id block)))"
    and "make_pruned_block (env_cells E) (tycho_models (env_cells E)) record_tx (bs_root block) [] = (Inr pruned, txs)"
    and "(a, lt) \<in> set txs"
  shows "\<exists>sig_cell. prepare_signatures (env_builder E) (env_key_hash E) sigs vset = Inr sig_cell \<and>
    build_proof E cancelled2 (update_snapshot (env_kv E) st1) \<lparr>addr_workchain = -1, address = a\<rparr> lt =
      bindR (map_err Lib (make_tx_proof (env_cells E) (tycho_models (env_cells E)) pruned a lt True)) (\<lambda>found.
      bindR (ok_or (Msg ''tx not found in block'') found) (\<lambda>tx_proof.
      bindR (map_err Lib (make_proof_chain (env_builder E) (file_hash (bs_id block)) tx_proof []
        (utime_since vset) sig_cell)) (\<lambda>p. Inr (Some p))))"
  using assms by (rule build_after_store)

theorem store_then_prove_witness:
  "\<exists>p. build_proof demo_env (\<lambda>_. False)
     (update_snapshot demo_kv (snd (store_block demo_env (\<lambda>_. False) 2500 (demo_stuff 7) demo_signed 7 demo_storage)))
     \<lparr>addr_workchain = -1, address = 6\<rparr> 21 = Inr (Some p)"
proof -
  let ?st1 = "snd (store_block demo_env (\<lambda>_. False) 2500 (demo_stuff 7) demo_signed 7 demo_storage)"
  have "seqno (bs_id (demo_stuff 7)) = 7" by (simp add: demo_stuff_def)
  then have run: "store_block demo_env (\<lambda>_. False) 2500 (demo_stuff 7) demo_signed (seqno (bs_id (demo_stuff 7)))
      demo_storage = (Inr (), ?st1)"
    using demo_store by (simp add: prod_eq_iff)
  have pr: "make_pruned_block (env_cells demo_env) (tycho_models (env_cells demo_env)) record_tx
      (bs_root (demo_stuff 7)) [] = (Inr (demo_tycho_block True), [(5, 11), (5, 12), (6, 21)])"
    using demo_tycho_pruned by (simp add: demo_stuff_def)
  have kv: "kv_laws (env_kv demo_env) d_contents" by (simp add: demo_kv_laws)
  have rd: "\<And>db. reads_succeed (env_kv demo_env) db" by (simp add: demo_reads)
  have boc: "\<And>c. boc_decode demo_env (boc_encode demo_env c) = Inr c" by (simp add: d_boc_roundtrip)
  have nc: "\<forall>n. \<not> (\<lambda>_::nat. False) n" by simp
  have sh: "shard_new demo_env (-1) (prefix (shard (bs_id (demo_stuff 7)))) =
      Some \<lparr>workchain = -1, prefix = prefix (shard (bs_id (demo_stuff 7)))\<rparr>" by simp
  have bo: "gc_bound demo_env 2500 demo_storage (bs_id (demo_stuff 7)) = Inr None"
  proof -
    have "seqno (bs_id (demo_stuff 7)) mod STORE_TIMINGS_STEP \<noteq> 0" by code_simp
    then show ?thesis by (simp add: gc_bound_def)
  qed
  have vs: "current_vset demo_storage = Some demo_vset2" by (simp add: demo_storage_def set_current_vset_def)
  have tx: "make_tx_proof demo_lib (tycho_models demo_lib) (demo_tycho_block True) 6 21 True =
      Inr (Some (demo_tycho_block True))"
    by code_simp
  have fields: "file_hash (bs_id (demo_stuff 7)) = 9" "utime_since demo_vset2 = 1"
    by (simp_all add: demo_stuff_def demo_vset2_def)
  have chain: "is_ok (make_proof_chain demo_builder 9 (demo_tycho_block True) [] 1 (DC [0, 10, 1, 20] []))"
    by code_simp
  have "\<exists>sig_cell. prepare_signatures (env_builder demo_env) (env_key_hash demo_env) demo_signed demo_vset2 = Inr sig_cell \<and>
    build_proof demo_env (\<lambda>_. False) (update_snapshot (env_kv demo_env) ?st1) \<lparr>addr_workchain = -1, address = 6\<rparr> 21 =
      bindR (map_err Lib (make_tx_proof (env_cells demo_env) (tycho_models (env_cells demo_env)) (demo_tycho_block True) 6 21 True)) (\<lambda>found.
      bindR (ok_or (Msg ''tx not found in block'') found) (\<lambda>tx_proof.
      bindR (map_err Lib (make_proof_chain (env_builder demo_env) (file_hash (bs_id (demo_stuff 7))) tx_proof []
        (utime_since demo_vset2) sig_cell)) (\<lambda>p. Inr (Some p))))"
    by (rule store_then_prove [OF kv rd boc nc run demo_taken vs demo_mc(1) sh bo _ _ _ pr])
       (simp_all add: collected_def)
  then show ?thesis
    using chain by (cases "make_proof_chain demo_builder 9 (demo_tycho_block True) [] 1 (DC [0, 10, 1, 20] [])")
      (auto simp: demo_prepared tx fields)
qed

text \<open>\<open>build_proof\<close> answers "no such transaction" exactly if the live index has no row for the
  account and logical time; whatever goes wrong after a row was found is an error, never \<open>None\<close>.\<close>

lemma build_proof_none_iff:
  assumes "kv_laws (env_kv E) contents" and "reads_succeed (env_kv E) (ps_db st)"
  shows "build_proof E cancelled st account lt = Inr None \<longleftrightarrow>
    contents (ps_db st) Transactions (tx_key lt (addr_workchain account) (address account)) = None"
  using assms by (rule build_proof_None_iff)

theorem build_proof_none_iff_witness:
  "build_proof demo_env (\<lambda>_. False) demo_old \<lparr>addr_workchain = 0, address = 78\<rparr> 25 = Inr None"
proof -
  have kv: "kv_laws (env_kv demo_env) d_contents" "reads_succeed (env_kv demo_env) (ps_db demo_old)"
    by (simp_all add: demo_kv_laws demo_reads)
  from build_proof_none_iff [OF kv, of "\<lambda>_. False" "\<lparr>addr_workchain = 0, address = 78\<rparr>" 25]
  show ?thesis by (simp add: d_contents_def demo_old_def demo_old_db_def)
qed

text \<open>The index is read from the live database but the blocks from the snapshot: a transaction
  stored after the last \<open>update_snapshot\<close> is reported as an error, "block not found".\<close>

lemma build_proof_stale_snapshot:
  assumes "kv_laws (env_kv E) contents" and "reads_succeed (env_kv E) (ps_db st)"
    and "reads_succeed (env_kv E) (ps_snapshot st)"
    and "contents (ps_db st) Transactions (tx_key lt (addr_workchain account) (address account)) =
      Some (tx_value wc p n ref)"
    and "shard_new E (of_i8 wc) p = Some sh" and "\<forall>n. \<not> cancelled n"
    and "contents (ps_snapshot st) PrunedBlocks (block_key wc p n) = None"
  shows "build_proof E cancelled st account lt = Inl (Msg ''block not found'')"
  using assms by (rule build_proof_stale)

lemma build_proof_stale_snapshot_witness:
  "build_proof demo_env (\<lambda>_. False) demo_old \<lparr>addr_workchain = 0, address = 77\<rparr> 25 = Inl (Msg ''block not found'')"
  by (rule build_proof_stale_snapshot [where contents = d_contents and wc = 0 and p = 1 and n = 5 and ref = 100])
     (simp_all add: demo_kv_laws demo_reads d_contents_def demo_old_def demo_old_db_def demo_storage_def
       set_current_vset_def new_storage_def)

text \<open>C12. For a shard transaction the chain is anchored at the referencing masterchain block and
  carries the stored pivot proofs of all later shard blocks up to the one the masterchain block
  names, latest first, followed by the transaction proof.\<close>

theorem shard_chain_order:
  assumes "kv_laws (env_kv E) contents" and "reads_succeed (env_kv E) db" and "\<forall>n. \<not> cancelled n"
    and "\<And>c. boc_decode E (boc_encode E c) = Inr c"
    and "contents db PivotBlocks (mc_block_key ref) = Some (encode_block (boc_encode E) mc_hash mc_block)"
    and "make_mc_proof (env_cells E) (tycho_models (env_cells E)) mc_block sh =
      Inr \<lparr>mc_root = mc_proof, latest_shard_seqno = latest\<rparr>"
    and "n \<le> latest" and "n \<noteq> -1"
    and "\<And>s. n < s \<Longrightarrow> s \<le> latest \<Longrightarrow> contents db PivotBlocks (block_key wc p s) =
      Some (encode_block (boc_encode E) (hash_of s) (pivot_of s))"
  shows "fst (shard_chain E cancelled db (block_key wc p n) n ref sh tx_proof k) =
    Inr (mc_hash, mc_proof, map (\<lambda>i. pivot_of (word_of_nat i)) (rev [Suc (unat n)..<Suc (unat latest)]) @ [tx_proof])"
  using assms by (rule shard_chain_ok)

definition demo_shard_db :: demo_db where
  "demo_shard_db t =
     (case t of
        PivotBlocks \<Rightarrow>
          (mc_block_key 100, encode_block d_enc_cell 3 (demo_tycho_block True)) #
          map (\<lambda>s. (block_key 0 0xc000000000000000 s, encode_block d_enc_cell 4 (DC [uint s] []))) [8, 9]
      | _ \<Rightarrow> [])"

theorem shard_chain_order_witness:
  "fst (shard_chain demo_env (\<lambda>_. False) demo_shard_db (block_key 0 0xc000000000000000 7) 7 100
      \<lparr>workchain = 0, prefix = 0xc000000000000000\<rparr> (DC [1] []) 0) =
    Inr (3, demo_tycho_block True, [DC [9] [], DC [8] [], DC [1] []])"
proof -
  have mc: "make_mc_proof demo_lib (tycho_models demo_lib) (demo_tycho_block True)
      \<lparr>workchain = 0, prefix = 0xc000000000000000\<rparr> = Inr \<lparr>mc_root = demo_tycho_block True, latest_shard_seqno = 9\<rparr>"
    by code_simp
  have blocks: "d_contents demo_shard_db PivotBlocks (block_key 0 0xc000000000000000 s) =
      Some (encode_block d_enc_cell 4 (DC [uint s] []))" if "7 < s" "s \<le> 9" for s :: u32
  proof -
    from that have "unat s = 8 \<or> unat s = 9"
      by (simp add: word_less_nat_alt word_le_nat_alt) linarith
    then have "s = 8 \<or> s = 9" by (simp add: word_unat_eq_iff)
    then show ?thesis by (auto simp: d_contents_def demo_shard_db_def mc_block_key_def)
  qed
  have "fst (shard_chain demo_env (\<lambda>_. False) demo_shard_db (block_key 0 0xc000000000000000 7) 7 100
      \<lparr>workchain = 0, prefix = 0xc000000000000000\<rparr> (DC [1] []) 0) =
    Inr (3, demo_tycho_block True, map (\<lambda>i. DC [uint (word_of_nat i :: u32)] [])
      (rev [Suc (unat (7::u32))..<Suc (unat (9::u32))]) @ [DC [1] []])"
    by (rule shard_chain_order [where contents = d_contents and hash_of = "\<lambda>_. 4" and mc_block = "demo_tycho_block True"])
       (use mc blocks in \<open>simp_all add: demo_kv_laws demo_reads d_boc_roundtrip d_contents_def demo_shard_db_def\<close>)
  also have "\<dots> = Inr (3, demo_tycho_block True, [DC [9] [], DC [8] [], DC [1] []])"
    by (simp add: upt_conv_Cons)
  finally show ?thesis .
qed

section \<open>Collections and runs\<close>

text \<open>The bound of a collection comes from the last timing entry that is not after the time of the
  collection: the end logical time and the shard blocks of the masterchain block that entry names.\<close>

lemma outdated_bound_is_latest:
  assumes "kv_laws (env_kv E) contents" and "find_outdated_bound E db until = Inr (Some ob)"
  shows "\<exists>k v data fh block info.
    contents db Timings k = Some v \<and> \<not> bytes_less (u32_be until) k \<and>
    (\<forall>k2\<in>dom (contents db Timings). bytes_less k k2 \<longrightarrow> bytes_less (u32_be until) k2) \<and>
    contents db PivotBlocks (mc_block_key (u32_of_le (take 4 v))) = Some data \<and>
    decode_block (boc_decode E) data = Inr (fh, block) \<and>
    run_io (parse_latest_shard_blocks (env_cells E) (tycho_models (env_cells E)) block)
      (usage_new (env_cells E)) = Inr info \<and>
    ob = \<lparr>remove_until = until, bound_lt = bound_end_lt info,
      bound_blocks = shard_ids info @ [\<lparr>shard = MASTERCHAIN, seqno = u32_of_le (take 4 v)\<rparr>]\<rparr>"
  by (rule find_outdated_bound_Some [OF assms]) blast

theorem outdated_bound_is_latest_witness:
  "\<exists>k v. d_contents demo_old_db Timings k = Some v \<and> \<not> bytes_less (u32_be 1500) k"
proof -
  have kv: "kv_laws (env_kv demo_env) d_contents" by (simp add: demo_kv_laws)
  from outdated_bound_is_latest [OF kv demo_find_bound] show ?thesis by blast
qed

text \<open>Whatever blocks the subscriber prepares and handles, in whatever order and with whatever
  errors and cancellations, the tables and the snapshot stay well formed: every transaction row
  has the layout of its value under its own workchain, and every block, signature and timing row is
  long enough to be taken apart without a panic.\<close>

lemma storage_stays_well_formed:
  assumes "reachable E st0 st" and "kv_laws (env_kv E) contents"
    and "well_formed (contents (ps_db st0)) \<and> well_formed (contents (ps_snapshot st0))"
  shows "well_formed (contents (ps_db st)) \<and> well_formed (contents (ps_snapshot st))"
  using assms by (rule reachable_well_formed)

lemma storage_stays_well_formed_witness:
  "well_formed (d_contents (ps_db (snd (prepare_block demo_env (\<lambda>_. False) 2500
     \<lparr>cx_mc_seqno = 7, cx_block = demo_stuff 7, cx_is_key_block = False, cx_signatures = Inr (Some demo_signed),
       cx_vset = Inl (Lib Panic)\<rparr> demo_storage))))"
proof -
  let ?cx = "\<lparr>cx_mc_seqno = 7, cx_block = demo_stuff 7, cx_is_key_block = False,
    cx_signatures = Inr (Some demo_signed), cx_vset = Inl (Lib Panic)\<rparr>"
  have "node_step demo_env demo_storage (snd (prepare_block demo_env (\<lambda>_. False) 2500 ?cx demo_storage))"
    by (rule node_step.prepare) (rule surjective_pairing)
  then have r: "reachable demo_env demo_storage (snd (prepare_block demo_env (\<lambda>_. False) 2500 ?cx demo_storage))"
    by (rule reachable.step [OF reachable.start])
  have "well_formed (d_contents (ps_db demo_storage)) \<and> well_formed (d_contents (ps_snapshot demo_storage))"
    by (simp add: well_formed_def d_contents_def demo_storage_def set_current_vset_def new_storage_def demo_kv_def)
  moreover have "kv_laws (env_kv demo_env) d_contents" by (simp add: demo_kv_laws)
  ultimately show ?thesis using storage_stays_well_formed [OF r] by blast
qed

text \<open>The version provider reads back the version it has set, and refuses a database that was
  set up under another name.\<close>

lemma version_roundtrip:
  assumes "kv_laws K contents" and "reads_succeed K db1"
    and "set_version K db_name version db = Inr db1" and "length version = 3"
  shows "get_version K name1 db1 =
    (if bytes_of name1 = bytes_of db_name then Inr (Some version)
     else Inl (WrongName (bytes_of name1) (bytes_of db_name)))"
  using assms by (rule get_set_version)

theorem version_roundtrip_witness:
  "\<exists>db1. set_version demo_kv ''proofs'' [0, 0, 1] (\<lambda>_. []) = Inr db1 \<and>
     get_version demo_kv ''proofs'' db1 = Inr (Some [0, 0, 1])"
proof -
  obtain db1 where w: "set_version demo_kv ''proofs'' [0, 0, 1] (\<lambda>_. []) = Inr db1"
    by (simp add: set_version_def demo_kv_def)
  from version_roundtrip [OF demo_kv_laws demo_reads w, of "''proofs''"] w show ?thesis by simp
qed

end
