(* ===== verification/Tl_Codec.thy ===== *)
theory Tl_Codec
  imports Signatures
begin

text \<open>
  The TL codecs of \<open>ton-lite-client/src/proto.rs\<close>: the modules \<open>tl_block_id_short\<close>,
  \<open>tl_block_id_full\<close>, \<open>tl_vec_block_id_full\<close>, \<open>tl_account_id\<close>, \<open>tl_signature\<close> and
  \<open>tl_vec_signature\<close>. The crate \<open>tl_proto\<close> is a parameter: the record \<open>tl_lib\<close> holds how it
  writes and reads the primitive types, and \<open>tl_laws\<close> says that reading gives back what was
  written and leaves the rest. A reader \<open>fn read(packet: &mut &[u8]) -> TlResult<T>\<close> is a
  function over the remaining bytes. The locale \<open>tl_codec\<close> is the contract every codec keeps.
\<close>

section \<open>The TL library\<close>

datatype tl_error = UnexpectedEof | UnknownConstructor | TlInvalidData

type_synonym 'a tl_rd = "(bytes, tl_error, 'a) rs"

text \<open>
  An \<open>i32\<close> has the four bytes of the \<open>u32\<close> with the same bits. \<open>tl_id\<close> is the constructor
  id the derive macros compute from \<open>proto.tl\<close>. \<open>ShardIdent::new\<close> and the lossy reading of
  UTF-8 belong to other crates and are kept here with the rest of what is not in the source.
\<close>

record tl_lib =
  put_u32 :: "u32 \<Rightarrow> bytes"
  get_u32 :: "u32 tl_rd"
  put_u64 :: "u64 \<Rightarrow> bytes"
  get_u64 :: "u64 tl_rd"
  put_hash :: "hash_bytes \<Rightarrow> bytes"
  get_hash :: "hash_bytes tl_rd"
  put_bytes :: "bytes \<Rightarrow> bytes"
  get_bytes :: "bytes tl_rd"
  get_bool :: "bool tl_rd"
  tl_id :: "string \<Rightarrow> u32"
  utf8_lossy :: "bytes \<Rightarrow> string"
  tl_shard_new :: "i32 \<Rightarrow> u64 \<Rightarrow> shard_ident option"

definition tl_laws :: "tl_lib \<Rightarrow> bool" where
  "tl_laws T \<longleftrightarrow>
     (\<forall>x r. get_u32 T (put_u32 T x @ r) = (Inr x, r)) \<and>
     (\<forall>x r. get_u64 T (put_u64 T x @ r) = (Inr x, r)) \<and>
     (\<forall>x r. get_hash T (put_hash T x @ r) = (Inr x, r)) \<and>
     (\<forall>x r. length x < 2 ^ 24 \<longrightarrow> get_bytes T (put_bytes T x @ r) = (Inr x, r)) \<and>
     (\<forall>w p s. tl_shard_new T w p = Some s \<longrightarrow> workchain s = w \<and> prefix s = p)"

lemma tl_lawsD:
  assumes "tl_laws T"
  shows "get_u32 T (put_u32 T x @ r) = (Inr x, r)"
    and "get_u64 T (put_u64 T y @ r) = (Inr y, r)"
    and "get_hash T (put_hash T h @ r) = (Inr h, r)"
    and "length bs < 2 ^ 24 \<Longrightarrow> get_bytes T (put_bytes T bs @ r) = (Inr bs, r)"
    and "tl_shard_new T w p = Some s \<Longrightarrow> workchain s = w"
    and "tl_shard_new T w p = Some s \<Longrightarrow> prefix s = p"
  using assms unfolding tl_laws_def by blast+

lemmas tl_get = tl_lawsD(1-4)

text \<open>\<open>tl_proto::deserialize\<close>: the value at the start of the packet.\<close>

definition deserialize :: "'a tl_rd \<Rightarrow> bytes \<Rightarrow> tl_error + 'a" where
  "deserialize rd bs = fst (rd bs)"

text \<open>A \<open>boxed\<close> type is preceded by its constructor id.\<close>

definition write_boxed :: "tl_lib \<Rightarrow> string \<Rightarrow> bytes \<Rightarrow> bytes" where
  "write_boxed T name bs = put_u32 T (tl_id T name) @ bs"

definition read_boxed :: "tl_lib \<Rightarrow> string \<Rightarrow> 'a tl_rd \<Rightarrow> 'a tl_rd" where
  "read_boxed T name rd =
     bnd (get_u32 T) (\<lambda>constructor.
     if constructor = tl_id T name then rd else fail UnknownConstructor)"

text \<open>A vector: its length, and the items one after the other.\<close>

fun read_items :: "'a tl_rd \<Rightarrow> nat \<Rightarrow> 'a list \<Rightarrow> 'a list tl_rd" where
  "read_items rd 0 res = ret res"
| "read_items rd (Suc n) res = bnd rd (\<lambda>item. read_items rd n (res @ [item]))"

definition read_vec :: "tl_lib \<Rightarrow> 'a tl_rd \<Rightarrow> 'a list tl_rd" where
  "read_vec T rd = bnd (get_u32 T) (\<lambda>len. read_items rd (unat len) [])"

definition write_vec :: "tl_lib \<Rightarrow> ('a \<Rightarrow> bytes) \<Rightarrow> 'a list \<Rightarrow> bytes" where
  "write_vec T wr items = put_u32 T (word_of_nat (length items)) @ concat (map wr items)"

text \<open>A field with \<open>flags_bit = "mode.n"\<close> is read when the bit is set.\<close>

definition read_flag :: "u32 \<Rightarrow> nat \<Rightarrow> 'a tl_rd \<Rightarrow> 'a option tl_rd" where
  "read_flag mode n rd = (if bit mode n then bnd rd (\<lambda>x. ret (Some x)) else ret None)"

definition flag_bit :: "nat \<Rightarrow> 'a option \<Rightarrow> u32" where
  "flag_bit n x = (if x = None then 0 else push_bit n 1)"

definition write_opt :: "('a \<Rightarrow> bytes) \<Rightarrow> 'a option \<Rightarrow> bytes" where
  "write_opt wr x = (case x of None \<Rightarrow> [] | Some a \<Rightarrow> wr a)"

section \<open>The contract of a codec\<close>

locale tl_codec =
  fixes wr :: "tl_lib \<Rightarrow> 'a \<Rightarrow> bytes" and rd :: "tl_lib \<Rightarrow> 'a tl_rd"
    and ok :: "tl_lib \<Rightarrow> 'a \<Rightarrow> bool"
  assumes read_write: "tl_laws T \<Longrightarrow> ok T a \<Longrightarrow> rd T (wr T a @ r) = (Inr a, r)"
begin

lemma read_write_all: "tl_laws T \<Longrightarrow> ok T a \<Longrightarrow> rd T (wr T a) = (Inr a, [])"
  using read_write [of T a "[]"] by simp

lemma deserialize_write: "tl_laws T \<Longrightarrow> ok T a \<Longrightarrow> deserialize (rd T) (wr T a @ r) = Inr a"
  by (simp add: deserialize_def read_write)

text \<open>No encoding is a prefix of another one.\<close>

lemma prefix_free:
  assumes "tl_laws T" and "ok T a" and "ok T b" and "wr T a @ x = wr T b @ y"
  shows "a = b \<and> x = y"
  using read_write [OF assms(1,2), of x] read_write [OF assms(1,3), of y] assms(4)
  by (metis Pair_inject Inr_inject)

lemma items:
  assumes "tl_laws T" and "\<forall>a\<in>set as. ok T a"
  shows "read_items (rd T) (length as) res (concat (map (wr T) as) @ r) = (Inr (res @ as), r)"
  using assms(2)
  by (induction as arbitrary: res) (simp_all add: rs_apply bnd_apply read_write [OF assms(1)])

lemma vec:
  assumes "tl_laws T" and "\<forall>a\<in>set as. ok T a" and "length as < 2 ^ 32"
  shows "read_vec T (rd T) (write_vec T (wr T) as @ r) = (Inr as, r)"
proof -
  have "unat (word_of_nat (length as) :: u32) = length as"
    using assms(3) by (simp add: unat_of_nat take_bit_nat_eq_self)
  with items [OF assms(1,2), of "[]" r] show ?thesis
    by (simp add: read_vec_def write_vec_def bnd_apply tl_get [OF assms(1)])
qed

lemma boxed:
  assumes "tl_laws T" and "ok T a"
  shows "read_boxed T name (rd T) (write_boxed T name (wr T a) @ r) = (Inr a, r)"
  using assms
  by (simp add: read_boxed_def write_boxed_def bnd_apply tl_get [OF assms(1)] read_write)

lemma opt:
  assumes "tl_laws T" and "\<forall>a\<in>set_option x. ok T a" and "bit mode n \<longleftrightarrow> x \<noteq> None"
  shows "read_flag mode n (rd T) (write_opt (wr T) x @ r) = (Inr x, r)"
  using assms
  by (cases x) (simp_all add: read_flag_def write_opt_def rs_apply bnd_apply read_write)

end

interpretation u32_tl: tl_codec put_u32 get_u32 "\<lambda>_ _. True"
  by unfold_locales (rule tl_get)

interpretation u64_tl: tl_codec put_u64 get_u64 "\<lambda>_ _. True"
  by unfold_locales (rule tl_get)

interpretation hash_tl: tl_codec put_hash get_hash "\<lambda>_ _. True"
  by unfold_locales (rule tl_get)

definition short_bytes :: "bytes \<Rightarrow> bool" where
  "short_bytes bs \<longleftrightarrow> length bs < 2 ^ 24"

interpretation bytes_tl: tl_codec put_bytes get_bytes "\<lambda>_. short_bytes"
  by unfold_locales (rule tl_get, simp_all add: short_bytes_def)

section \<open>Identifiers\<close>

definition write_block_id_short :: "tl_lib \<Rightarrow> block_id_short \<Rightarrow> bytes" where
  "write_block_id_short T b =
     put_u32 T (workchain (shard b)) @ put_u64 T (prefix (shard b)) @ put_u32 T (seqno b)"

definition read_block_id_short :: "tl_lib \<Rightarrow> block_id_short tl_rd" where
  "read_block_id_short T =
     bnd (get_u32 T) (\<lambda>wc.
     bnd (get_u64 T) (\<lambda>pfx.
     bnd (get_u32 T) (\<lambda>n.
     case tl_shard_new T wc pfx of
       None \<Rightarrow> fail TlInvalidData
     | Some sh \<Rightarrow> ret \<lparr>shard = sh, seqno = n\<rparr>)))"

definition write_block_id_full :: "tl_lib \<Rightarrow> block_id \<Rightarrow> bytes" where
  "write_block_id_full T b =
     write_block_id_short T (as_short_id b) @ put_hash T (root_hash b) @ put_hash T (file_hash b)"

definition read_block_id_full :: "tl_lib \<Rightarrow> block_id tl_rd" where
  "read_block_id_full T =
     bnd (read_block_id_short T) (\<lambda>b.
     bnd (get_hash T) (\<lambda>rh.
     bnd (get_hash T) (\<lambda>fh.
     ret \<lparr>shard = shard b, seqno = seqno b, root_hash = rh, file_hash = fh\<rparr>)))"

definition write_vec_block_id_full :: "tl_lib \<Rightarrow> block_id list \<Rightarrow> bytes" where
  "write_vec_block_id_full T items =
     put_u32 T (word_of_nat (length items)) @ concat (map (write_block_id_full T) items)"

definition read_vec_block_id_full :: "tl_lib \<Rightarrow> block_id list tl_rd" where
  "read_vec_block_id_full T =
     bnd (get_u32 T) (\<lambda>len. read_items (read_block_id_full T) (unat len) [])"

definition write_account_id :: "tl_lib \<Rightarrow> std_addr \<Rightarrow> bytes" where
  "write_account_id T addr = put_u32 T (of_i8 (addr_workchain addr)) @ put_hash T (address addr)"

definition read_account_id :: "tl_lib \<Rightarrow> std_addr tl_rd" where
  "read_account_id T =
     bnd (get_u32 T) (\<lambda>w.
     case to_i8 w of
       None \<Rightarrow> fail TlInvalidData
     | Some wc \<Rightarrow> bnd (get_hash T) (\<lambda>a. ret \<lparr>addr_workchain = wc, address = a\<rparr>))"

definition write_signature :: "tl_lib \<Rightarrow> block_signature \<Rightarrow> bytes" where
  "write_signature T s =
     put_hash T (node_id_short s) @ put_bytes T (sig_to_bytes (signature s))"

definition read_signature :: "tl_lib \<Rightarrow> block_signature tl_rd" where
  "read_signature T =
     bnd (get_hash T) (\<lambda>node.
     bnd (get_bytes T) (\<lambda>bs.
     if length bs = 64 then ret \<lparr>node_id_short = node, signature = sig_of_bytes bs\<rparr>
     else fail TlInvalidData))"

definition write_vec_signature :: "tl_lib \<Rightarrow> block_signature list \<Rightarrow> bytes" where
  "write_vec_signature T items =
     put_u32 T (word_of_nat (length items)) @ concat (map (write_signature T) items)"

definition read_vec_signature :: "tl_lib \<Rightarrow> block_signature list tl_rd" where
  "read_vec_signature T =
     bnd (get_u32 T) (\<lambda>len. read_items (read_signature T) (unat len) [])"

text \<open>The identifiers the writers are given are valid: \<open>ShardIdent\<close> has no other values.\<close>

definition shard_ok :: "tl_lib \<Rightarrow> shard_ident \<Rightarrow> bool" where
  "shard_ok T s \<longleftrightarrow> tl_shard_new T (workchain s) (prefix s) = Some s"

definition short_ok :: "tl_lib \<Rightarrow> block_id_short \<Rightarrow> bool" where
  "short_ok T b \<longleftrightarrow> shard_ok T (shard b)"

definition full_ok :: "tl_lib \<Rightarrow> block_id \<Rightarrow> bool" where
  "full_ok T b \<longleftrightarrow> shard_ok T (shard b)"

interpretation short_tl: tl_codec write_block_id_short read_block_id_short short_ok
  by unfold_locales
    (simp add: write_block_id_short_def read_block_id_short_def short_ok_def shard_ok_def
      bnd_apply tl_get rs_apply)

interpretation full_tl: tl_codec write_block_id_full read_block_id_full full_ok
proof
  fix T :: tl_lib and b :: block_id and r
  assume T: "tl_laws T" and "full_ok T b"
  then have "short_ok T (as_short_id b)" by (simp add: short_ok_def full_ok_def as_short_id_def)
  then show "read_block_id_full T (write_block_id_full T b @ r) = (Inr b, r)"
    by (simp add: write_block_id_full_def read_block_id_full_def bnd_apply tl_get [OF T]
        short_tl.read_write [OF T] rs_apply as_short_id_def)
qed

interpretation account_tl: tl_codec write_account_id read_account_id "\<lambda>_ _. True"
  by unfold_locales
    (simp add: write_account_id_def read_account_id_def bnd_apply tl_get to_i8_of_i8 rs_apply)

interpretation signature_tl: tl_codec write_signature read_signature "\<lambda>_ _. True"
  by unfold_locales
    (simp add: write_signature_def read_signature_def bnd_apply tl_get rs_apply)

lemma vec_generic:
  "write_vec_block_id_full T = write_vec T (write_block_id_full T)"
  "read_vec_block_id_full T = read_vec T (read_block_id_full T)"
  "write_vec_signature T = write_vec T (write_signature T)"
  "read_vec_signature T = read_vec T (read_signature T)"
  by (simp_all add: fun_eq_iff write_vec_block_id_full_def read_vec_block_id_full_def
      write_vec_signature_def read_vec_signature_def write_vec_def read_vec_def)

definition ids_ok :: "tl_lib \<Rightarrow> block_id list \<Rightarrow> bool" where
  "ids_ok T bs \<longleftrightarrow> length bs < 2 ^ 32 \<and> (\<forall>b\<in>set bs. full_ok T b)"

interpretation ids_tl: tl_codec write_vec_block_id_full read_vec_block_id_full ids_ok
  by unfold_locales (simp add: vec_generic ids_ok_def full_tl.vec)

interpretation signatures_tl:
  tl_codec write_vec_signature read_vec_signature "\<lambda>_ ss. length ss < 2 ^ 32"
  by unfold_locales (simp add: vec_generic signature_tl.vec)

section \<open>What a reader can return\<close>

text \<open>\<open>reads_only P rd\<close>: every value \<open>rd\<close> returns satisfies \<open>P\<close>.\<close>

named_theorems reads_intro

definition reads_only :: "('a \<Rightarrow> bool) \<Rightarrow> 'a tl_rd \<Rightarrow> bool" where
  "reads_only P rd \<longleftrightarrow> (\<forall>s a t. rd s = (Inr a, t) \<longrightarrow> P a)"

lemma reads_onlyD: "reads_only P rd \<Longrightarrow> rd s = (Inr a, t) \<Longrightarrow> P a"
  unfolding reads_only_def by blast

lemma reads_only_ret [reads_intro]: "P a \<Longrightarrow> reads_only P (ret a)"
  by (simp add: reads_only_def rs_apply)

lemma reads_only_fail [reads_intro]: "reads_only P (fail e)"
  by (simp add: reads_only_def rs_apply)

lemma reads_only_bnd:
  assumes "reads_only Q m" and "\<And>a. Q a \<Longrightarrow> reads_only P (f a)"
  shows "reads_only P (bnd m f)"
  unfolding reads_only_def
proof (intro allI impI)
  fix s a t assume "bnd m f s = (Inr a, t)"
  then obtain b u where "m s = (Inr b, u)" and "f b u = (Inr a, t)" by (rule bnd_InrE)
  with assms show "P a" by (blast dest: reads_onlyD)
qed

lemma reads_only_any [reads_intro]: "(\<And>a. reads_only P (f a)) \<Longrightarrow> reads_only P (bnd m f)"
  by (rule reads_only_bnd [where Q = "\<lambda>_. True"]) (simp_all add: reads_only_def)

lemma reads_only_if [reads_intro]:
  "(b \<Longrightarrow> reads_only P x) \<Longrightarrow> (\<not> b \<Longrightarrow> reads_only P y) \<Longrightarrow> reads_only P (if b then x else y)"
  by simp

lemma reads_only_boxed: "reads_only P rd \<Longrightarrow> reads_only P (read_boxed T name rd)"
  unfolding read_boxed_def by (intro reads_intro)

lemma reads_only_items:
  "reads_only P rd \<Longrightarrow> \<forall>a\<in>set res. P a \<Longrightarrow> reads_only (\<lambda>as. \<forall>a\<in>set as. P a) (read_items rd n res)"
proof (induction n arbitrary: res)
  case 0
  then show ?case by (simp add: reads_only_ret)
next
  case (Suc n)
  from Suc.prems(2) show ?case
    by (auto intro!: reads_only_bnd [OF Suc.prems(1)] Suc.IH [OF Suc.prems(1)])
qed

lemma reads_only_vec:
  "reads_only P rd \<Longrightarrow> reads_only (\<lambda>as. \<forall>a\<in>set as. P a) (read_vec T rd)"
  unfolding read_vec_def by (intro reads_only_any reads_only_items) simp_all

lemma short_reads_ok:
  assumes "tl_laws T"
  shows "reads_only (short_ok T) (read_block_id_short T)"
  unfolding read_block_id_short_def
  by (intro reads_only_any)
    (auto simp: short_ok_def shard_ok_def tl_lawsD(5,6) [OF assms] reads_only_def rs_apply
      split: option.splits)

lemma full_reads_ok:
  assumes "tl_laws T"
  shows "reads_only (full_ok T) (read_block_id_full T)"
  unfolding read_block_id_full_def
  by (intro reads_only_bnd [OF short_reads_ok [OF assms]] reads_only_any reads_only_ret)
    (simp add: full_ok_def short_ok_def)

end
