(* ===== verification/Lite_Proto.thy ===== *)
theory Lite_Proto
  imports Tl_Codec
begin

text \<open>
  The messages of \<open>ton-lite-client/src/proto.rs\<close>. A struct that derives \<open>TlRead\<close> is a record
  with a reader that takes its fields in the order of the source; one that derives \<open>TlWrite\<close>
  has a writer. A \<open>boxed\<close> struct starts with its constructor id, a \<open>flags\<close> field is one
  word, and a field with \<open>flags_bit\<close> is present when its bit is set. The lemmas give the
  round trips of the messages that have both directions and what every answer satisfies.
\<close>

section \<open>Queries\<close>

record zerostate_id =
  zs_workchain :: i32
  zs_root_hash :: hash_bytes
  zs_file_hash :: hash_bytes

definition write_zerostate :: "tl_lib \<Rightarrow> zerostate_id \<Rightarrow> bytes" where
  "write_zerostate T z =
     put_u32 T (zs_workchain z) @ put_hash T (zs_root_hash z) @ put_hash T (zs_file_hash z)"

definition read_zerostate :: "tl_lib \<Rightarrow> zerostate_id tl_rd" where
  "read_zerostate T =
     bnd (get_u32 T) (\<lambda>w. bnd (get_hash T) (\<lambda>rh. bnd (get_hash T) (\<lambda>fh.
     ret \<lparr>zs_workchain = w, zs_root_hash = rh, zs_file_hash = fh\<rparr>)))"

record wait_masterchain_seqno =
  wait_seqno :: u32
  wait_timeout_ms :: u32

definition write_wait :: "tl_lib \<Rightarrow> wait_masterchain_seqno \<Rightarrow> bytes" where
  "write_wait T w =
     write_boxed T ''liteServer.waitMasterchainSeqno''
       (put_u32 T (wait_seqno w) @ put_u32 T (wait_timeout_ms w))"

text \<open>The query is already serialized: \<open>TcpAdnl::query\<close> is called with its raw bytes.\<close>

record wrapped_query =
  wq_wait :: "wait_masterchain_seqno option"
  wq_query :: bytes

definition write_wrapped_query :: "tl_lib \<Rightarrow> wrapped_query \<Rightarrow> bytes" where
  "write_wrapped_query T q = write_opt (write_wait T) (wq_wait q) @ wq_query q"

definition write_lite_query :: "tl_lib \<Rightarrow> wrapped_query \<Rightarrow> bytes" where
  "write_lite_query T q =
     write_boxed T ''liteServer.query'' (put_bytes T (write_wrapped_query T q))"

record adnl_query =
  aq_query_id :: hash_bytes
  aq_query :: wrapped_query

definition write_adnl_query :: "tl_lib \<Rightarrow> adnl_query \<Rightarrow> bytes" where
  "write_adnl_query T m =
     write_boxed T ''adnl.message.query''
       (put_hash T (aq_query_id m) @ put_bytes T (write_lite_query T (aq_query m)))"

record adnl_answer =
  aa_query_id :: hash_bytes
  aa_data :: bytes

definition read_adnl_answer :: "tl_lib \<Rightarrow> adnl_answer tl_rd" where
  "read_adnl_answer T =
     read_boxed T ''adnl.message.answer''
       (bnd (get_hash T) (\<lambda>q. bnd (get_bytes T) (\<lambda>d.
        ret \<lparr>aa_query_id = q, aa_data = d\<rparr>)))"

section \<open>Requests\<close>

definition write_send_message :: "tl_lib \<Rightarrow> bytes \<Rightarrow> bytes" where
  "write_send_message T body = write_boxed T ''liteServer.sendMessage'' (put_bytes T body)"

definition write_get_version :: "tl_lib \<Rightarrow> bytes" where
  "write_get_version T = write_boxed T ''liteServer.getVersion'' []"

definition write_get_masterchain_info :: "tl_lib \<Rightarrow> bytes" where
  "write_get_masterchain_info T = write_boxed T ''liteServer.getMasterchainInfo'' []"

definition write_get_block :: "tl_lib \<Rightarrow> block_id \<Rightarrow> bytes" where
  "write_get_block T b = write_boxed T ''liteServer.getBlock'' (write_block_id_full T b)"

record lookup_block_req =
  lb_id :: block_id_short
  lb_seqno :: "unit option"
  lb_lt :: "u64 option"
  lb_utime :: "u32 option"

definition lookup_mode :: "lookup_block_req \<Rightarrow> u32" where
  "lookup_mode q = flag_bit 0 (lb_seqno q) OR flag_bit 1 (lb_lt q) OR flag_bit 2 (lb_utime q)"

definition write_lookup_block :: "tl_lib \<Rightarrow> lookup_block_req \<Rightarrow> bytes" where
  "write_lookup_block T q =
     write_boxed T ''liteServer.lookupBlock''
       (put_u32 T (lookup_mode q) @ write_block_id_short T (lb_id q) @
        write_opt (\<lambda>_. []) (lb_seqno q) @ write_opt (put_u64 T) (lb_lt q) @
        write_opt (put_u32 T) (lb_utime q))"

record block_proof_req =
  bp_known_block :: block_id
  bp_target_block :: "block_id option"
  bp_with_known_block :: "unit option"

definition block_proof_mode :: "block_proof_req \<Rightarrow> u32" where
  "block_proof_mode q = flag_bit 0 (bp_target_block q) OR flag_bit 12 (bp_with_known_block q)"

definition write_block_proof_req :: "tl_lib \<Rightarrow> block_proof_req \<Rightarrow> bytes" where
  "write_block_proof_req T q =
     write_boxed T ''liteServer.getBlockProof''
       (put_u32 T (block_proof_mode q) @ write_block_id_full T (bp_known_block q) @
        write_opt (write_block_id_full T) (bp_target_block q) @
        write_opt (\<lambda>_. []) (bp_with_known_block q))"

definition read_block_proof_req :: "tl_lib \<Rightarrow> block_proof_req tl_rd" where
  "read_block_proof_req T =
     read_boxed T ''liteServer.getBlockProof''
       (bnd (get_u32 T) (\<lambda>mode.
        bnd (read_block_id_full T) (\<lambda>known.
        bnd (read_flag mode 0 (read_block_id_full T)) (\<lambda>target.
        bnd (read_flag mode 12 (ret ())) (\<lambda>with_known.
        ret \<lparr>bp_known_block = known, bp_target_block = target,
          bp_with_known_block = with_known\<rparr>)))))"

definition write_shard_block_proof_req :: "tl_lib \<Rightarrow> block_id \<Rightarrow> bytes" where
  "write_shard_block_proof_req T b =
     write_boxed T ''liteServer.getShardBlockProof'' (write_block_id_full T b)"

definition read_shard_block_proof_req :: "tl_lib \<Rightarrow> block_id tl_rd" where
  "read_shard_block_proof_req T =
     read_boxed T ''liteServer.getShardBlockProof'' (read_block_id_full T)"

text \<open>\<open>GetConfigAll\<close> has a flags word and no optional field, so the word is zero.\<close>

definition write_get_config_all :: "tl_lib \<Rightarrow> block_id \<Rightarrow> bytes" where
  "write_get_config_all T b =
     write_boxed T ''liteServer.getConfigAll'' (put_u32 T 0 @ write_block_id_full T b)"

definition write_get_libraries :: "tl_lib \<Rightarrow> hash_bytes list \<Rightarrow> bytes" where
  "write_get_libraries T hs =
     write_boxed T ''liteServer.getLibraries'' (write_vec T (put_hash T) hs)"

record transactions_req =
  tr_count :: u32
  tr_account :: std_addr
  tr_lt :: u64
  tr_hash :: hash_bytes

definition write_get_transactions :: "tl_lib \<Rightarrow> transactions_req \<Rightarrow> bytes" where
  "write_get_transactions T q =
     write_boxed T ''liteServer.getTransactions''
       (put_u32 T (tr_count q) @ write_account_id T (tr_account q) @
        put_u64 T (tr_lt q) @ put_hash T (tr_hash q))"

definition write_get_account_state :: "tl_lib \<Rightarrow> block_id \<Rightarrow> std_addr \<Rightarrow> bytes" where
  "write_get_account_state T b a =
     write_boxed T ''liteServer.getAccountState'' (write_block_id_full T b @ write_account_id T a)"

section \<open>Answers\<close>

record masterchain_info =
  mi_last :: block_id
  mi_state_root_hash :: hash_bytes
  mi_init :: zerostate_id

definition read_masterchain_info :: "tl_lib \<Rightarrow> masterchain_info tl_rd" where
  "read_masterchain_info T =
     read_boxed T ''liteServer.masterchainInfo''
       (bnd (read_block_id_full T) (\<lambda>b. bnd (get_hash T) (\<lambda>h. bnd (read_zerostate T) (\<lambda>z.
        ret \<lparr>mi_last = b, mi_state_root_hash = h, mi_init = z\<rparr>))))"

record version_info =
  vi_mode :: u32
  vi_version :: u32
  vi_capabilities :: u64
  vi_now :: u32

definition read_version :: "tl_lib \<Rightarrow> version_info tl_rd" where
  "read_version T =
     read_boxed T ''liteServer.version''
       (bnd (get_u32 T) (\<lambda>m. bnd (get_u32 T) (\<lambda>v. bnd (get_u64 T) (\<lambda>c. bnd (get_u32 T) (\<lambda>n.
        ret \<lparr>vi_mode = m, vi_version = v, vi_capabilities = c, vi_now = n\<rparr>)))))"

definition read_send_msg_status :: "tl_lib \<Rightarrow> u32 tl_rd" where
  "read_send_msg_status T = read_boxed T ''liteServer.sendMsgStatus'' (get_u32 T)"

record block_data =
  bd_id :: block_id
  bd_data :: bytes

definition read_block_data :: "tl_lib \<Rightarrow> block_data tl_rd" where
  "read_block_data T =
     read_boxed T ''liteServer.blockData''
       (bnd (read_block_id_full T) (\<lambda>b. bnd (get_bytes T) (\<lambda>d. ret \<lparr>bd_id = b, bd_data = d\<rparr>)))"

record block_header =
  bh_id :: block_id
  bh_header_proof :: bytes

definition read_block_header :: "tl_lib \<Rightarrow> block_header tl_rd" where
  "read_block_header T =
     read_boxed T ''liteServer.blockHeader''
       (bnd (read_block_id_full T) (\<lambda>b. bnd (get_u32 T) (\<lambda>mode. bnd (get_bytes T) (\<lambda>p.
        ret \<lparr>bh_id = b, bh_header_proof = p\<rparr>))))"

record signature_set =
  ss_validator_set_hash :: u32
  ss_catchain_seqno :: u32
  ss_signatures :: "block_signature list"

definition read_signature_set :: "tl_lib \<Rightarrow> signature_set tl_rd" where
  "read_signature_set T =
     read_boxed T ''liteServer.signatureSet''
       (bnd (get_u32 T) (\<lambda>h. bnd (get_u32 T) (\<lambda>c. bnd (read_vec_signature T) (\<lambda>s.
        ret \<lparr>ss_validator_set_hash = h, ss_catchain_seqno = c, ss_signatures = s\<rparr>))))"

record link_back =
  lk_to_key_block :: bool
  lk_from :: block_id
  lk_to :: block_id
  lk_dest_proof :: bytes
  lk_proof :: bytes
  lk_state_proof :: bytes

definition read_link_back :: "tl_lib \<Rightarrow> link_back tl_rd" where
  "read_link_back T =
     bnd (get_bool T) (\<lambda>key. bnd (read_block_id_full T) (\<lambda>a. bnd (read_block_id_full T) (\<lambda>b.
     bnd (get_bytes T) (\<lambda>d. bnd (get_bytes T) (\<lambda>p. bnd (get_bytes T) (\<lambda>s.
     ret \<lparr>lk_to_key_block = key, lk_from = a, lk_to = b, lk_dest_proof = d,
       lk_proof = p, lk_state_proof = s\<rparr>))))))"

record link_forward =
  lf_to_key_block :: bool
  lf_from :: block_id
  lf_to :: block_id
  lf_dest_proof :: bytes
  lf_config_proof :: bytes
  lf_signatures :: signature_set

definition read_link_forward :: "tl_lib \<Rightarrow> link_forward tl_rd" where
  "read_link_forward T =
     bnd (get_bool T) (\<lambda>key. bnd (read_block_id_full T) (\<lambda>a. bnd (read_block_id_full T) (\<lambda>b.
     bnd (get_bytes T) (\<lambda>d. bnd (get_bytes T) (\<lambda>p. bnd (read_signature_set T) (\<lambda>s.
     ret \<lparr>lf_to_key_block = key, lf_from = a, lf_to = b, lf_dest_proof = d,
       lf_config_proof = p, lf_signatures = s\<rparr>))))))"

datatype block_link = BlockLinkBack link_back | BlockLinkForward link_forward

definition read_block_link :: "tl_lib \<Rightarrow> block_link tl_rd" where
  "read_block_link T =
     bnd (get_u32 T) (\<lambda>constructor.
     if constructor = tl_id T ''liteServer.blockLinkBack''
     then bnd (read_link_back T) (\<lambda>l. ret (BlockLinkBack l))
     else if constructor = tl_id T ''liteServer.blockLinkForward''
     then bnd (read_link_forward T) (\<lambda>l. ret (BlockLinkForward l))
     else fail UnknownConstructor)"

record partial_block_proof =
  pb_complete :: bool
  pb_from :: block_id
  pb_to :: block_id
  pb_steps :: "block_link list"

definition read_partial_block_proof :: "tl_lib \<Rightarrow> partial_block_proof tl_rd" where
  "read_partial_block_proof T =
     read_boxed T ''liteServer.partialBlockProof''
       (bnd (get_bool T) (\<lambda>c. bnd (read_block_id_full T) (\<lambda>a. bnd (read_block_id_full T) (\<lambda>b.
        bnd (read_vec T (read_block_link T)) (\<lambda>s.
        ret \<lparr>pb_complete = c, pb_from = a, pb_to = b, pb_steps = s\<rparr>)))))"

record shard_block_link =
  sl_block_id :: block_id
  sl_proof :: bytes

definition read_shard_block_link :: "tl_lib \<Rightarrow> shard_block_link tl_rd" where
  "read_shard_block_link T =
     bnd (read_block_id_full T) (\<lambda>b. bnd (get_bytes T) (\<lambda>p.
     ret \<lparr>sl_block_id = b, sl_proof = p\<rparr>))"

record shard_block_proof =
  sp_mc_block_id :: block_id
  sp_links :: "shard_block_link list"

definition read_shard_block_proof :: "tl_lib \<Rightarrow> shard_block_proof tl_rd" where
  "read_shard_block_proof T =
     read_boxed T ''liteServer.shardBlockProof''
       (bnd (read_block_id_full T) (\<lambda>b. bnd (read_vec T (read_shard_block_link T)) (\<lambda>l.
        ret \<lparr>sp_mc_block_id = b, sp_links = l\<rparr>)))"

record config_info =
  ci_id :: block_id
  ci_state_proof :: bytes
  ci_config_proof :: bytes

definition read_config_info :: "tl_lib \<Rightarrow> config_info tl_rd" where
  "read_config_info T =
     read_boxed T ''liteServer.configInfo''
       (bnd (get_u32 T) (\<lambda>mode. bnd (read_block_id_full T) (\<lambda>b. bnd (get_bytes T) (\<lambda>s.
        bnd (get_bytes T) (\<lambda>c. ret \<lparr>ci_id = b, ci_state_proof = s, ci_config_proof = c\<rparr>)))))"

record library_entry =
  le_hash :: hash_bytes
  le_data :: bytes

definition read_library_entry :: "tl_lib \<Rightarrow> library_entry tl_rd" where
  "read_library_entry T =
     bnd (get_hash T) (\<lambda>h. bnd (get_bytes T) (\<lambda>d. ret \<lparr>le_hash = h, le_data = d\<rparr>))"

definition read_library_result :: "tl_lib \<Rightarrow> library_entry list tl_rd" where
  "read_library_result T =
     read_boxed T ''liteServer.libraryResult'' (read_vec T (read_library_entry T))"

record transaction_list =
  tl_block_ids :: "block_id list"
  tl_transactions :: bytes

definition read_transaction_list :: "tl_lib \<Rightarrow> transaction_list tl_rd" where
  "read_transaction_list T =
     read_boxed T ''liteServer.transactionList''
       (bnd (read_vec_block_id_full T) (\<lambda>bs. bnd (get_bytes T) (\<lambda>d.
        ret \<lparr>tl_block_ids = bs, tl_transactions = d\<rparr>)))"

record account_state =
  as_id :: block_id
  as_shardblk :: block_id
  as_shard_proof :: bytes
  as_proof :: bytes
  as_state :: bytes

definition read_account_state :: "tl_lib \<Rightarrow> account_state tl_rd" where
  "read_account_state T =
     read_boxed T ''liteServer.accountState''
       (bnd (read_block_id_full T) (\<lambda>a. bnd (read_block_id_full T) (\<lambda>b.
        bnd (get_bytes T) (\<lambda>sp. bnd (get_bytes T) (\<lambda>p. bnd (get_bytes T) (\<lambda>s.
        ret \<lparr>as_id = a, as_shardblk = b, as_shard_proof = sp, as_proof = p, as_state = s\<rparr>))))))"

definition read_tl_string :: "tl_lib \<Rightarrow> string tl_rd" where
  "read_tl_string T = bnd (get_bytes T) (\<lambda>bs. ret (utf8_lossy T bs))"

record server_error =
  se_code :: i32
  se_message :: string

definition read_server_error :: "tl_lib \<Rightarrow> server_error tl_rd" where
  "read_server_error T =
     read_boxed T ''liteServer.error''
       (bnd (get_u32 T) (\<lambda>c. bnd (read_tl_string T) (\<lambda>m. ret \<lparr>se_code = c, se_message = m\<rparr>)))"

section \<open>Flags\<close>

lemma bit_flag_bit [simp]: "bit (flag_bit n x) m \<longleftrightarrow> m = n \<and> n < 32 \<and> x \<noteq> None"
  by (auto simp: flag_bit_def bit_simps)

lemma lookup_mode_bits:
  "bit (lookup_mode q) 0 \<longleftrightarrow> lb_seqno q \<noteq> None"
  "bit (lookup_mode q) 1 \<longleftrightarrow> lb_lt q \<noteq> None"
  "bit (lookup_mode q) 2 \<longleftrightarrow> lb_utime q \<noteq> None"
  "2 < n \<Longrightarrow> \<not> bit (lookup_mode q) n"
  by (auto simp: lookup_mode_def bit_or_iff)

lemma block_proof_mode_bits:
  "bit (block_proof_mode q) 0 \<longleftrightarrow> bp_target_block q \<noteq> None"
  "bit (block_proof_mode q) 12 \<longleftrightarrow> bp_with_known_block q \<noteq> None"
  by (auto simp: block_proof_mode_def bit_or_iff)

section \<open>Round trips\<close>

definition proof_req_ok :: "tl_lib \<Rightarrow> block_proof_req \<Rightarrow> bool" where
  "proof_req_ok T q \<longleftrightarrow>
     full_ok T (bp_known_block q) \<and> (\<forall>b\<in>set_option (bp_target_block q). full_ok T b)"

interpretation unit_tl: tl_codec "\<lambda>_ (_::unit). []" "\<lambda>_. ret ()" "\<lambda>_ _. True"
  by unfold_locales (simp add: rs_apply)

interpretation zerostate_tl: tl_codec write_zerostate read_zerostate "\<lambda>_ _. True"
  by unfold_locales (simp add: write_zerostate_def read_zerostate_def bnd_apply tl_get rs_apply)

interpretation block_proof_tl: tl_codec write_block_proof_req read_block_proof_req proof_req_ok
proof
  fix T :: tl_lib and q :: block_proof_req and r
  assume T: "tl_laws T" and q: "proof_req_ok T q"
  note steps = full_tl.read_write [OF T] full_tl.opt [OF T] unit_tl.opt [OF T]
    block_proof_mode_bits
  from q show "read_block_proof_req T (write_block_proof_req T q @ r) = (Inr q, r)"
    by (simp add: read_block_proof_req_def write_block_proof_req_def read_boxed_def
        write_boxed_def proof_req_ok_def bnd_apply tl_get [OF T] rs_apply steps)
qed

interpretation shard_proof_tl:
  tl_codec write_shard_block_proof_req read_shard_block_proof_req full_ok
  by unfold_locales
    (simp add: write_shard_block_proof_req_def read_shard_block_proof_req_def full_tl.boxed)

section \<open>What answers satisfy\<close>

definition link_ok :: "tl_lib \<Rightarrow> block_link \<Rightarrow> bool" where
  "link_ok T l =
     (case l of
        BlockLinkBack b \<Rightarrow> full_ok T (lk_from b) \<and> full_ok T (lk_to b)
      | BlockLinkForward f \<Rightarrow> full_ok T (lf_from f) \<and> full_ok T (lf_to f))"

definition partial_proof_ok :: "tl_lib \<Rightarrow> partial_block_proof \<Rightarrow> bool" where
  "partial_proof_ok T p \<longleftrightarrow>
     full_ok T (pb_from p) \<and> full_ok T (pb_to p) \<and> (\<forall>l\<in>set (pb_steps p). link_ok T l)"

lemma link_back_ok:
  assumes "tl_laws T"
  shows "reads_only (\<lambda>l. full_ok T (lk_from l) \<and> full_ok T (lk_to l)) (read_link_back T)"
  unfolding read_link_back_def
  by (rule reads_only_any, (rule reads_only_bnd [OF full_reads_ok [OF assms]])+)
    (auto intro!: reads_intro)

lemma link_forward_ok:
  assumes "tl_laws T"
  shows "reads_only (\<lambda>l. full_ok T (lf_from l) \<and> full_ok T (lf_to l)) (read_link_forward T)"
  unfolding read_link_forward_def
  by (rule reads_only_any, (rule reads_only_bnd [OF full_reads_ok [OF assms]])+)
    (auto intro!: reads_intro)

lemma block_link_ok:
  assumes "tl_laws T"
  shows "reads_only (link_ok T) (read_block_link T)"
  unfolding read_block_link_def
  by (intro reads_only_any reads_only_if reads_only_fail
      reads_only_bnd [OF link_back_ok [OF assms]] reads_only_bnd [OF link_forward_ok [OF assms]]
      reads_only_ret)
    (simp_all add: link_ok_def)

lemma partial_block_proof_ok:
  assumes "tl_laws T"
  shows "reads_only (partial_proof_ok T) (read_partial_block_proof T)"
  unfolding read_partial_block_proof_def
  by (rule reads_only_boxed, rule reads_only_any,
      (rule reads_only_bnd [OF full_reads_ok [OF assms]])+,
      rule reads_only_bnd [OF reads_only_vec [OF block_link_ok [OF assms]]])
    (auto intro!: reads_only_ret simp: partial_proof_ok_def)

end
