(* ===== verification/Queries_Cache.thy ===== *)
theory Queries_Cache
  imports Prelude
begin

text \<open>
  \<open>QueriesCache\<close> of \<open>ton-lite-client/src/tcp_adnl/queries_cache.rs\<close>. A oneshot channel is a
  number; \<open>chan\<close> gives its state, and the map \<open>queries\<close> holds the channel whose sender is kept
  under a query id. Dropping a sender that has not sent closes its channel. \<open>pending\<close> holds the
  \<open>PendingAdnlQuery\<close> objects that are alive: for the channel of each, its query id. The
  operations are steps on this state; the lemmas give the invariant that every run keeps.
\<close>

section \<open>State\<close>

datatype 'd channel = Unused | Open | Sent 'd | Closed

record ('q, 'd) queries_cache =
  queries :: "'q \<rightharpoonup> nat"
  chan :: "nat \<Rightarrow> 'd channel"
  pending :: "nat \<rightharpoonup> 'q"
  next_chan :: nat

definition empty_cache :: "('q, 'd) queries_cache" where
  "empty_cache = \<lparr>queries = Map.empty, chan = (\<lambda>_. Unused), pending = Map.empty, next_chan = 0\<rparr>"

text \<open>Dropping the sender in a map slot.\<close>

definition drop_sender :: "nat option \<Rightarrow> ('q, 'd) queries_cache \<Rightarrow> ('q, 'd) queries_cache" where
  "drop_sender slot st =
     (case slot of
        None \<Rightarrow> st
      | Some c \<Rightarrow> if chan st c = Open then st\<lparr>chan := (chan st)(c := Closed)\<rparr> else st)"

text \<open>\<open>add_query\<close>: \<open>insert\<close> drops the sender that was stored under the same id.\<close>

definition add_query :: "'q \<Rightarrow> ('q, 'd) queries_cache \<Rightarrow> nat \<times> ('q, 'd) queries_cache" where
  "add_query q st =
     (let c = next_chan st;
          st1 = drop_sender (queries st q) st in
      (c, st1\<lparr>queries := (queries st1)(q \<mapsto> c), chan := (chan st1)(c := Open),
              pending := (pending st1)(c \<mapsto> q), next_chan := Suc c\<rparr>))"

text \<open>\<open>update_query\<close>: \<open>tx.send(..).ok()\<close> fails silently when the receiver is gone.\<close>

definition update_query :: "'q \<Rightarrow> 'd \<Rightarrow> ('q, 'd) queries_cache \<Rightarrow> ('q, 'd) queries_cache" where
  "update_query q answer st =
     (case queries st q of
        None \<Rightarrow> st
      | Some c \<Rightarrow>
          st\<lparr>queries := (queries st)(q := None),
             chan := (if chan st c = Open then (chan st)(c := Sent answer) else chan st)\<rparr>)"

text \<open>
  \<open>wait\<close>, once its channel has an outcome: the query is finished, its drop does nothing.
  \<open>None\<close> of the outer option means that the future is still pending.
\<close>

definition wait :: "nat \<Rightarrow> ('q, 'd) queries_cache \<Rightarrow> ('d option \<times> ('q, 'd) queries_cache) option" where
  "wait c st =
     (case chan st c of
        Sent d \<Rightarrow> Some (Some d, st\<lparr>pending := (pending st)(c := None)\<rparr>)
      | Closed \<Rightarrow> Some (None, st\<lparr>pending := (pending st)(c := None)\<rparr>)
      | _ \<Rightarrow> None)"

text \<open>
  Dropping a query that is not finished: the entry under its id is removed, whoever put it
  there, and the receiver goes away.
\<close>

definition drop_pending :: "nat \<Rightarrow> ('q, 'd) queries_cache \<Rightarrow> ('q, 'd) queries_cache" where
  "drop_pending c st =
     (case pending st c of
        None \<Rightarrow> st
      | Some q \<Rightarrow>
          let st1 = drop_sender (queries st q) (st\<lparr>queries := (queries st)(q := None)\<rparr>) in
          st1\<lparr>pending := (pending st1)(c := None),
              chan := (if chan st1 c = Open then (chan st1)(c := Closed) else chan st1)\<rparr>)"

section \<open>Runs\<close>

datatype ('q, 'd) cache_event = Add 'q | Answer 'q 'd | Wait nat | Forget nat

fun cache_step :: "('q, 'd) cache_event \<Rightarrow> ('q, 'd) queries_cache \<Rightarrow> ('q, 'd) queries_cache" where
  "cache_step (Add q) st = snd (add_query q st)"
| "cache_step (Answer q d) st = update_query q d st"
| "cache_step (Wait c) st = (case wait c st of None \<Rightarrow> st | Some (r, st1) \<Rightarrow> st1)"
| "cache_step (Forget c) st = drop_pending c st"

definition run_cache :: "('q, 'd) cache_event list \<Rightarrow> ('q, 'd) queries_cache \<Rightarrow> ('q, 'd) queries_cache" where
  "run_cache es st = fold cache_step es st"

lemma run_cache_simps [simp]:
  "run_cache [] st = st"
  "run_cache (es @ fs) st = run_cache fs (run_cache es st)"
  "run_cache (e # es) st = run_cache es (cache_step e st)"
  by (simp_all add: run_cache_def)

section \<open>The invariant\<close>

text \<open>
  A stored sender belongs to an open channel that was created under that id, and while its
  receiver lives the query is pending under the same id.
\<close>

definition cache_inv :: "('q, 'd) queries_cache \<Rightarrow> bool" where
  "cache_inv st \<longleftrightarrow>
     (\<forall>q c. queries st q = Some c \<longrightarrow> c < next_chan st \<and> chan st c = Open \<and> pending st c = Some q) \<and>
     (\<forall>c q. chan st c = Open \<longrightarrow> pending st c = Some q \<longrightarrow> queries st q = Some c) \<and>
     (\<forall>c. pending st c \<noteq> None \<longrightarrow> c < next_chan st) \<and>
     (\<forall>c. chan st c = Unused \<longleftrightarrow> next_chan st \<le> c)"

lemma cache_invD:
  assumes "cache_inv st"
  shows "queries st q = Some c \<Longrightarrow> c < next_chan st"
    and "queries st q = Some c \<Longrightarrow> chan st c = Open"
    and "queries st q = Some c \<Longrightarrow> pending st c = Some q"
    and "chan st c = Open \<Longrightarrow> pending st c = Some q \<Longrightarrow> queries st q = Some c"
    and "pending st c = Some q \<Longrightarrow> c < next_chan st"
    and "chan st c = Unused \<longleftrightarrow> next_chan st \<le> c"
  using assms unfolding cache_inv_def by blast+

lemma cache_invI:
  assumes "\<And>q c. queries st q = Some c \<Longrightarrow>
      c < next_chan st \<and> chan st c = Open \<and> pending st c = Some q"
    and "\<And>c q. chan st c = Open \<Longrightarrow> pending st c = Some q \<Longrightarrow> queries st q = Some c"
    and "\<And>c q. pending st c = Some q \<Longrightarrow> c < next_chan st"
    and "\<And>c. chan st c = Unused \<longleftrightarrow> next_chan st \<le> c"
  shows "cache_inv st"
  unfolding cache_inv_def using assms by blast

lemma cache_inv_empty: "cache_inv empty_cache"
  by (simp add: cache_inv_def empty_cache_def)

text \<open>Taking a sender out of the map and using it up.\<close>

lemma cache_inv_release:
  assumes I: "cache_inv st" and slot: "queries st q = Some c0" and v: "v \<noteq> Open" "v \<noteq> Unused"
  shows "cache_inv (st\<lparr>queries := (queries st)(q := None), chan := (chan st)(c0 := v)\<rparr>)"
proof -
  note facts = cache_invD(1-3) [OF I slot]
  have other: "c \<noteq> c0" if "queries st q1 = Some c" "q1 \<noteq> q" for q1 c
    using cache_invD(3) [OF I that(1)] facts(3) that(2) by auto
  have used: "\<not> next_chan st \<le> c0" using facts(1) by simp
  show ?thesis
  proof (rule cache_invI)
    fix q1 c
    assume a: "queries (st\<lparr>queries := (queries st)(q := None), chan := (chan st)(c0 := v)\<rparr>) q1 = Some c"
    then have q1: "q1 \<noteq> q" "queries st q1 = Some c" by (auto split: if_splits)
    with other cache_invD(1-3) [OF I q1(2)]
    show "c < next_chan (st\<lparr>queries := (queries st)(q := None), chan := (chan st)(c0 := v)\<rparr>) \<and>
        chan (st\<lparr>queries := (queries st)(q := None), chan := (chan st)(c0 := v)\<rparr>) c = Open \<and>
        pending (st\<lparr>queries := (queries st)(q := None), chan := (chan st)(c0 := v)\<rparr>) c = Some q1"
      by simp
  qed (use v used in \<open>auto simp: cache_invD(6) [OF I] split: if_splits dest: cache_invD(4,5) [OF I]
      intro: cache_invD(4) [OF I]\<close>, use cache_invD(4) [OF I] slot facts in fastforce)
qed

lemma cache_inv_insert:
  assumes I: "cache_inv st" and slot: "queries st q = None"
  shows "cache_inv (st\<lparr>queries := (queries st)(q \<mapsto> next_chan st),
    chan := (chan st)(next_chan st := Open), pending := (pending st)(next_chan st \<mapsto> q),
    next_chan := Suc (next_chan st)\<rparr>)"
proof -
  have fresh: "c \<noteq> next_chan st" if "pending st c = Some q1" for c q1
    using cache_invD(5) [OF I that] by simp
  show ?thesis
    by (rule cache_invI)
      (use fresh slot in \<open>auto simp: cache_invD(6) [OF I] split: if_splits intro: less_SucI
        dest: cache_invD(1-5) [OF I]\<close>)
qed

lemma cache_inv_forget:
  assumes I: "cache_inv st" and p: "pending st c = Some q" and slot: "queries st q = None"
  shows "cache_inv (st\<lparr>pending := (pending st)(c := None),
    chan := (if chan st c = Open then (chan st)(c := Closed) else chan st)\<rparr>)"
proof -
  have other: "c1 \<noteq> c" if "queries st q1 = Some c1" for q1 c1
    using cache_invD(3) [OF I that] p slot that by auto
  have "\<not> next_chan st \<le> c" using cache_invD(5) [OF I p] by simp
  then show ?thesis
    by (intro cache_invI)
      (use other p slot in \<open>auto simp: cache_invD(6) [OF I] split: if_splits
        dest: cache_invD(1-5) [OF I]\<close>)
qed

lemma drop_slot_release:
  assumes "cache_inv st" and "queries st q = Some c0"
  shows "drop_sender (queries st q) (st\<lparr>queries := (queries st)(q := None)\<rparr>) =
    st\<lparr>queries := (queries st)(q := None), chan := (chan st)(c0 := Closed)\<rparr>"
  using cache_invD(2) [OF assms] assms(2) by (simp add: drop_sender_def)

lemma cache_inv_drop_slot:
  assumes "cache_inv st"
  shows "cache_inv (drop_sender (queries st q) (st\<lparr>queries := (queries st)(q := None)\<rparr>))"
proof (cases "queries st q")
  case None
  then have "(queries st)(q := None) = queries st" by (simp add: fun_eq_iff)
  with None assms show ?thesis by (simp add: drop_sender_def)
next
  case (Some c0)
  then show ?thesis
    unfolding drop_slot_release [OF assms Some] by (intro cache_inv_release assms) simp_all
qed

lemma drop_sender_fields [simp]:
  "queries (drop_sender s st) = queries st"
  "pending (drop_sender s st) = pending st"
  "next_chan (drop_sender s st) = next_chan st"
  by (simp_all add: drop_sender_def split: option.split)

lemma cache_inv_add:
  assumes I: "cache_inv st"
  shows "cache_inv (snd (add_query q st))"
proof -
  let ?st1 = "drop_sender (queries st q) (st\<lparr>queries := (queries st)(q := None)\<rparr>)"
  have "snd (add_query q st) =
    ?st1\<lparr>queries := (queries ?st1)(q \<mapsto> next_chan ?st1),
      chan := (chan ?st1)(next_chan ?st1 := Open), pending := (pending ?st1)(next_chan ?st1 \<mapsto> q),
      next_chan := Suc (next_chan ?st1)\<rparr>"
    by (simp add: add_query_def Let_def drop_sender_def split: option.split)
  then show ?thesis
    by (simp only:) (rule cache_inv_insert, rule cache_inv_drop_slot [OF I], simp)
qed

lemma cache_inv_update:
  assumes I: "cache_inv st"
  shows "cache_inv (update_query q d st)"
proof (cases "queries st q")
  case None
  with I show ?thesis by (simp add: update_query_def)
next
  case (Some c0)
  with cache_invD(2) [OF I Some] have
    "update_query q d st = st\<lparr>queries := (queries st)(q := None), chan := (chan st)(c0 := Sent d)\<rparr>"
    by (simp add: update_query_def)
  with cache_inv_release [OF I Some, of "Sent d"] show ?thesis by simp
qed

lemma cache_inv_wait:
  assumes I: "cache_inv st" and w: "wait c st = Some (r, st1)"
  shows "cache_inv st1"
proof -
  from w have st1: "st1 = st\<lparr>pending := (pending st)(c := None)\<rparr>" and fin: "chan st c \<noteq> Open"
    by (auto simp: wait_def split: channel.splits)
  have "c1 \<noteq> c" if "queries st q1 = Some c1" for q1 c1
    using cache_invD(2) [OF I that] fin by auto
  with fin show ?thesis
    unfolding st1
    by (intro cache_invI)
      (auto simp: cache_invD(6) [OF I] split: if_splits dest: cache_invD(1-5) [OF I])
qed

lemma cache_inv_drop:
  assumes I: "cache_inv st"
  shows "cache_inv (drop_pending c st)"
proof (cases "pending st c")
  case None
  with I show ?thesis by (simp add: drop_pending_def)
next
  case (Some q)
  let ?st1 = "drop_sender (queries st q) (st\<lparr>queries := (queries st)(q := None)\<rparr>)"
  have "cache_inv ?st1" by (rule cache_inv_drop_slot [OF I])
  moreover have "pending ?st1 c = Some q" "queries ?st1 q = None" using Some by simp_all
  ultimately have "cache_inv (?st1\<lparr>pending := (pending ?st1)(c := None),
    chan := (if chan ?st1 c = Open then (chan ?st1)(c := Closed) else chan ?st1)\<rparr>)"
    by (rule cache_inv_forget)
  with Some show ?thesis by (simp add: drop_pending_def Let_def)
qed

lemma cache_inv_step: "cache_inv st \<Longrightarrow> cache_inv (cache_step e st)"
  by (cases e)
    (auto simp: cache_inv_add cache_inv_update cache_inv_drop
      split: option.splits intro: cache_inv_wait)

lemma cache_inv_run: "cache_inv st \<Longrightarrow> cache_inv (run_cache es st)"
  by (induction es arbitrary: st) (auto intro: cache_inv_step)

section \<open>Channels\<close>

text \<open>A channel that has its answer, or was closed, stays as it is.\<close>

lemma chan_add:
  "c < next_chan st \<Longrightarrow> chan st c \<noteq> Open \<Longrightarrow> chan (snd (add_query q st)) c = chan st c"
  by (auto simp: add_query_def drop_sender_def Let_def split: option.splits)

lemma chan_final_step:
  assumes "cache_inv st" and "chan st c \<noteq> Open" and "c < next_chan st"
  shows "chan (cache_step e st) c = chan st c \<and> c < next_chan (cache_step e st)"
proof (cases e)
  case (Add q)
  with chan_add [OF assms(3,2)] assms(3) show ?thesis by (simp add: add_query_def Let_def)
next
  case (Answer q d)
  with assms(2,3) show ?thesis by (auto simp: update_query_def split: option.splits)
next
  case (Wait c1)
  with assms(2,3) show ?thesis by (auto simp: wait_def split: channel.splits)
next
  case (Forget c1)
  with assms(2,3) show ?thesis by (auto simp: drop_pending_def drop_sender_def Let_def split: option.splits)
qed

lemma chan_final_run:
  assumes "cache_inv st" and "chan st c \<noteq> Open" and "c < next_chan st"
  shows "chan (run_cache es st) c = chan st c"
  using assms
proof (induction es arbitrary: st)
  case (Cons e es)
  from chan_final_step [OF Cons.prems] cache_inv_step [OF Cons.prems(1)] Cons.IH Cons.prems(2)
  show ?case by simp
qed simp

lemma update_delivers:
  assumes I: "cache_inv st" and "pending st c = Some q" and "chan st c = Open"
  shows "chan (update_query q d st) c = Sent d"
  using cache_invD(4) [OF I assms(3,2)] assms(3) by (simp add: update_query_def)

lemma next_chan_update [simp]: "next_chan (update_query q d st) = next_chan st"
  by (simp add: update_query_def split: option.split)

section \<open>Distinct query ids\<close>

fun added :: "('q, 'd) cache_event list \<Rightarrow> 'q list" where
  "added [] = []"
| "added (Add q # es) = q # added es"
| "added (_ # es) = added es"

lemma added_append [simp]: "added (es @ fs) = added es @ added fs"
  by (induction es rule: added.induct) simp_all

text \<open>As long as no id is used twice, only a query that is dropped loses its sender.\<close>

definition unique_inv :: "'q set \<Rightarrow> ('q, 'd) queries_cache \<Rightarrow> bool" where
  "unique_inv Q st \<longleftrightarrow>
     (\<forall>c q. pending st c = Some q \<longrightarrow> q \<in> Q \<and> chan st c \<noteq> Closed) \<and>
     (\<forall>c1 c2 q. pending st c1 = Some q \<longrightarrow> pending st c2 = Some q \<longrightarrow> c1 = c2)"

lemma unique_invD:
  assumes "unique_inv Q st"
  shows "pending st c = Some q \<Longrightarrow> q \<in> Q"
    and "pending st c = Some q \<Longrightarrow> chan st c \<noteq> Closed"
    and "pending st c1 = Some q \<Longrightarrow> pending st c2 = Some q \<Longrightarrow> c1 = c2"
  using assms unfolding unique_inv_def by blast+

lemma unique_inv_add:
  assumes I: "cache_inv st" and U: "unique_inv Q st" and "q \<notin> Q"
  shows "unique_inv (insert q Q) (snd (add_query q st))"
proof -
  have none: "queries st q = None"
    using cache_invD(3) [OF I] unique_invD(1) [OF U] assms(3) by (metis not_None_eq)
  have fresh: "c \<noteq> next_chan st" if "pending st c = Some q1" for c q1
    using cache_invD(5) [OF I that] by simp
  show ?thesis
    unfolding unique_inv_def add_query_def
    using none fresh assms(3)
    by (auto simp: drop_sender_def Let_def split: if_splits dest: unique_invD(1,2) [OF U] unique_invD(3) [OF U])
qed

lemma unique_inv_update:
  assumes "unique_inv Q st"
  shows "unique_inv Q (update_query q d st)"
  using assms unfolding unique_inv_def update_query_def by (auto split: option.splits)

lemma unique_inv_wait:
  assumes "unique_inv Q st" and "wait c st = Some (r, st1)"
  shows "unique_inv Q st1"
  using assms unfolding unique_inv_def wait_def by (auto split: channel.splits if_splits)

lemma unique_inv_drop:
  assumes I: "cache_inv st" and U: "unique_inv Q st"
  shows "unique_inv Q (drop_pending c st)"
proof (cases "pending st c")
  case None
  with U show ?thesis by (simp add: drop_pending_def)
next
  case (Some q)
  have slot: "c0 = c" if "queries st q = Some c0" for c0
    using unique_invD(3) [OF U cache_invD(3) [OF I that] Some] .
  show ?thesis
    unfolding unique_inv_def drop_pending_def
    using Some slot
    by (auto simp: drop_sender_def Let_def split: option.splits if_splits
        dest: unique_invD(1,2) [OF U] unique_invD(3) [OF U])
qed

lemma unique_inv_step:
  assumes I: "cache_inv st" and U: "unique_inv Q st" and "distinct (added [e])"
    and "set (added [e]) \<inter> Q = {}"
  shows "unique_inv (Q \<union> set (added [e])) (cache_step e st)"
  using assms unique_inv_add [OF I U] unique_inv_drop [OF I U] unique_inv_update [OF U]
    unique_inv_wait [OF U]
  by (cases e) (auto split: option.splits)

lemma unique_inv_run:
  assumes "cache_inv st" and "unique_inv Q st" and "distinct (added es)" and "set (added es) \<inter> Q = {}"
  shows "unique_inv (Q \<union> set (added es)) (run_cache es st)"
  using assms
proof (induction es arbitrary: Q st)
  case (Cons e es)
  have split: "added (e # es) = added [e] @ added es" using added_append [of "[e]" es] by simp
  have "unique_inv (Q \<union> set (added [e])) (cache_step e st)"
    using Cons.prems by (intro unique_inv_step) (auto simp: split)
  then have "unique_inv (Q \<union> set (added [e]) \<union> set (added es)) (run_cache es (cache_step e st))"
    using Cons.prems cache_inv_step [OF Cons.prems(1)] by (intro Cons.IH) (auto simp: split)
  then show ?case by (simp add: split Un_assoc)
qed simp

lemma unique_inv_empty: "unique_inv {} empty_cache"
  by (simp add: unique_inv_def empty_cache_def)

end
