(* ===== verification/Adnl.thy ===== *)
theory Adnl
  imports Lite_Proto Queries_Cache
begin

text \<open>
  The encrypted connection to a lite server, \<open>ton-lite-client/src/tcp_adnl/mod.rs\<close>: building
  and encrypting packets, the handshake, the socket reader with its packet buffer, a query
  from its message to its result, and the closed flag with its wake-up. Hashing, the stream
  cipher and the key exchange are parameters; \<open>adnl_laws\<close> says that the digest has 32 bytes
  and that the cipher adds a key stream: it works piece by piece and undoes itself. What the
  socket reads is an event; the reader is a step on its buffer and on the queries cache.
\<close>

section \<open>Cryptography\<close>

record 'k adnl_lib =
  sha256 :: "bytes \<Rightarrow> bytes"
  cipher_new :: "bytes \<Rightarrow> bytes \<Rightarrow> 'k"
  apply_keystream :: "'k \<Rightarrow> bytes \<Rightarrow> bytes \<times> 'k"
  key_short_id :: "bytes \<Rightarrow> bytes"
  public_of :: "bytes \<Rightarrow> bytes"
  shared_secret_of :: "bytes \<Rightarrow> bytes \<Rightarrow> bytes"

definition adnl_laws :: "'k adnl_lib \<Rightarrow> bool" where
  "adnl_laws A \<longleftrightarrow>
     (\<forall>xs. length (sha256 A xs) = 32) \<and>
     (\<forall>k. apply_keystream A k [] = ([], k)) \<and>
     (\<forall>k xs ys. apply_keystream A k (xs @ ys) =
        (fst (apply_keystream A k xs) @
           fst (apply_keystream A (snd (apply_keystream A k xs)) ys),
         snd (apply_keystream A (snd (apply_keystream A k xs)) ys))) \<and>
     (\<forall>k xs. length (fst (apply_keystream A k xs)) = length xs) \<and>
     (\<forall>k xs. apply_keystream A k (fst (apply_keystream A k xs)) = (xs, snd (apply_keystream A k xs))) \<and>
     (\<forall>p. length (key_short_id A p) = 32) \<and> (\<forall>s. length (public_of A s) = 32)"

lemma adnl_lawsD:
  assumes "adnl_laws A"
  shows "length (sha256 A xs) = 32"
    and "apply_keystream A k [] = ([], k)"
    and "apply_keystream A k (xs @ ys) =
        (fst (apply_keystream A k xs) @
           fst (apply_keystream A (snd (apply_keystream A k xs)) ys),
         snd (apply_keystream A (snd (apply_keystream A k xs)) ys))"
    and "length (fst (apply_keystream A k xs)) = length xs"
    and "apply_keystream A k (fst (apply_keystream A k xs)) = (xs, snd (apply_keystream A k xs))"
    and "length (key_short_id A p) = 32"
    and "length (public_of A s) = 32"
  using assms unfolding adnl_laws_def by blast+

section \<open>Packets\<close>

text \<open>The Rust slice \<open>xs[a..b]\<close>, for bounds inside the slice.\<close>

definition sub_bytes :: "nat \<Rightarrow> nat \<Rightarrow> bytes \<Rightarrow> bytes" where
  "sub_bytes a b xs = drop a (take b xs)"

text \<open>
  \<open>encrypt_data\<close>: the buffer grows by 36 bytes, the data moves to offset 36, the length is
  written over the first four bytes. The nonce the source draws is not put into the buffer, so
  bytes 4 to 36 keep what the buffer held there.
\<close>

definition frame_data :: "'k adnl_lib \<Rightarrow> bytes \<Rightarrow> bytes" where
  "frame_data A data =
     (let len = length data;
          resized = data @ replicate 36 0;
          moved = take 36 resized @ data;
          framed = u32_le (word_of_nat (len + 64)) @ drop 4 moved in
      framed @ sha256 A (drop 4 framed))"

definition encrypt_data :: "'k adnl_lib \<Rightarrow> 'k \<Rightarrow> bytes \<Rightarrow> bytes \<times> 'k" where
  "encrypt_data A cipher data = apply_keystream A cipher (frame_data A data)"

definition build_packet_cipher :: "'k adnl_lib \<Rightarrow> bytes \<Rightarrow> bytes \<Rightarrow> 'k" where
  "build_packet_cipher A shared_secret checksum =
     cipher_new A (sub_bytes 0 16 shared_secret @ sub_bytes 16 32 checksum)
                  (sub_bytes 0 4 checksum @ sub_bytes 20 32 shared_secret)"

definition build_handshake_packet :: "'k adnl_lib \<Rightarrow> bytes \<Rightarrow> bytes \<Rightarrow> bytes \<Rightarrow> bytes" where
  "build_handshake_packet A server_pubkey client_secret buffer =
     (let server_short_id = key_short_id A server_pubkey;
          client_public_key = public_of A client_secret;
          shared_secret = shared_secret_of A client_secret server_pubkey;
          checksum = sha256 A buffer in
      server_short_id @ client_public_key @ checksum @
      fst (apply_keystream A (build_packet_cipher A shared_secret checksum) buffer))"

text \<open>\<open>connect\<close> once the socket is open: the packet it sends and the two ciphers it keeps.\<close>

definition connect_ciphers :: "'k adnl_lib \<Rightarrow> bytes \<Rightarrow> 'k \<times> 'k" where
  "connect_ciphers A initial_buffer =
     (cipher_new A (sub_bytes 0 32 initial_buffer) (sub_bytes 64 80 initial_buffer),
      cipher_new A (sub_bytes 32 64 initial_buffer) (sub_bytes 80 96 initial_buffer))"

section \<open>The socket reader\<close>

type_synonym answers = "(hash_bytes, bytes) queries_cache"

definition MIN_PACKET_LEN :: nat where
  "MIN_PACKET_LEN = 4 + 32 + 32"

text \<open>The block \<open>'packet\<close>: the answer in a packet, unless the packet is skipped.\<close>

definition packet_answer :: "'k adnl_lib \<Rightarrow> tl_lib \<Rightarrow> bytes \<Rightarrow> nat \<Rightarrow> adnl_answer option" where
  "packet_answer A T packet len =
     (if len < MIN_PACKET_LEN then None
      else if sha256 A (sub_bytes 4 (len - 32) packet) \<noteq> sub_bytes (len - 32) len packet then None
      else let data = sub_bytes (4 + 32) (len - 32) packet in
        if data = [] then None
        else case deserialize (read_adnl_answer T) data of Inl e \<Rightarrow> None | Inr a \<Rightarrow> Some a)"

definition deliver :: "adnl_answer option \<Rightarrow> answers \<Rightarrow> answers" where
  "deliver x cache =
     (case x of None \<Rightarrow> cache | Some a \<Rightarrow> update_query (aa_query_id a) (aa_data a) cache)"

text \<open>The inner loop: packets are taken from the buffer while it holds a whole one.\<close>

function drain ::
  "'k adnl_lib \<Rightarrow> tl_lib \<Rightarrow> bytes \<Rightarrow> nat option \<Rightarrow> answers \<Rightarrow> bytes \<times> nat option \<times> answers" where
  "drain A T packet target_len cache =
     (if length packet < case_option MIN_PACKET_LEN (\<lambda>n. n) target_len
      then (packet, target_len, cache)
      else
        let len = of_le (take 4 packet) + 4 in
        if length packet < len then (packet, Some len, cache)
        else drain A T (drop len packet) None (deliver (packet_answer A T packet len) cache))"
  by auto
termination
  by (relation "measure (\<lambda>(A, T, packet, target_len, cache). length packet)") auto

declare drain.simps [simp del]

record 'k reader =
  rd_cipher :: 'k
  rd_packet :: bytes
  rd_target_len :: "nat option"
  rd_cache :: answers
  rd_closed :: bool

datatype read_event = ReadOk bytes | ReadErr

definition reader_step :: "'k adnl_lib \<Rightarrow> tl_lib \<Rightarrow> 'k reader \<Rightarrow> read_event \<Rightarrow> 'k reader" where
  "reader_step A T st ev =
     (if rd_closed st then st
      else case ev of
        ReadErr \<Rightarrow> st\<lparr>rd_closed := True\<rparr>
      | ReadOk buffer \<Rightarrow>
          if buffer = [] then st\<lparr>rd_closed := True\<rparr>
          else
            let (plain, cipher) = apply_keystream A (rd_cipher st) buffer;
                (packet, target_len, cache) =
                  drain A T (rd_packet st @ plain) (rd_target_len st) (rd_cache st) in
            st\<lparr>rd_cipher := cipher, rd_packet := packet, rd_target_len := target_len,
               rd_cache := cache\<rparr>)"

definition run_reader :: "'k adnl_lib \<Rightarrow> tl_lib \<Rightarrow> 'k reader \<Rightarrow> read_event list \<Rightarrow> 'k reader" where
  "run_reader A T st evs = foldl (reader_step A T) st evs"

section \<open>Queries\<close>

datatype adnl_error = ConnectionError | SocketClosed | InvalidAnswer tl_error | DuplicateQuery

text \<open>\<open>query_id[..8]\<close> is the counter in little endian, the other 24 bytes are zero.\<close>

definition query_id_of :: "u64 \<Rightarrow> hash_bytes" where
  "query_id_of n = hash_of_bytes (u64_le n @ replicate 24 0)"

record adnl_shared =
  sh_query_id :: u64
  sh_cache :: answers

definition start_query ::
  "tl_lib \<Rightarrow> bytes \<Rightarrow> adnl_shared \<Rightarrow> (nat \<times> bytes) \<times> adnl_shared" where
  "start_query T query st =
     (let seqno = sh_query_id st;
          query_id = query_id_of seqno;
          data = write_adnl_query T
            \<lparr>aq_query_id = query_id, aq_query = \<lparr>wq_wait = None, wq_query = query\<rparr>\<rparr>;
          (c, cache) = add_query query_id (sh_cache st) in
      ((c, data), st\<lparr>sh_query_id := seqno + 1, sh_cache := cache\<rparr>))"

text \<open>The task that sends, and which of the two futures is ready first.\<close>

datatype send_outcome = SendPanicked | SendFailed | SendDone

datatype select_outcome = SentFirst send_outcome "bytes option" | AnsweredFirst "bytes option"

definition finish_query :: "'a tl_rd \<Rightarrow> select_outcome \<Rightarrow> adnl_error + 'a" where
  "finish_query rd outcome =
     bindR (case outcome of
        SentFirst SendPanicked later \<Rightarrow> Inl SocketClosed
      | SentFirst SendFailed later \<Rightarrow> Inl ConnectionError
      | SentFirst SendDone later \<Rightarrow> Inr later
      | AnsweredFirst left \<Rightarrow> Inr left) (\<lambda>res.
     case res of
       Some bs \<Rightarrow> map_err InvalidAnswer (deserialize rd bs)
     | None \<Rightarrow> Inl DuplicateQuery)"

section \<open>The closed flag\<close>

text \<open>
  \<open>Closed::close\<close> stores the flag and then calls \<open>notify_waiters\<close>, which wakes every
  \<open>Notified\<close> future created before the call; \<open>notify_calls\<close> counts the calls. \<open>wait_closed\<close>
  creates its future, then checks the flag, then waits. Each line is one step, and the two
  tasks take their steps in any order.
\<close>

datatype closer_pc = StoreFlag | NotifyWaiters | CloserDone
datatype waiter_pc = CreateNotified | CheckFlag nat | AwaitNotified nat | WaiterDone

record closed_state =
  closed_flag :: bool
  notify_calls :: nat
  closer :: closer_pc
  waiter :: waiter_pc

definition closed_init :: closed_state where
  "closed_init = \<lparr>closed_flag = False, notify_calls = 0, closer = StoreFlag, waiter = CreateNotified\<rparr>"

fun closer_step :: "closed_state \<Rightarrow> closed_state" where
  "closer_step st =
     (case closer st of
        StoreFlag \<Rightarrow> st\<lparr>closed_flag := True, closer := NotifyWaiters\<rparr>
      | NotifyWaiters \<Rightarrow> st\<lparr>notify_calls := Suc (notify_calls st), closer := CloserDone\<rparr>
      | CloserDone \<Rightarrow> st)"

fun waiter_step :: "closed_state \<Rightarrow> closed_state" where
  "waiter_step st =
     (case waiter st of
        CreateNotified \<Rightarrow> st\<lparr>waiter := CheckFlag (notify_calls st)\<rparr>
      | CheckFlag n \<Rightarrow> st\<lparr>waiter := (if closed_flag st then WaiterDone else AwaitNotified n)\<rparr>
      | AwaitNotified n \<Rightarrow> if n < notify_calls st then st\<lparr>waiter := WaiterDone\<rparr> else st
      | WaiterDone \<Rightarrow> st)"

text \<open>A schedule: \<open>True\<close> is a step of the task that closes.\<close>

definition run_closed :: "bool list \<Rightarrow> closed_state \<Rightarrow> closed_state" where
  "run_closed sched st = fold (\<lambda>b. if b then closer_step else waiter_step) sched st"

section \<open>Framing\<close>

lemma length_sub_bytes [simp]: "length (sub_bytes a b xs) = min b (length xs) - a"
  by (simp add: sub_bytes_def)

lemma frame_shape:
  "frame_data A data =
     u32_le (word_of_nat (length data + 64)) @ drop 4 (take 36 (data @ replicate 36 0)) @ data @
     sha256 A (drop 4 (take 36 (data @ replicate 36 0)) @ data)"
  by (simp add: frame_data_def Let_def)

text \<open>
  The 32 bytes at the place of the nonce are bytes 4 to 36 of the message itself, filled up
  with zeros: they are the same for every sending of the message.
\<close>

lemma nonce_is_message:
  "sub_bytes 4 36 (frame_data A data) = sub_bytes 4 36 (data @ replicate 36 0)"
  by (simp add: frame_shape sub_bytes_def)

lemma length_frame:
  assumes "adnl_laws A"
  shows "length (frame_data A data) = length data + 68"
  by (simp add: frame_shape adnl_lawsD [OF assms])

lemma of_le_length: "n < 2 ^ 32 \<Longrightarrow> of_le (u32_le (word_of_nat n)) = n"
  by (simp add: unat_of_nat take_bit_nat_eq_self)

lemma frame_length_field:
  assumes "length data + 64 < 2 ^ 32"
  shows "of_le (take 4 (frame_data A data @ rest)) = length data + 64"
proof -
  have "take 4 (frame_data A data @ rest) = u32_le (word_of_nat (length data + 64))"
    by (simp add: frame_shape)
  then show ?thesis using of_le_length [OF assms] by (simp only:)
qed

definition frame_answer :: "tl_lib \<Rightarrow> bytes \<Rightarrow> adnl_answer option" where
  "frame_answer T data =
     (if data = [] then None
      else case deserialize (read_adnl_answer T) data of Inl e \<Rightarrow> None | Inr a \<Rightarrow> Some a)"

lemma frame_slices:
  assumes A: "adnl_laws A"
  shows "sub_bytes 4 (36 + length data) (frame_data A data @ rest) =
      drop 4 (take 36 (data @ replicate 36 0)) @ data"
    and "sub_bytes (36 + length data) (length data + 68) (frame_data A data @ rest) =
      sha256 A (drop 4 (take 36 (data @ replicate 36 0)) @ data)"
    and "sub_bytes 36 (36 + length data) (frame_data A data @ rest) = data"
  by (simp_all add: sub_bytes_def frame_shape adnl_lawsD [OF A])

lemma packet_answer_frame:
  assumes A: "adnl_laws A"
  shows "packet_answer A T (frame_data A data @ rest) (length data + 68) = frame_answer T data"
  using frame_slices [OF A]
  by (simp add: packet_answer_def MIN_PACKET_LEN_def frame_answer_def Let_def)

section \<open>Reading a stream\<close>

text \<open>
  What the reader keeps between two reads: with a known target it has seen the length field
  of an incomplete packet, otherwise it waits for the smallest packet.
\<close>

definition target_ok :: "bytes \<Rightarrow> nat option \<Rightarrow> bool" where
  "target_ok packet t =
     (case t of
        None \<Rightarrow> length packet < MIN_PACKET_LEN
      | Some n \<Rightarrow> MIN_PACKET_LEN \<le> length packet \<and> length packet < n \<and> n = of_le (take 4 packet) + 4)"

text \<open>The three ways an iteration of the inner loop can go.\<close>

lemma drain_wait:
  "length packet < case_option MIN_PACKET_LEN (\<lambda>n. n) t \<Longrightarrow> drain A T packet t cache = (packet, t, cache)"
  by (subst drain.simps) simp

lemma drain_incomplete:
  assumes "case_option MIN_PACKET_LEN (\<lambda>n. n) t \<le> length packet"
    and "length packet < of_le (take 4 packet) + 4"
  shows "drain A T packet t cache = (packet, Some (of_le (take 4 packet) + 4), cache)"
proof -
  have "\<not> length packet < case_option MIN_PACKET_LEN (\<lambda>n. n) t" using assms(1) by simp
  then show ?thesis using assms(2) by (subst drain.simps) (simp add: Let_def)
qed

lemma drain_packet:
  assumes "case_option MIN_PACKET_LEN (\<lambda>n. n) t \<le> length packet"
    and "len = of_le (take 4 packet) + 4" and "len \<le> length packet"
  shows "drain A T packet t cache =
    drain A T (drop len packet) None (deliver (packet_answer A T packet len) cache)"
proof -
  have "\<not> length packet < case_option MIN_PACKET_LEN (\<lambda>n. n) t" using assms(1) by simp
  then show ?thesis using assms(2,3) by (subst drain.simps) (simp add: Let_def)
qed

lemma take4_append: "MIN_PACKET_LEN \<le> length packet \<Longrightarrow> take 4 (packet @ extra) = take 4 packet"
  by (simp add: MIN_PACKET_LEN_def)

lemma drain_target:
  assumes "target_ok packet t"
  shows "drain A T (packet @ extra) t cache = drain A T (packet @ extra) None cache"
proof (cases t)
  case (Some n)
  with assms have len: "MIN_PACKET_LEN \<le> length packet" and n: "n = of_le (take 4 packet) + 4"
    by (auto simp: target_ok_def)
  have n2: "n = of_le (take 4 (packet @ extra)) + 4" unfolding n take4_append [OF len] ..
  show ?thesis
  proof (cases "length (packet @ extra) < n")
    case True
    have "drain A T (packet @ extra) (Some n) cache = (packet @ extra, Some n, cache)"
      using True by (intro drain_wait) simp
    moreover have "drain A T (packet @ extra) None cache = (packet @ extra, Some n, cache)"
      unfolding n2 using True len by (intro drain_incomplete) (simp_all only: n2 [symmetric], simp)
    ultimately show ?thesis using Some by simp
  next
    case False
    then have "drain A T (packet @ extra) t1 cache =
        drain A T (drop n (packet @ extra)) None (deliver (packet_answer A T (packet @ extra) n) cache)"
      if "t1 = None \<or> t1 = Some n" for t1
      using that len by (intro drain_packet n2) auto
    with Some show ?thesis by simp
  qed
qed simp

lemma drain_cases:
  obtains (wait) "length packet < MIN_PACKET_LEN"
  | (incomplete) "MIN_PACKET_LEN \<le> length packet" "length packet < of_le (take 4 packet) + 4"
  | (packet) "MIN_PACKET_LEN \<le> length packet" "of_le (take 4 packet) + 4 \<le> length packet"
  by linarith

lemma drop_packet_less:
  "MIN_PACKET_LEN \<le> length packet \<Longrightarrow> length (drop (n + 4) packet) < length packet"
  by (simp add: MIN_PACKET_LEN_def)

lemma drain_settles: "drain A T packet None cache = (p, t, c) \<Longrightarrow> target_ok p t"
proof (induction "length packet" arbitrary: packet cache rule: less_induct)
  case less
  show ?case
  proof (cases packet rule: drain_cases)
    case wait
    with less.prems drain_wait [of packet None A T cache] show ?thesis by (auto simp: target_ok_def)
  next
    case incomplete
    with less.prems drain_incomplete [of None packet A T cache] show ?thesis
      by (auto simp: target_ok_def)
  next
    case packet
    with less.prems drain_packet [of None packet, OF _ refl, of A T cache]
    have "drain A T (drop (of_le (take 4 packet) + 4) packet) None
        (deliver (packet_answer A T packet (of_le (take 4 packet) + 4)) cache) = (p, t, c)"
      by simp
    with less.hyps [OF drop_packet_less [OF packet(1)]] show ?thesis by blast
  qed
qed

lemma packet_answer_append:
  assumes "len \<le> length packet"
  shows "packet_answer A T (packet @ extra) len = packet_answer A T packet len"
  using assms by (simp add: packet_answer_def sub_bytes_def)

text \<open>Draining in two pieces is draining at once.\<close>

lemma drain_append:
  assumes "drain A T packet None cache = (p, t, c)"
  shows "drain A T (packet @ extra) None cache = drain A T (p @ extra) t c"
  using assms
proof (induction "length packet" arbitrary: packet cache rule: less_induct)
  case less
  show ?case
  proof (cases packet rule: drain_cases)
    case wait
    with less.prems drain_wait [of packet None A T cache] show ?thesis by simp
  next
    case incomplete
    then have "target_ok packet (Some (of_le (take 4 packet) + 4))" by (simp add: target_ok_def)
    note target = drain_target [OF this, of A T extra cache]
    from incomplete less.prems drain_incomplete [of None packet A T cache]
    have "p = packet" "t = Some (of_le (take 4 packet) + 4)" "c = cache" by auto
    with target show ?thesis by simp
  next
    case packet
    let ?len = "of_le (take 4 packet) + 4"
    let ?c = "deliver (packet_answer A T packet ?len) cache"
    from less.prems packet have "drain A T (drop ?len packet) None ?c = (p, t, c)"
      by (simp add: drain_packet [of None packet, OF _ refl])
    with less.hyps [OF drop_packet_less [OF packet(1)]]
    have "drain A T (drop ?len packet @ extra) None ?c = drain A T (p @ extra) t c" by blast
    moreover have "drain A T (packet @ extra) None cache =
        drain A T (drop ?len (packet @ extra)) None (deliver (packet_answer A T (packet @ extra) ?len) cache)"
      using packet by (intro drain_packet) (simp_all only: take4_append, simp_all)
    ultimately show ?thesis using packet(2) by (simp add: packet_answer_append)
  qed
qed

lemma drain_settled:
  assumes "target_ok packet t"
  shows "drain A T packet t cache = (packet, t, cache)"
  using assms by (intro drain_wait) (auto simp: target_ok_def split: option.splits)

text \<open>One read of everything.\<close>

definition feed :: "'k adnl_lib \<Rightarrow> tl_lib \<Rightarrow> bytes \<Rightarrow> 'k reader \<Rightarrow> 'k reader" where
  "feed A T bs st =
     (let (plain, cipher) = apply_keystream A (rd_cipher st) bs;
          (packet, target_len, cache) =
            drain A T (rd_packet st @ plain) (rd_target_len st) (rd_cache st) in
      st\<lparr>rd_cipher := cipher, rd_packet := packet, rd_target_len := target_len, rd_cache := cache\<rparr>)"

definition reader_ok :: "'k reader \<Rightarrow> bool" where
  "reader_ok st \<longleftrightarrow> target_ok (rd_packet st) (rd_target_len st)"

lemma feed_ok:
  assumes "reader_ok st"
  shows "reader_ok (feed A T bs st)"
proof -
  obtain plain k where ap: "apply_keystream A (rd_cipher st) bs = (plain, k)" by fastforce
  obtain p t c where d: "drain A T (rd_packet st @ plain) (rd_target_len st) (rd_cache st) = (p, t, c)"
    by (metis prod_cases3)
  have "drain A T (rd_packet st @ plain) None (rd_cache st) = (p, t, c)"
    using d drain_target [of "rd_packet st" "rd_target_len st" A T plain "rd_cache st"] assms
    by (simp add: reader_ok_def)
  then have "target_ok p t" by (rule drain_settles)
  then show ?thesis by (simp add: feed_def ap d reader_ok_def)
qed

lemma feed_nil:
  assumes "adnl_laws A" and "reader_ok st"
  shows "feed A T [] st = st"
  using assms by (simp add: feed_def adnl_lawsD drain_settled reader_ok_def)

lemma feed_append:
  assumes A: "adnl_laws A" and st: "reader_ok st"
  shows "feed A T (xs @ ys) st = feed A T ys (feed A T xs st)"
proof -
  obtain px k where x: "apply_keystream A (rd_cipher st) xs = (px, k)" by fastforce
  obtain py l where y: "apply_keystream A k ys = (py, l)" by fastforce
  have xy: "apply_keystream A (rd_cipher st) (xs @ ys) = (px @ py, l)"
    by (simp add: adnl_lawsD(3) [OF A] x y)
  obtain p t c where d: "drain A T (rd_packet st @ px) None (rd_cache st) = (p, t, c)"
    by (metis prod_cases3)
  have t1: "drain A T (rd_packet st @ zs) (rd_target_len st) (rd_cache st) =
      drain A T (rd_packet st @ zs) None (rd_cache st)" for zs
    using drain_target st by (simp add: reader_ok_def)
  have "drain A T (rd_packet st @ px @ py) None (rd_cache st) = drain A T (p @ py) t c"
    using drain_append [OF d, of py] by simp
  then show ?thesis
    by (simp add: feed_def x y xy t1 d)
qed

lemma run_reader_feed:
  assumes A: "adnl_laws A" and "reader_ok st" and "\<not> rd_closed st" and "\<forall>c\<in>set cs. c \<noteq> []"
  shows "run_reader A T st (map ReadOk cs) = feed A T (concat cs) st"
  using assms(2-)
proof (induction cs arbitrary: st)
  case Nil
  then show ?case by (simp add: run_reader_def feed_nil [OF A])
next
  case (Cons c cs)
  have step: "reader_step A T st (ReadOk c) = feed A T c st"
    using Cons.prems by (simp add: reader_step_def feed_def)
  have open_after: "\<not> rd_closed (feed A T c st)"
    using Cons.prems by (simp add: feed_def split: prod.split)
  have "run_reader A T (feed A T c st) (map ReadOk cs) = feed A T (concat cs) (feed A T c st)"
    using Cons.prems open_after by (intro Cons.IH feed_ok) auto
  with feed_append [OF A Cons.prems(1)] step show ?case by (simp add: run_reader_def)
qed

section \<open>What is sent is read\<close>

fun encrypt_all :: "'k adnl_lib \<Rightarrow> 'k \<Rightarrow> bytes list \<Rightarrow> bytes \<times> 'k" where
  "encrypt_all A cipher [] = ([], cipher)"
| "encrypt_all A cipher (d # ds) =
     (let (bs, cipher1) = encrypt_data A cipher d; (cs, cipher2) = encrypt_all A cipher1 ds in
      (bs @ cs, cipher2))"

lemma drain_frame:
  assumes A: "adnl_laws A" and len: "length data + 64 < 2 ^ 32"
  shows "drain A T (frame_data A data @ rest) None cache =
    drain A T rest None (deliver (frame_answer T data) cache)"
proof -
  let ?n = "length data + 68"
  have "?n = of_le (take 4 (frame_data A data @ rest)) + 4"
    unfolding frame_length_field [OF len] by simp
  then have "drain A T (frame_data A data @ rest) None cache =
      drain A T (drop ?n (frame_data A data @ rest)) None
        (deliver (packet_answer A T (frame_data A data @ rest) ?n) cache)"
    by (rule drain_packet [rotated]) (simp_all add: length_frame [OF A] MIN_PACKET_LEN_def)
  then show ?thesis by (simp only: packet_answer_frame [OF A]) (simp add: length_frame [OF A])
qed

lemma drain_empty: "drain A T [] None cache = ([], None, cache)"
  by (rule drain_wait) (simp add: MIN_PACKET_LEN_def)

lemma feed_frame:
  assumes A: "adnl_laws A" and len: "length data + 64 < 2 ^ 32"
    and "rd_packet st = []" and "rd_target_len st = None"
  shows "feed A T (fst (encrypt_data A (rd_cipher st) data)) st =
    st\<lparr>rd_cipher := snd (encrypt_data A (rd_cipher st) data),
       rd_cache := deliver (frame_answer T data) (rd_cache st)\<rparr>"
  using assms(3,4) drain_frame [OF A len, of T "[]" "rd_cache st"]
  by (simp add: feed_def encrypt_data_def adnl_lawsD(5) [OF A] drain_empty)

lemma feed_frames:
  assumes A: "adnl_laws A" and "\<forall>d\<in>set ds. length d + 64 < 2 ^ 32"
    and "rd_packet st = []" and "rd_target_len st = None"
  shows "feed A T (fst (encrypt_all A (rd_cipher st) ds)) st =
    st\<lparr>rd_cipher := snd (encrypt_all A (rd_cipher st) ds),
       rd_cache := fold (\<lambda>d. deliver (frame_answer T d)) ds (rd_cache st)\<rparr>"
  using assms(2-)
proof (induction ds arbitrary: st)
  case Nil
  then show ?case by (simp add: feed_nil [OF A] reader_ok_def target_ok_def MIN_PACKET_LEN_def)
next
  case (Cons d ds)
  let ?e = "encrypt_data A (rd_cipher st) d"
  have ok: "reader_ok st" using Cons.prems by (simp add: reader_ok_def target_ok_def MIN_PACKET_LEN_def)
  have one: "feed A T (fst ?e) st =
      st\<lparr>rd_cipher := snd ?e, rd_cache := deliver (frame_answer T d) (rd_cache st)\<rparr>"
    using Cons.prems by (intro feed_frame [OF A]) auto
  have "fst (encrypt_all A (rd_cipher st) (d # ds)) = fst ?e @ fst (encrypt_all A (snd ?e) ds)"
    and "snd (encrypt_all A (rd_cipher st) (d # ds)) = snd (encrypt_all A (snd ?e) ds)"
    by (simp_all add: split_beta Let_def)
  with feed_append [OF A ok] one Cons.IH [of "feed A T (fst ?e) st"] Cons.prems show ?case
    by simp
qed

section \<open>From the query to its answer\<close>

lemma frame_answer_write:
  assumes T: "tl_laws T" and "length answer < 2 ^ 24"
    and "message = write_boxed T ''adnl.message.answer'' (put_hash T q @ put_bytes T answer)"
    and "message \<noteq> []"
  shows "frame_answer T message = Some \<lparr>aa_query_id = q, aa_data = answer\<rparr>"
proof -
  have answer: "get_bytes T (put_bytes T answer) = (Inr answer, [])"
    using tl_get(4) [OF T assms(2), of "[]"] by simp
  have "read_adnl_answer T (write_boxed T ''adnl.message.answer'' (put_hash T q @ put_bytes T answer)) =
      (Inr \<lparr>aa_query_id = q, aa_data = answer\<rparr>, [])"
    by (simp add: read_adnl_answer_def read_boxed_def write_boxed_def bnd_apply rs_apply answer
        tl_get(1-3) [OF T])
  then show ?thesis using assms(3,4) by (simp add: frame_answer_def deserialize_def)
qed

lemma start_query_opens:
  assumes "start_query T request st = ((c, data), st1)"
  shows "chan (sh_cache st1) c = Open" and "pending (sh_cache st1) c = Some (query_id_of (sh_query_id st))"
    and "sh_cache st1 = snd (add_query (query_id_of (sh_query_id st)) (sh_cache st))"
  using assms by (auto simp: start_query_def Let_def add_query_def split: prod.splits)

lemma encrypt_data_not_empty:
  assumes "adnl_laws A"
  shows "fst (encrypt_data A k d) \<noteq> []"
proof -
  have "length (fst (encrypt_data A k d)) = length d + 68"
    by (simp add: encrypt_data_def adnl_lawsD(4) [OF assms] length_frame [OF assms])
  then show ?thesis by auto
qed

text \<open>The counter gives every query of a run another id until it wraps around.\<close>

lemma hash_of_bytes_inj:
  assumes "length a = 32" and "length b = 32" and "hash_of_bytes a = hash_of_bytes b"
  shows "a = b"
proof -
  have "of_be a < 2 ^ 256" "of_be b < 2 ^ 256"
    using of_be_less [of a] of_be_less [of b] assms(1,2) by simp_all
  moreover have "unat (hash_of_bytes a) = unat (hash_of_bytes b)" using assms(3) by simp
  ultimately have "of_be a = of_be b"
    by (simp add: hash_of_bytes_def unat_of_nat take_bit_nat_eq_self)
  then show ?thesis using be_bytes_of_be [of a] be_bytes_of_be [of b] assms(1,2) by simp
qed

lemma query_id_inj [simp]: "query_id_of m = query_id_of n \<longleftrightarrow> m = n"
  using hash_of_bytes_inj [of "u64_le m @ replicate 24 0" "u64_le n @ replicate 24 0"]
  by (auto simp: query_id_of_def)

lemma distinct_query_ids:
  assumes "n \<le> 2 ^ 64"
  shows "distinct (map (\<lambda>i. query_id_of (first + word_of_nat i)) [0..<n])"
proof -
  have "i = j" if "i < n" "j < n" "(word_of_nat i :: u64) = word_of_nat j" for i j
  proof -
    have "unat (word_of_nat k :: u64) = k" if "k < n" for k
      using that assms by (simp add: unat_of_nat take_bit_nat_eq_self)
    with that show ?thesis by metis
  qed
  then show ?thesis by (auto simp: distinct_map inj_on_def)
qed

section \<open>No lost wake-up\<close>

definition closed_inv :: "closed_state \<Rightarrow> bool" where
  "closed_inv st \<longleftrightarrow>
     (closer st = StoreFlag \<longrightarrow> notify_calls st = 0 \<and> \<not> closed_flag st) \<and>
     (closer st = NotifyWaiters \<longrightarrow> notify_calls st = 0 \<and> closed_flag st) \<and>
     (closer st = CloserDone \<longrightarrow> notify_calls st = 1 \<and> closed_flag st) \<and>
     (\<forall>n. waiter st = CheckFlag n \<longrightarrow> n \<le> notify_calls st) \<and>
     (\<forall>n. waiter st = AwaitNotified n \<longrightarrow> n = 0) \<and>
     (waiter st = WaiterDone \<longrightarrow> closed_flag st)"

lemma closed_inv_step:
  assumes "closed_inv st"
  shows "closed_inv (if b then closer_step st else waiter_step st)"
  using assms
  by (cases "closer st"; cases "waiter st"; cases b) (auto simp: closed_inv_def)

lemma closed_inv_run: "closed_inv st \<Longrightarrow> closed_inv (run_closed sched st)"
proof (induction sched arbitrary: st)
  case (Cons b sched)
  from closed_inv_step [OF Cons.prems, of b] have "closed_inv (run_closed [b] st)"
    by (cases b) (simp_all add: run_closed_def)
  from Cons.IH [OF this] show ?case by (simp add: run_closed_def)
qed (simp add: run_closed_def)

lemma closed_inv_init: "closed_inv closed_init"
  by (simp add: closed_inv_def closed_init_def)

end
