(* ===== verification/Lite_Client.thy ===== *)
theory Lite_Client
  imports Adnl
begin

text \<open>
  \<open>LiteClient\<close> of \<open>ton-lite-client/src/client.rs\<close>: the tasks that keep the connections, the
  loop that sends a query to one connection after the other, and the calls built on it. What
  happens to a query is given by an environment: for the request, the number of the iteration
  and the connection, that the connection is not ready, that the query timed out, or how it
  ended. The loop need not end, so it is a partial function: \<open>None\<close> is a call that never
  returns. Pauses between attempts have no effect on the result and are left out.
\<close>

section \<open>The query loop\<close>

datatype 'a query_response = ResponseOk 'a | ResponseErr string

text \<open>The constructor is read from a copy of the packet, which does not move.\<close>

definition read_query_response :: "tl_lib \<Rightarrow> 'a tl_rd \<Rightarrow> 'a query_response tl_rd" where
  "read_query_response T rd packet =
     (case fst (get_u32 T packet) of
        Inl e \<Rightarrow> (Inl e, packet)
      | Inr constructor \<Rightarrow>
          if constructor = tl_id T ''liteServer.error''
          then bnd (read_server_error T) (\<lambda>err. ret (ResponseErr (se_message err))) packet
          else bnd rd (\<lambda>x. ret (ResponseOk x)) packet)"

datatype lite_error = NoConnections | ErrorResponse string | QueryFailed adnl_error | Timeout

datatype attempt = NotConnected | TimedOut | Completed select_outcome

text \<open>The \<open>match\<close> on the attempt: not connected, or data, or an error.\<close>

datatype 'a verdict = Unconnected | Good 'a | Bad lite_error

definition judge :: "tl_lib \<Rightarrow> 'a tl_rd \<Rightarrow> attempt \<Rightarrow> 'a verdict" where
  "judge T rd x =
     (case x of
        NotConnected \<Rightarrow> Unconnected
      | TimedOut \<Rightarrow> Bad Timeout
      | Completed outcome \<Rightarrow>
          (case finish_query (read_query_response T rd) outcome of
             Inr (ResponseOk data) \<Rightarrow> Good data
           | Inr (ResponseErr e) \<Rightarrow> Bad (ErrorResponse e)
           | Inl e \<Rightarrow> Bad (QueryFailed e)))"

definition MAX_ATTEMPTS :: nat where "MAX_ATTEMPTS = 200"
definition MAX_ERRORS :: nat where "MAX_ERRORS = 20"

text \<open>\<open>n\<close> counts the iterations; the environment may answer differently each time.\<close>

partial_function (option) query_loop ::
  "(nat \<Rightarrow> nat \<Rightarrow> 'a verdict) \<Rightarrow> nat \<Rightarrow> nat \<Rightarrow> nat \<Rightarrow> nat \<Rightarrow> nat \<Rightarrow> (lite_error + 'a) option" where
  "query_loop env connection_count n i attempts error_count =
     (case env n i of
        Good data \<Rightarrow> Some (Inr data)
      | Unconnected \<Rightarrow>
          if attempts + 1 > MAX_ATTEMPTS then Some (Inl NoConnections)
          else query_loop env connection_count (Suc n) ((i + 1) mod connection_count)
                 (attempts + 1) error_count
      | Bad e \<Rightarrow>
          if e = Timeout
          then query_loop env connection_count (Suc n) ((i + 1) mod connection_count)
                 attempts error_count
          else if error_count + 1 > MAX_ERRORS then Some (Inl e)
          else query_loop env connection_count (Suc n) ((i + 1) mod connection_count)
                 attempts (error_count + 1))"

record lite_env =
  le_tl :: tl_lib
  le_attempt :: "bytes \<Rightarrow> nat \<Rightarrow> nat \<Rightarrow> attempt"
  le_connections :: nat
  le_counter :: nat

definition query :: "lite_env \<Rightarrow> bytes \<Rightarrow> 'a tl_rd \<Rightarrow> (lite_error + 'a) option" where
  "query E request rd =
     (let connection_count = le_connections E in
      if connection_count = 0 then Some (Inl NoConnections)
      else query_loop (\<lambda>n i. judge (le_tl E) rd (le_attempt E request n i)) connection_count 0
             (le_counter E mod connection_count) 0 0)"

text \<open>The loops evaluate by their equations.\<close>

declare query_loop.simps [code]

section \<open>Calls\<close>

datatype call_error = Lite lite_error | BadBoc error | RootHashMismatch

text \<open>\<open>?\<close> on a query inside a call.\<close>

definition then_call ::
  "(lite_error + 'a) option \<Rightarrow> ('a \<Rightarrow> call_error + 'b) \<Rightarrow> (call_error + 'b) option" where
  "then_call r f = map_option (\<lambda>x. bindR (map_err Lite x) f) r"

definition get_server_version :: "lite_env \<Rightarrow> (call_error + u32) option" where
  "get_server_version E =
     then_call (query E (write_get_version (le_tl E)) (read_version (le_tl E)))
       (\<lambda>v. Inr (vi_version v))"

definition get_last_mc_block_id :: "lite_env \<Rightarrow> (call_error + block_id) option" where
  "get_last_mc_block_id E =
     then_call (query E (write_get_masterchain_info (le_tl E)) (read_masterchain_info (le_tl E)))
       (\<lambda>info. Inr (mi_last info))"

definition send_message :: "lite_env \<Rightarrow> bytes \<Rightarrow> (call_error + u32) option" where
  "send_message E msg =
     then_call (query E (write_send_message (le_tl E) msg) (read_send_msg_status (le_tl E))) Inr"

text \<open>\<open>find_map\<close>: the data of the first entry with the hash.\<close>

fun find_library :: "hash_bytes \<Rightarrow> library_entry list \<Rightarrow> bytes option" where
  "find_library h [] = None"
| "find_library h (e # es) = (if le_hash e = h then Some (le_data e) else find_library h es)"

definition get_library ::
  "(bytes \<Rightarrow> error + 'c) \<Rightarrow> lite_env \<Rightarrow> hash_bytes \<Rightarrow> (call_error + 'c option) option" where
  "get_library boc E h =
     then_call (query E (write_get_libraries (le_tl E) [h]) (read_library_result (le_tl E)))
       (\<lambda>res. case find_library h res of
          None \<Rightarrow> Inr None
        | Some lib \<Rightarrow> bindR (map_err BadBoc (boc lib)) (\<lambda>c. Inr (Some c)))"

definition get_block ::
  "(bytes \<Rightarrow> error + 'c) \<Rightarrow> ('c \<Rightarrow> hash_bytes) \<Rightarrow> lite_env \<Rightarrow> block_id \<Rightarrow> (call_error + 'c) option" where
  "get_block boc hash_of E b =
     then_call (query E (write_get_block (le_tl E) b) (read_block_data (le_tl E)))
       (\<lambda>block. bindR (map_err BadBoc (boc (bd_data block))) (\<lambda>c.
        bindR (ensure (hash_of c = root_hash b) RootHashMismatch) (\<lambda>_. Inr c)))"

definition lookup_block :: "lite_env \<Rightarrow> block_id_short \<Rightarrow> (call_error + block_id) option" where
  "lookup_block E b =
     then_call (query E (write_lookup_block (le_tl E)
         \<lparr>lb_id = b, lb_seqno = Some (), lb_lt = None, lb_utime = None\<rparr>)
         (read_block_header (le_tl E)))
       (\<lambda>header. Inr (bh_id header))"

definition get_block_proof ::
  "lite_env \<Rightarrow> block_id \<Rightarrow> block_id option \<Rightarrow> bool \<Rightarrow> (call_error + partial_block_proof) option" where
  "get_block_proof E b target with_known =
     then_call (query E (write_block_proof_req (le_tl E)
         \<lparr>bp_known_block = b, bp_target_block = target,
          bp_with_known_block = (if with_known then Some () else None)\<rparr>)
         (read_partial_block_proof (le_tl E))) Inr"

definition get_shard_block_proof :: "lite_env \<Rightarrow> block_id \<Rightarrow> (call_error + shard_block_proof) option" where
  "get_shard_block_proof E b =
     then_call (query E (write_shard_block_proof_req (le_tl E) b)
       (read_shard_block_proof (le_tl E))) Inr"

definition get_config :: "lite_env \<Rightarrow> block_id \<Rightarrow> (call_error + config_info) option" where
  "get_config E b =
     then_call (query E (write_get_config_all (le_tl E) b) (read_config_info (le_tl E))) Inr"

definition get_transactions ::
  "lite_env \<Rightarrow> std_addr \<Rightarrow> u64 \<Rightarrow> hash_bytes \<Rightarrow> u32 \<Rightarrow> (call_error + transaction_list) option" where
  "get_transactions E a lt h n =
     then_call (query E (write_get_transactions (le_tl E)
         \<lparr>tr_count = n, tr_account = a, tr_lt = lt, tr_hash = h\<rparr>)
         (read_transaction_list (le_tl E))) Inr"

definition get_lite_account ::
  "lite_env \<Rightarrow> block_id \<Rightarrow> std_addr \<Rightarrow> (call_error + account_state) option" where
  "get_lite_account E b a =
     then_call (query E (write_get_account_state (le_tl E) b a) (read_account_state (le_tl E))) Inr"

section \<open>The connection tasks\<close>

text \<open>
  One task per connection. Its program counter says which of its steps comes next; a step
  changes the slot of its connection or the shared counter.
\<close>

datatype conn_pc = Connecting | Stored | Watching | Leaving | Sleeping

record connection_state =
  cs_client :: "nat option"
  cs_pc :: conn_pc

record active_state =
  active_count :: u64
  connections :: "connection_state list"

definition new_client :: "nat \<Rightarrow> active_state" where
  "new_client nodes =
     \<lparr>active_count = 0, connections = replicate nodes \<lparr>cs_client = None, cs_pc = Connecting\<rparr>\<rparr>"

definition set_conn :: "nat \<Rightarrow> connection_state \<Rightarrow> active_state \<Rightarrow> active_state" where
  "set_conn i c st = st\<lparr>connections := (connections st)[i := c]\<rparr>"

inductive conn_step :: "active_state \<Rightarrow> active_state \<Rightarrow> bool" where
  connect_ok: "i < length (connections st) \<Longrightarrow> connections st ! i = c \<Longrightarrow> cs_pc c = Connecting \<Longrightarrow>
    conn_step st (set_conn i (c\<lparr>cs_client := Some client, cs_pc := Stored\<rparr>) st)"
| connect_fails: "i < length (connections st) \<Longrightarrow> connections st ! i = c \<Longrightarrow> cs_pc c = Connecting \<Longrightarrow>
    conn_step st (set_conn i (c\<lparr>cs_pc := Sleeping\<rparr>) st)"
| count_up: "i < length (connections st) \<Longrightarrow> connections st ! i = c \<Longrightarrow> cs_pc c = Stored \<Longrightarrow>
    conn_step st (set_conn i (c\<lparr>cs_pc := Watching\<rparr>) (st\<lparr>active_count := active_count st + 1\<rparr>))"
| count_down: "i < length (connections st) \<Longrightarrow> connections st ! i = c \<Longrightarrow> cs_pc c = Watching \<Longrightarrow>
    conn_step st (set_conn i (c\<lparr>cs_pc := Leaving\<rparr>) (st\<lparr>active_count := active_count st - 1\<rparr>))"
| clear_slot: "i < length (connections st) \<Longrightarrow> connections st ! i = c \<Longrightarrow> cs_pc c = Leaving \<Longrightarrow>
    conn_step st (set_conn i (c\<lparr>cs_client := None, cs_pc := Sleeping\<rparr>) st)"
| wake_up: "i < length (connections st) \<Longrightarrow> connections st ! i = c \<Longrightarrow> cs_pc c = Sleeping \<Longrightarrow>
    conn_step st (set_conn i (c\<lparr>cs_pc := Connecting\<rparr>) st)"

inductive_cases conn_stepE: "conn_step st st1"

inductive conn_reachable :: "nat \<Rightarrow> active_state \<Rightarrow> bool" for nodes where
  conn_start: "conn_reachable nodes (new_client nodes)"
| conn_next: "conn_reachable nodes st \<Longrightarrow> conn_step st st1 \<Longrightarrow> conn_reachable nodes st1"

section \<open>The result of the loop\<close>

text \<open>
  Which attempt decides: the first with data, the attempt that finds no ready connection for
  the 201st time, or the 21st error that is no timeout.
\<close>

fun is_failure :: "'a verdict \<Rightarrow> bool" where
  "is_failure (Bad e) = (e \<noteq> Timeout)"
| "is_failure _ = False"

definition count_upto :: "('a verdict \<Rightarrow> bool) \<Rightarrow> (nat \<Rightarrow> 'a verdict) \<Rightarrow> nat \<Rightarrow> nat" where
  "count_upto P s k = length (filter (\<lambda>j. P (s j)) [0..<k])"

fun decision :: "(nat \<Rightarrow> 'a verdict) \<Rightarrow> nat \<Rightarrow> (lite_error + 'a) option" where
  "decision s k =
     (case s k of
        Good d \<Rightarrow> Some (Inr d)
      | Unconnected \<Rightarrow>
          if count_upto (\<lambda>v. v = Unconnected) s k = MAX_ATTEMPTS then Some (Inl NoConnections) else None
      | Bad e \<Rightarrow>
          if e \<noteq> Timeout \<and> count_upto is_failure s k = MAX_ERRORS then Some (Inl e) else None)"

lemma count_upto_simps [simp]:
  "count_upto P s 0 = 0"
  "count_upto P s (Suc k) = count_upto P s k + (if P (s k) then 1 else 0)"
  by (simp_all add: count_upto_def)

text \<open>The connections are asked in turn.\<close>

definition turn :: "(nat \<Rightarrow> nat \<Rightarrow> 'a verdict) \<Rightarrow> nat \<Rightarrow> nat \<Rightarrow> nat \<Rightarrow> 'a verdict" where
  "turn env connection_count first n = env n ((first + n) mod connection_count)"

abbreviation loop_at ::
  "(nat \<Rightarrow> nat \<Rightarrow> 'a verdict) \<Rightarrow> nat \<Rightarrow> nat \<Rightarrow> nat \<Rightarrow> (lite_error + 'a) option" where
  "loop_at env cc first n \<equiv>
     query_loop env cc n ((first + n) mod cc)
       (count_upto (\<lambda>v. v = Unconnected) (turn env cc first) n)
       (count_upto is_failure (turn env cc first) n)"

definition undecided :: "(nat \<Rightarrow> 'a verdict) \<Rightarrow> nat \<Rightarrow> bool" where
  "undecided s n \<longleftrightarrow> (\<forall>j<n. decision s j = None)"

lemma undecided_counts:
  "undecided s n \<Longrightarrow>
   count_upto (\<lambda>v. v = Unconnected) s n \<le> MAX_ATTEMPTS \<and> count_upto is_failure s n \<le> MAX_ERRORS"
proof (induction n)
  case (Suc n)
  then have "undecided s n" and "decision s n = None" by (auto simp: undecided_def)
  with Suc.IH show ?case by (auto split: verdict.splits if_splits)
qed simp

lemma loop_at_step:
  assumes "undecided (turn env cc first) n"
  shows "loop_at env cc first n =
    (case decision (turn env cc first) n of None \<Rightarrow> loop_at env cc first (Suc n) | Some r \<Rightarrow> Some r)"
proof -
  let ?s = "turn env cc first"
  have env: "env n ((first + n) mod cc) = ?s n" by (simp add: turn_def)
  show ?thesis
    using undecided_counts [OF assms]
    by (subst query_loop.simps) (auto simp: env mod_Suc_eq split: verdict.split)
qed

lemma loop_decides:
  assumes "decision (turn env cc first) k = Some r" and "undecided (turn env cc first) k" and "n \<le> k"
  shows "loop_at env cc first n = Some r"
  using assms(3)
proof (induction "k - n" arbitrary: n)
  case 0
  then have "n = k" by simp
  with loop_at_step [OF assms(2)] assms(1) show ?case by simp
next
  case (Suc m)
  then have "n < k" by simp
  with assms(2) have "undecided (turn env cc first) n" "decision (turn env cc first) n = None"
    by (auto simp: undecided_def)
  with loop_at_step [of env cc first n] Suc.hyps(1) [of "Suc n"] Suc.hyps(2) \<open>n < k\<close>
  show ?case by simp
qed

text \<open>A call that returns was decided at some iteration.\<close>

definition on_course ::
  "nat \<Rightarrow> (nat \<Rightarrow> nat \<Rightarrow> 'a verdict) \<Rightarrow> nat \<Rightarrow> nat \<Rightarrow> nat \<Rightarrow> nat \<Rightarrow> nat \<Rightarrow> bool" where
  "on_course first env cc n i a e \<longleftrightarrow>
     i = (first + n) mod cc \<and> a = count_upto (\<lambda>v. v = Unconnected) (turn env cc first) n \<and>
     e = count_upto is_failure (turn env cc first) n \<and> undecided (turn env cc first) n"

lemma loop_returns:
  fixes env :: "nat \<Rightarrow> nat \<Rightarrow> 'a verdict"
  assumes "query_loop env cc n i a e = Some r"
  shows "on_course first env cc n i a e \<longrightarrow>
     (\<exists>k. decision (turn env cc first) k = Some r \<and> undecided (turn env cc first) k)"
proof (rule query_loop.raw_induct [OF _ assms, where P = "\<lambda>env cc n i a e r.
    on_course first env cc n i a e \<longrightarrow>
    (\<exists>k. decision (turn env cc first) k = Some r \<and> undecided (turn env cc first) k)"], rule impI)
  fix f :: "(nat \<Rightarrow> nat \<Rightarrow> 'a verdict) \<Rightarrow> nat \<Rightarrow> nat \<Rightarrow> nat \<Rightarrow> nat \<Rightarrow> nat \<Rightarrow> (lite_error + 'a) option"
    and env :: "nat \<Rightarrow> nat \<Rightarrow> 'a verdict" and cc n i a e r
  let ?s = "turn env cc first"
  assume IH: "\<And>env cc n i a e r. f env cc n i a e = Some r \<Longrightarrow> on_course first env cc n i a e \<longrightarrow>
      (\<exists>k. decision (turn env cc first) k = Some r \<and> undecided (turn env cc first) k)"
    and body: "(case env n i of
        Unconnected \<Rightarrow>
          if MAX_ATTEMPTS < a + 1 then Some (Inl NoConnections)
          else f env cc (Suc n) ((i + 1) mod cc) (a + 1) e
      | Good data \<Rightarrow> Some (Inr data)
      | Bad x \<Rightarrow>
          if x = Timeout then f env cc (Suc n) ((i + 1) mod cc) a e
          else if MAX_ERRORS < e + 1 then Some (Inl x)
          else f env cc (Suc n) ((i + 1) mod cc) a (e + 1)) = Some r"
    and course: "on_course first env cc n i a e"
  from course have i: "i = (first + n) mod cc" and un: "undecided ?s n"
    and ae: "a = count_upto (\<lambda>v. v = Unconnected) ?s n" "e = count_upto is_failure ?s n"
    by (simp_all add: on_course_def)
  have env: "env n i = ?s n" by (simp add: turn_def i)
  show "\<exists>k. decision ?s k = Some r \<and> undecided ?s k"
  proof (cases "decision ?s n")
    case (Some r1)
    with body have "r1 = r"
      using undecided_counts [OF un] ae by (auto simp: env split: verdict.splits if_splits)
    with Some un show ?thesis by blast
  next
    case None
    with un have "undecided ?s (Suc n)" by (auto simp: undecided_def less_Suc_eq)
    then have course1: "on_course first env cc (Suc n) ((i + 1) mod cc)
        (count_upto (\<lambda>v. v = Unconnected) ?s (Suc n)) (count_upto is_failure ?s (Suc n))"
      by (simp add: on_course_def i mod_Suc_eq)
    have "f env cc (Suc n) ((i + 1) mod cc)
        (count_upto (\<lambda>v. v = Unconnected) ?s (Suc n)) (count_upto is_failure ?s (Suc n)) = Some r"
      using body None undecided_counts [OF un] ae
      by (auto simp: env split: verdict.splits if_splits)
    from IH [OF this] course1 show ?thesis by blast
  qed
qed

lemma query_loop_iff:
  "query_loop env cc 0 (first mod cc) 0 0 = Some r \<longleftrightarrow>
   (\<exists>k. decision (turn env cc first) k = Some r \<and> undecided (turn env cc first) k)"
proof
  assume "query_loop env cc 0 (first mod cc) 0 0 = Some r"
  from loop_returns [OF this, of first]
  show "\<exists>k. decision (turn env cc first) k = Some r \<and> undecided (turn env cc first) k"
    by (simp add: on_course_def undecided_def)
next
  assume "\<exists>k. decision (turn env cc first) k = Some r \<and> undecided (turn env cc first) k"
  then obtain k where "decision (turn env cc first) k = Some r" "undecided (turn env cc first) k"
    by blast
  from loop_decides [OF this, of 0] show "query_loop env cc 0 (first mod cc) 0 0 = Some r"
    by simp
qed

text \<open>Every attempt that is no timeout uses up one of the two counts.\<close>

lemma undecided_progress:
  assumes "undecided s n"
  shows "n \<le> count_upto (\<lambda>v. v = Unconnected) s n + count_upto is_failure s n +
    count_upto (\<lambda>v. v = Bad Timeout) s n"
  using assms
proof (induction n)
  case (Suc n)
  then have "undecided s n" and d: "decision s n = None" by (auto simp: undecided_def)
  with Suc.IH show ?case by (cases "s n") (auto split: if_splits)
qed simp

lemma count_upto_le_set:
  assumes "finite S" and "\<And>j. P (s j) \<Longrightarrow> j \<in> S"
  shows "count_upto P s n \<le> card S"
proof -
  have "count_upto P s n = card (set (filter (\<lambda>j. P (s j)) [0..<n]))"
    unfolding count_upto_def by (rule distinct_card [symmetric]) simp
  also have "\<dots> \<le> card S" using assms by (intro card_mono) auto
  finally show ?thesis .
qed

lemma decided_within:
  assumes "finite {n. s n = Bad Timeout}"
  shows "\<exists>k \<le> MAX_ATTEMPTS + MAX_ERRORS + card {n. s n = Bad Timeout}.
    \<exists>r. decision s k = Some r \<and> undecided s k"
proof -
  let ?N = "MAX_ATTEMPTS + MAX_ERRORS + card {n. s n = Bad Timeout}"
  have "\<not> undecided s (Suc ?N)"
  proof
    assume u: "undecided s (Suc ?N)"
    have "count_upto (\<lambda>v. v = Bad Timeout) s (Suc ?N) \<le> card {n. s n = Bad Timeout}"
      using assms by (rule count_upto_le_set) simp
    with undecided_progress [OF u] undecided_counts [OF u] show False by linarith
  qed
  then obtain j where j: "j < Suc ?N" "decision s j \<noteq> None" by (auto simp: undecided_def)
  let ?k = "LEAST j. decision s j \<noteq> None"
  have "decision s ?k \<noteq> None" using j(2) by (rule LeastI)
  moreover have "?k \<le> ?N" using Least_le [of "\<lambda>j. decision s j \<noteq> None", OF j(2)] j(1) by simp
  moreover have "undecided s ?k" unfolding undecided_def using not_less_Least by blast
  ultimately show ?thesis by blast
qed

lemma query_first_good:
  assumes "0 < le_connections E"
    and "judge (le_tl E) rd (le_attempt E request 0 (le_counter E mod le_connections E)) = Good d"
  shows "query E request rd = Some (Inr d)"
  using assms by (simp add: query_def Let_def query_loop.simps)

text \<open>An answer with the constructor the call expects.\<close>

lemma judge_boxed:
  assumes T: "tl_laws T" and "tl_id T name \<noteq> tl_id T ''liteServer.error''"
    and "rd (content @ rest) = (Inr d, rest)"
  shows "judge T (read_boxed T name rd) (Completed (AnsweredFirst (Some (write_boxed T name (content @ rest))))) =
    Good d"
  using assms
  by (simp add: judge_def finish_query_def deserialize_def read_query_response_def read_boxed_def
      write_boxed_def tl_get(1-3) [OF T] bnd_apply rs_apply)

section \<open>The connection count\<close>

definition watching :: "active_state \<Rightarrow> nat" where
  "watching st = length (filter (\<lambda>c. cs_pc c = Watching) (connections st))"

definition slot_ok :: "connection_state \<Rightarrow> bool" where
  "slot_ok c \<longleftrightarrow> (cs_client c \<noteq> None \<longleftrightarrow> cs_pc c \<in> {Stored, Watching, Leaving})"

definition active_inv :: "nat \<Rightarrow> active_state \<Rightarrow> bool" where
  "active_inv nodes st \<longleftrightarrow>
     length (connections st) = nodes \<and> active_count st = word_of_nat (watching st) \<and>
     (\<forall>c\<in>set (connections st). slot_ok c)"

lemma watching_set_conn:
  assumes "i < length (connections st)" and "connections st ! i = c"
  shows "watching (set_conn i d st) + (if cs_pc c = Watching then 1 else 0) =
    watching st + (if cs_pc d = Watching then 1 else 0)"
proof -
  let ?xs = "connections st"
  have split: "?xs = take i ?xs @ c # drop (Suc i) ?xs"
    using assms id_take_nth_drop by blast
  have upd: "?xs[i := d] = take i ?xs @ d # drop (Suc i) ?xs"
    using assms(1) by (simp add: upd_conv_take_nth_drop)
  have "watching st = length (filter (\<lambda>c. cs_pc c = Watching) (take i ?xs @ c # drop (Suc i) ?xs))"
    using split by (simp add: watching_def)
  then show ?thesis by (simp add: watching_def set_conn_def upd)
qed

lemma active_inv_set:
  assumes inv: "active_inv nodes st" and i: "i < length (connections st)" "connections st ! i = c"
    and d: "slot_ok d"
    and a: "a + (if cs_pc c = Watching then 1 else 0) =
      active_count st + (if cs_pc d = Watching then 1 else 0)"
  shows "active_inv nodes (set_conn i d (st\<lparr>active_count := a\<rparr>))"
proof -
  let ?st1 = "set_conn i d (st\<lparr>active_count := a\<rparr>)"
  let ?u = "(if cs_pc c = Watching then 1 else 0) :: u64"
  have w: "watching ?st1 + (if cs_pc c = Watching then 1 else 0) =
      watching st + (if cs_pc d = Watching then 1 else 0)"
    using watching_set_conn [OF i, of d] by (simp add: watching_def set_conn_def)
  have "word_of_nat (watching ?st1) + ?u =
      (word_of_nat (watching st) + (if cs_pc d = Watching then 1 else 0) :: u64)"
    using arg_cong [OF w, of "word_of_nat :: nat \<Rightarrow> u64"] by (auto split: if_splits)
  with a inv have "a + ?u = word_of_nat (watching ?st1) + ?u" by (simp only: active_inv_def)
  then have "a = word_of_nat (watching ?st1)" by (simp only: add_right_cancel)
  moreover have "active_count ?st1 = a" by (simp add: set_conn_def)
  ultimately have "active_count ?st1 = word_of_nat (watching ?st1)" by metis
  moreover have "\<forall>c\<in>set (connections ?st1). slot_ok c"
    using inv d set_update_subset_insert [of "connections st" i d]
    by (auto simp: active_inv_def set_conn_def)
  ultimately show ?thesis using inv by (simp add: active_inv_def set_conn_def)
qed

lemma active_inv_set_same:
  assumes inv: "active_inv nodes st" and i: "i < length (connections st)" "connections st ! i = c"
    and "slot_ok d" and "cs_pc c \<noteq> Watching" "cs_pc d \<noteq> Watching"
  shows "active_inv nodes (set_conn i d st)"
  using active_inv_set [OF assms(1-4), of "active_count st"] assms(5,6) by simp

lemma active_inv_step:
  assumes inv: "active_inv nodes st" and step: "conn_step st st1"
  shows "active_inv nodes st1"
proof -
  have ok: "slot_ok (connections st ! i)" if "i < length (connections st)" for i
    using inv that by (auto simp: active_inv_def)
  from step show ?thesis
  proof cases
    case (connect_ok i c client)
    with ok [of i] inv show ?thesis by (auto intro: active_inv_set_same simp: slot_ok_def)
  next
    case (connect_fails i c)
    with ok [of i] inv show ?thesis by (auto intro: active_inv_set_same simp: slot_ok_def)
  next
    case (count_up i c)
    with ok [of i] inv show ?thesis by (auto intro: active_inv_set simp: slot_ok_def)
  next
    case (count_down i c)
    with ok [of i] inv show ?thesis by (auto intro: active_inv_set simp: slot_ok_def)
  next
    case (clear_slot i c)
    with ok [of i] inv show ?thesis by (auto intro: active_inv_set_same simp: slot_ok_def)
  next
    case (wake_up i c)
    with ok [of i] inv show ?thesis by (auto intro: active_inv_set_same simp: slot_ok_def)
  qed
qed

lemma active_inv_reachable: "conn_reachable nodes st \<Longrightarrow> active_inv nodes st"
proof (induction rule: conn_reachable.induct)
  case conn_start
  then show ?case by (auto simp: active_inv_def new_client_def watching_def slot_ok_def)
next
  case (conn_next st st1)
  then show ?case by (blast intro: active_inv_step)
qed

end
