(* ===== verification/Demo_Lite.thy ===== *)
theory Demo_Lite
  imports Lite_Client
begin

text \<open>
  Concrete parameters for the lite client: a TL library with little-endian words and
  length-prefixed byte strings, and a cipher that adds a counter. They show that the
  hypotheses about these parameters can hold. It models no code of the repository.
\<close>

definition d_get :: "nat \<Rightarrow> (bytes \<Rightarrow> 'a) \<Rightarrow> 'a tl_rd" where
  "d_get n f bs = (if length bs < n then (Inl UnexpectedEof, bs) else (Inr (f (take n bs)), drop n bs))"

definition d_get_bytes :: "bytes tl_rd" where
  "d_get_bytes = bnd (d_get 4 u32_of_le) (\<lambda>n. d_get (unat n) (\<lambda>bs. bs))"

definition d_id :: "string \<Rightarrow> u32" where
  "d_id s = fold (\<lambda>c h. h * 31 + of_char c) s 7"

definition d_shard_new :: "i32 \<Rightarrow> u64 \<Rightarrow> shard_ident option" where
  "d_shard_new w p = (if p = 0 then None else Some \<lparr>workchain = w, prefix = p\<rparr>)"

definition demo_tl :: tl_lib where
  "demo_tl =
     \<lparr>put_u32 = u32_le, get_u32 = d_get 4 u32_of_le,
      put_u64 = u64_le, get_u64 = d_get 8 u64_of_le,
      put_hash = hash_to_bytes, get_hash = d_get 32 hash_of_bytes,
      put_bytes = (\<lambda>bs. u32_le (word_of_nat (length bs)) @ bs), get_bytes = d_get_bytes,
      get_bool = d_get 1 (\<lambda>bs. bs = [1]), tl_id = d_id,
      utf8_lossy = map (\<lambda>b. char_of (unat b)), tl_shard_new = d_shard_new\<rparr>"

lemma demo_tl_laws: "tl_laws demo_tl"
proof -
  have "d_get_bytes (u32_le (word_of_nat (length x)) @ x @ r) = (Inr x, r)" if "length x < 2 ^ 24" for x r
  proof -
    have "unat (word_of_nat (length x) :: u32) = length x"
      using that by (simp add: unat_of_nat take_bit_nat_eq_self)
    then show ?thesis by (simp add: d_get_bytes_def bnd_apply d_get_def)
  qed
  then show ?thesis
    by (auto simp: tl_laws_def demo_tl_def d_get_def d_shard_new_def split: if_splits)
qed

fun d_xor :: "nat \<Rightarrow> bytes \<Rightarrow> bytes" where
  "d_xor k [] = []"
| "d_xor k (b # bs) = (b XOR word_of_nat k) # d_xor (Suc k) bs"

definition demo_adnl :: "nat adnl_lib" where
  "demo_adnl =
     \<lparr>sha256 = (\<lambda>bs. replicate 32 (fold (\<lambda>b h. h * 3 + b) bs 1)), cipher_new = (\<lambda>k i. length k + length i),
      apply_keystream = (\<lambda>k bs. (d_xor k bs, k + length bs)),
      key_short_id = (\<lambda>k. replicate 32 7), public_of = (\<lambda>s. replicate 32 9),
      shared_secret_of = (\<lambda>s p. replicate 32 5)\<rparr>"

lemma d_xor_append: "d_xor k (xs @ ys) = d_xor k xs @ d_xor (k + length xs) ys"
  by (induction xs arbitrary: k) simp_all

lemma length_d_xor [simp]: "length (d_xor k xs) = length xs"
  by (induction xs arbitrary: k) simp_all

lemma d_xor_twice [simp]: "d_xor k (d_xor k xs) = xs"
  by (induction xs arbitrary: k) (simp_all add: xor.assoc)

lemma demo_adnl_laws: "adnl_laws demo_adnl"
  by (simp add: adnl_laws_def demo_adnl_def d_xor_append)

definition demo_lite_id :: block_id where
  "demo_lite_id = \<lparr>shard = MASTERCHAIN, seqno = 7, root_hash = 11, file_hash = 12\<rparr>"

lemma demo_lite_id_ok: "full_ok demo_tl demo_lite_id"
  by (simp add: full_ok_def shard_ok_def demo_tl_def demo_lite_id_def d_shard_new_def
      MASTERCHAIN_def HIGH_BIT_def)

end
