(* ===== verification/Lite_Properties.thy ===== *)
theory Lite_Properties
  imports Demo_Lite
begin

text \<open>
  The properties of the lite client: of the messages, of the encrypted connection, of the
  queries that wait for an answer, and of the loop that tries the connections in turn.
\<close>

section \<open>Messages\<close>

text \<open>C19. Reading what the writers of \<open>proto.rs\<close> wrote gives the same value and leaves exactly the
  bytes that follow it: block ids, lists of them, account ids, signature lists, and the
  request for a block proof with its two flag bits.\<close>

theorem tl_roundtrips:
  assumes "tl_laws T" and "full_ok T b" and "ids_ok T bs" and "length sigs < 2 ^ 32"
    and "proof_req_ok T q"
  shows "read_block_id_full T (write_block_id_full T b @ rest) = (Inr b, rest) \<and>
    read_vec_block_id_full T (write_vec_block_id_full T bs @ rest) = (Inr bs, rest) \<and>
    read_account_id T (write_account_id T a @ rest) = (Inr a, rest) \<and>
    read_vec_signature T (write_vec_signature T sigs @ rest) = (Inr sigs, rest) \<and>
    read_block_proof_req T (write_block_proof_req T q @ rest) = (Inr q, rest)"
  using assms
  by (simp add: full_tl.read_write ids_tl.read_write account_tl.read_write
      signatures_tl.read_write block_proof_tl.read_write)

definition demo_proof_req :: block_proof_req where
  "demo_proof_req =
     \<lparr>bp_known_block = demo_lite_id, bp_target_block = Some demo_lite_id, bp_with_known_block = None\<rparr>"

lemma tl_roundtrips_witness:
  "read_block_proof_req demo_tl (write_block_proof_req demo_tl demo_proof_req @ [5]) =
     (Inr demo_proof_req, [5])"
  using tl_roundtrips [OF demo_tl_laws demo_lite_id_ok, of "[demo_lite_id]" "[]" demo_proof_req "[5]"]
    demo_lite_id_ok
  by (simp add: ids_ok_def proof_req_ok_def demo_proof_req_def)

text \<open>C23. Every block id in a block proof the client accepts is valid, whatever bytes the server sent:
  ids that no shard has are refused while reading.\<close>

theorem block_proofs_have_valid_ids:
  assumes "tl_laws T" and "deserialize (read_partial_block_proof T) answer = Inr p"
  shows "full_ok T (pb_from p) \<and> full_ok T (pb_to p) \<and>
    (\<forall>l\<in>set (pb_steps p). link_ok T l)"
proof -
  obtain rest where "read_partial_block_proof T answer = (Inr p, rest)"
    using assms(2) by (cases "read_partial_block_proof T answer") (simp add: deserialize_def)
  from reads_onlyD [OF partial_block_proof_ok [OF assms(1)] this]
  show ?thesis by (simp add: partial_proof_ok_def)
qed

definition demo_answer_proof :: bytes where
  "demo_answer_proof =
     write_boxed demo_tl ''liteServer.partialBlockProof''
       ([1] @ write_block_id_full demo_tl demo_lite_id @ write_block_id_full demo_tl demo_lite_id @
        u32_le 0)"

lemma demo_answer_proof_read:
  "deserialize (read_partial_block_proof demo_tl) demo_answer_proof =
     Inr \<lparr>pb_complete = True, pb_from = demo_lite_id, pb_to = demo_lite_id, pb_steps = []\<rparr>"
proof -
  have "get_bool demo_tl (1 # r) = (Inr True, r)" for r by (simp add: demo_tl_def d_get_def)
  moreover have "get_u32 demo_tl (u32_le 0) = (Inr 0, [])"
    using tl_get(1) [OF demo_tl_laws, of 0 "[]"] by (simp add: demo_tl_def)
  ultimately show ?thesis
    by (simp add: deserialize_def demo_answer_proof_def read_partial_block_proof_def read_boxed_def
        write_boxed_def bnd_apply tl_get [OF demo_tl_laws]
        full_tl.read_write [OF demo_tl_laws demo_lite_id_ok] read_vec_def rs_apply)
qed

lemma block_proofs_have_valid_ids_witness: "full_ok demo_tl demo_lite_id"
  using block_proofs_have_valid_ids [OF demo_tl_laws demo_answer_proof_read] by simp

section \<open>The connection\<close>

text \<open>C14. What one side encrypts with \<open>encrypt_data\<close> the socket reader of the other side takes apart
  again, in order and without loss, however the stream of bytes is cut into reads: every
  message is handed to the queries cache once, and the two ciphers stay in step.\<close>

theorem reader_delivers_messages:
  assumes "adnl_laws A" and "\<forall>d\<in>set ds. length d + 64 < 2 ^ 32"
    and "concat chunks = fst (encrypt_all A k ds)" and "\<forall>c\<in>set chunks. c \<noteq> []"
  shows "run_reader A T
      \<lparr>rd_cipher = k, rd_packet = [], rd_target_len = None, rd_cache = cache, rd_closed = False\<rparr>
      (map ReadOk chunks) =
    \<lparr>rd_cipher = snd (encrypt_all A k ds), rd_packet = [], rd_target_len = None,
     rd_cache = fold (\<lambda>d. deliver (frame_answer T d)) ds cache, rd_closed = False\<rparr>"
proof -
  let ?st = "\<lparr>rd_cipher = k, rd_packet = [], rd_target_len = None, rd_cache = cache, rd_closed = False\<rparr>"
  have "reader_ok ?st" by (simp add: reader_ok_def target_ok_def MIN_PACKET_LEN_def)
  then have "run_reader A T ?st (map ReadOk chunks) = feed A T (concat chunks) ?st"
    using assms by (intro run_reader_feed) auto
  also have "\<dots> = feed A T (fst (encrypt_all A (rd_cipher ?st) ds)) ?st" using assms(3) by simp
  finally show ?thesis using feed_frames [OF assms(1,2), of ?st T] by simp
qed

lemma reader_delivers_messages_witness:
  "let stream = fst (encrypt_all demo_adnl 0 [[1, 2], [3]]) in
   rd_cipher (run_reader demo_adnl demo_tl
     \<lparr>rd_cipher = 0, rd_packet = [], rd_target_len = None, rd_cache = empty_cache, rd_closed = False\<rparr>
     (map ReadOk [take 50 stream, drop 50 stream])) =
   snd (encrypt_all demo_adnl 0 [[1, 2], [3]])"
proof -
  let ?s = "fst (encrypt_all demo_adnl 0 [[1, 2], [3]])"
  have "length ?s = 139"
    by (simp add: encrypt_data_def demo_adnl_def length_frame [OF demo_adnl_laws, unfolded demo_adnl_def] split_beta Let_def)
  then have "\<forall>c\<in>set [take 50 ?s, drop 50 ?s]. c \<noteq> []" by auto
  from reader_delivers_messages [OF demo_adnl_laws _ _ this, of "[[1, 2], [3]]" 0 demo_tl empty_cache]
  show ?thesis by (simp add: Let_def)
qed

text \<open>The server that knows the shared secret can undo the handshake: it finds its own key id, the
  client's public key and the checksum in the clear, recovers the session buffer from the
  rest, and with it the same two ciphers the client keeps.\<close>

lemma handshake_recoverable:
  assumes "adnl_laws A" and "packet = build_handshake_packet A server_key secret buffer"
    and "shared_secret_of A secret server_key = shared"
  shows "length packet = 96 + length buffer \<and>
    take 32 packet = key_short_id A server_key \<and>
    sub_bytes 32 64 packet = public_of A secret \<and>
    (let checksum = sub_bytes 64 96 packet;
         plain = fst (apply_keystream A (build_packet_cipher A shared checksum) (drop 96 packet)) in
     plain = buffer \<and> checksum = sha256 A plain \<and>
     connect_ciphers A plain = connect_ciphers A buffer)"
  using assms(2,3)
  by (simp add: build_handshake_packet_def sub_bytes_def Let_def adnl_lawsD [OF assms(1)])

lemma handshake_recoverable_witness:
  "length (build_handshake_packet demo_adnl [1] [2] (replicate 160 3)) = 256"
  using handshake_recoverable [OF demo_adnl_laws refl refl, of "[1]" "[2]" "replicate 160 3"] by simp

text \<open>C25. When the task that closes the connection has finished and \<open>wait_closed\<close> has checked the
  flag, the waiting task is woken: in no order of their steps is the wake-up lost.\<close>

theorem no_lost_wakeup:
  assumes "st = run_closed sched closed_init" and "closer st = CloserDone"
    and "\<exists>n. waiter st = AwaitNotified n"
  shows "waiter (waiter_step st) = WaiterDone"
proof -
  from closed_inv_run [OF closed_inv_init, of sched] assms have "closed_inv st" by simp
  with assms(2,3) show ?thesis by (auto simp: closed_inv_def)
qed

lemma no_lost_wakeup_witness:
  "waiter (waiter_step (run_closed [False, False, True, True] closed_init)) = WaiterDone"
  by (rule no_lost_wakeup [OF refl]) (simp_all add: run_closed_def closed_init_def)

section \<open>Queries\<close>

text \<open>C15. A query is answered by the message that carries its id: after \<open>start_query\<close>, when the
  reader gets a packet with that answer, the channel of the query holds its data, no later
  event of the cache changes it, and the call returns what the data decodes to.\<close>

theorem query_gets_its_answer:
  assumes "adnl_laws A" and "tl_laws T" and "cache_inv (sh_cache st)"
    and "start_query T request st = ((c, sent), st1)"
    and "length answer < 2 ^ 24"
    and "message = write_boxed T ''adnl.message.answer''
      (put_hash T (query_id_of (sh_query_id st)) @ put_bytes T answer)"
    and "message \<noteq> []" and "length message + 64 < 2 ^ 32"
  shows "let rd1 = run_reader A T
        \<lparr>rd_cipher = k, rd_packet = [], rd_target_len = None, rd_cache = sh_cache st1, rd_closed = False\<rparr>
        [ReadOk (fst (encrypt_data A k message))] in
     chan (run_cache events (rd_cache rd1)) c = Sent answer \<and>
     finish_query rd (AnsweredFirst (Some answer)) = map_err InvalidAnswer (deserialize rd answer)"
proof -
  let ?q = "query_id_of (sh_query_id st)"
  let ?rd = "\<lparr>rd_cipher = k, rd_packet = [], rd_target_len = None, rd_cache = sh_cache st1, rd_closed = False\<rparr>"
  let ?cache = "update_query ?q answer (sh_cache st1)"
  have inv: "cache_inv (sh_cache st1)"
    unfolding start_query_opens(3) [OF assms(4)] by (rule cache_inv_add [OF assms(3)])
  note opens = start_query_opens(1,2) [OF assms(4)]
  have "reader_ok ?rd" by (simp add: reader_ok_def target_ok_def MIN_PACKET_LEN_def)
  then have "run_reader A T ?rd (map ReadOk [fst (encrypt_data A k message)]) =
      feed A T (concat [fst (encrypt_data A k message)]) ?rd"
    using encrypt_data_not_empty [OF assms(1)] by (intro run_reader_feed [OF assms(1)]) auto
  then have cache: "rd_cache (run_reader A T ?rd [ReadOk (fst (encrypt_data A k message))]) = ?cache"
    using feed_frame [OF assms(1,8), of ?rd T] frame_answer_write [OF assms(2,5,6,7)]
    by (simp add: deliver_def)
  have sent: "chan ?cache c = Sent answer" by (rule update_delivers [OF inv opens(2,1)])
  moreover have "c < next_chan ?cache" using cache_invD(5) [OF inv opens(2)] by simp
  ultimately have "chan (run_cache events ?cache) c = Sent answer"
    using chan_final_run [OF cache_inv_update [OF inv], of ?q answer c events] by simp
  then show ?thesis by (simp add: cache Let_def finish_query_def)
qed

lemma query_gets_its_answer_witness:
  "\<exists>c. chan (rd_cache (run_reader demo_adnl demo_tl
        \<lparr>rd_cipher = 0, rd_packet = [], rd_target_len = None,
         rd_cache = snd (add_query (query_id_of 3) empty_cache), rd_closed = False\<rparr>
        [ReadOk (fst (encrypt_data demo_adnl 0
           (write_boxed demo_tl ''adnl.message.answer''
             (hash_to_bytes (query_id_of 3) @ put_bytes demo_tl [9]))))])) c = Sent [9]"
proof -
  let ?st = "\<lparr>sh_query_id = 3, sh_cache = empty_cache\<rparr>"
  obtain c sent st1 where start: "start_query demo_tl [] ?st = ((c, sent), st1)"
    by (metis prod.collapse)
  have put: "put_hash demo_tl = hash_to_bytes" by (simp add: demo_tl_def)
  have len: "length (write_boxed demo_tl ''adnl.message.answer''
      (hash_to_bytes (query_id_of 3) @ put_bytes demo_tl [9])) = 41"
    by (simp add: write_boxed_def demo_tl_def)
  have inv: "cache_inv (sh_cache ?st)" by (simp add: cache_inv_empty)
  have ne: "write_boxed demo_tl ''adnl.message.answer''
      (put_hash demo_tl (query_id_of (sh_query_id ?st)) @ put_bytes demo_tl [9]) \<noteq> []"
    using len by (auto simp: put)
  have "(let rd1 = run_reader demo_adnl demo_tl
        \<lparr>rd_cipher = 0, rd_packet = [], rd_target_len = None, rd_cache = sh_cache st1, rd_closed = False\<rparr>
        [ReadOk (fst (encrypt_data demo_adnl 0 (write_boxed demo_tl ''adnl.message.answer''
      (put_hash demo_tl (query_id_of (sh_query_id ?st)) @ put_bytes demo_tl [9]))))] in
     chan (run_cache [] (rd_cache rd1)) c = Sent [9] \<and>
     finish_query (ret ()) (AnsweredFirst (Some [9])) = map_err InvalidAnswer (deserialize (ret ()) [9]))"
    by (rule query_gets_its_answer [OF demo_adnl_laws demo_tl_laws inv start _ refl ne])
      (use len in \<open>simp_all add: put\<close>)
  then show ?thesis
    using start_query_opens(3) [OF start] by (auto simp: Let_def put)
qed

text \<open>C18. As long as the query counter has not come round, no query that is still waiting finds its
  channel closed: the error \<open>DuplicateQuery\<close> needs two queries with one id, whatever the order
  in which queries start, answers arrive, and queries finish or are dropped.\<close>

theorem no_duplicate_query:
  assumes "added events = map (\<lambda>i. query_id_of (first + word_of_nat i)) [0..<n]" and "n \<le> 2 ^ 64"
    and "pending (run_cache events empty_cache) c = Some q"
  shows "chan (run_cache events (empty_cache :: answers)) c \<noteq> Closed"
proof -
  have "distinct (added events)" unfolding assms(1) by (rule distinct_query_ids [OF assms(2)])
  from unique_inv_run [OF cache_inv_empty unique_inv_empty this]
  have "unique_inv (set (added events)) (run_cache events (empty_cache :: answers))" by simp
  from unique_invD(2) [OF this assms(3)] show ?thesis .
qed

lemma no_duplicate_query_witness:
  "chan (run_cache [Add (query_id_of 5), Add (query_id_of 6), Answer (query_id_of 6) [1], Forget 1]
     (empty_cache :: answers)) 0 \<noteq> Closed"
  by (rule no_duplicate_query [where first = 5 and n = 2 and q = "query_id_of 5"])
    (simp_all add: upt_rec add_query_def update_query_def drop_pending_def drop_sender_def
      empty_cache_def Let_def)

section \<open>The query loop\<close>

text \<open>C16. What a query returns is the verdict of the first attempt that decides, over the connections
  asked in turn from the one the counter points to: the first data; the error of the 21st
  failure that is no timeout; or \<open>NoConnections\<close> at the 201st connection that is not ready.
  It returns nothing when no attempt decides.\<close>

theorem query_result:
  assumes "0 < le_connections E"
  shows "query E request rd = Some r \<longleftrightarrow>
    (\<exists>k. let s = turn (\<lambda>n i. judge (le_tl E) rd (le_attempt E request n i))
                   (le_connections E) (le_counter E) in
      decision s k = Some r \<and> (\<forall>j<k. decision s j = None))"
  using assms query_loop_iff [of "\<lambda>n i. judge (le_tl E) rd (le_attempt E request n i)"
      "le_connections E" "le_counter E" r]
  by (simp add: query_def Let_def undecided_def)

definition demo_lite :: "(nat \<Rightarrow> nat \<Rightarrow> attempt) \<Rightarrow> lite_env" where
  "demo_lite a = \<lparr>le_tl = demo_tl, le_attempt = (\<lambda>_. a), le_connections = 3, le_counter = 7\<rparr>"

text \<open>The second connection times out, the third one answers with twelve bytes.\<close>

definition demo_attempt :: "nat \<Rightarrow> nat \<Rightarrow> attempt" where
  "demo_attempt n i =
     (if i = 1 then TimedOut
      else if i = 2 then Completed (AnsweredFirst (Some (write_send_message demo_tl [9])))
      else NotConnected)"

lemma demo_judge_answer:
  "judge demo_tl (ret ()) (Completed (AnsweredFirst (Some (write_send_message demo_tl [9])))) = Good ()"
proof -
  have ids: "tl_id demo_tl ''liteServer.sendMessage'' \<noteq> tl_id demo_tl ''liteServer.error''"
    by (simp add: demo_tl_def d_id_def)
  then show ?thesis
    by (simp add: judge_def finish_query_def deserialize_def read_query_response_def
        write_send_message_def write_boxed_def tl_get [OF demo_tl_laws] rs_simps rs_apply)
qed

lemma query_result_witness:
  "query (demo_lite demo_attempt) [1] (ret ()) = Some (Inr ())"
proof -
  have "decision (turn (\<lambda>n i. judge demo_tl (ret ()) (demo_attempt n i)) 3 7) 1 = Some (Inr ())"
    by (simp add: turn_def demo_attempt_def demo_judge_answer)
  moreover have "decision (turn (\<lambda>n i. judge demo_tl (ret () :: unit tl_rd) (demo_attempt n i)) 3 7) 0 = None"
    by (simp add: turn_def demo_attempt_def judge_def)
  ultimately have "\<exists>k. decision (turn (\<lambda>n i. judge demo_tl (ret ()) (demo_attempt n i)) 3 7) k = Some (Inr ()) \<and>
      (\<forall>j<k. decision (turn (\<lambda>n i. judge demo_tl (ret () :: unit tl_rd) (demo_attempt n i)) 3 7) j = None)"
    by (intro exI [of _ 1] conjI) (simp_all del: decision.simps)
  then show ?thesis
    using query_result [of "demo_lite demo_attempt" "[1]" "ret ()" "Inr ()"]
    by (simp add: demo_lite_def Let_def del: decision.simps)
qed

text \<open>A query returns whenever only finitely many of its attempts time out.\<close>

lemma query_returns:
  assumes "finite {n. le_attempt E request n ((le_counter E + n) mod le_connections E) = TimedOut}"
  shows "\<exists>r. query E request rd = Some r"
proof (cases "le_connections E = 0")
  case False
  let ?s = "turn (\<lambda>n i. judge (le_tl E) rd (le_attempt E request n i))
    (le_connections E) (le_counter E)"
  have "judge T rd x = Bad Timeout \<Longrightarrow> x = TimedOut" for T x
    by (auto simp: judge_def split: attempt.splits sum.splits query_response.splits)
  then have "{n. ?s n = Bad Timeout} \<subseteq>
      {n. le_attempt E request n ((le_counter E + n) mod le_connections E) = TimedOut}"
    by (auto simp: turn_def)
  with assms have "finite {n. ?s n = Bad Timeout}" by (rule rev_finite_subset)
  from decided_within [OF this] False query_loop_iff
  show ?thesis by (fastforce simp: query_def Let_def)
qed (simp add: query_def)

lemma query_returns_witness:
  "\<exists>r. query (demo_lite (\<lambda>n i. if n < 2 then TimedOut else NotConnected)) [1] (ret ()) = Some r"
  by (rule query_returns) (rule finite_subset [of _ "{0, 1}"],
    auto simp: demo_lite_def split: if_splits)

text \<open>C17. A query never returns when every attempt times out: timeouts are not counted by either
  limit, so the loop goes round for ever.\<close>

theorem query_hangs_on_timeouts:
  assumes "\<forall>n i. le_attempt E request n i = TimedOut" and "0 < le_connections E"
  shows "query E request rd = None"
proof (rule ccontr)
  assume "query E request rd \<noteq> None"
  then obtain r where "query E request rd = Some r" by blast
  with assms query_loop_iff [of "\<lambda>n i. judge (le_tl E) rd (le_attempt E request n i)"
      "le_connections E" "le_counter E" r]
  show False by (auto simp: query_def Let_def turn_def judge_def)
qed

lemma query_hangs_on_timeouts_witness:
  "query (demo_lite (\<lambda>n i. TimedOut)) [1] (ret ()) = None"
  by (rule query_hangs_on_timeouts) (simp_all add: demo_lite_def)

text \<open>C24. The shared counter is the number of connections that are being watched at every moment, so
  it never exceeds the number of nodes and never wraps below zero; and the slot of a
  connection holds a client exactly while its task is past \<open>connect\<close>.\<close>

theorem active_count_exact:
  assumes "conn_reachable nodes st" and "nodes < 2 ^ 64"
  shows "unat (active_count st) = length (filter (\<lambda>c. cs_pc c = Watching) (connections st)) \<and>
    unat (active_count st) \<le> nodes \<and>
    (\<forall>c\<in>set (connections st). cs_client c \<noteq> None \<longleftrightarrow> cs_pc c \<in> {Stored, Watching, Leaving})"
proof -
  from active_inv_reachable [OF assms(1)]
  have inv: "length (connections st) = nodes" "active_count st = word_of_nat (watching st)"
    and slots: "\<forall>c\<in>set (connections st). slot_ok c"
    by (simp_all add: active_inv_def)
  have "watching st \<le> nodes" unfolding watching_def inv(1) [symmetric] by (rule length_filter_le)
  moreover from this have "unat (active_count st) = watching st"
    using assms(2) inv(2) by (simp add: unat_of_nat take_bit_nat_eq_self)
  ultimately show ?thesis using slots by (simp add: watching_def slot_ok_def)
qed

lemma active_count_exact_witness:
  "unat (active_count (new_client 3)) \<le> 3"
  using active_count_exact [OF conn_reachable.conn_start, of 3] by simp

section \<open>Calls\<close>

text \<open>\<open>get_block\<close> returns a cell only when its hash is the root hash that was asked for, and
  \<open>get_library\<close> only a library the server gave for the hash that was asked for.\<close>

lemma calls_check_hashes:
  assumes "get_block boc hash_of E b = Some (Inr cell)" and "get_library boc E h = Some (Inr (Some lib))"
  shows "hash_of cell = root_hash b \<and>
    (\<exists>es e. query E (write_get_libraries (le_tl E) [h]) (read_library_result (le_tl E)) = Some (Inr es) \<and>
       e \<in> set es \<and> le_hash e = h \<and> boc (le_data e) = Inr lib)"
proof -
  have find: "find_library h es = Some d \<Longrightarrow> \<exists>e\<in>set es. le_hash e = h \<and> le_data e = d" for es d
    by (induction es) (auto split: if_splits)
  have "hash_of cell = root_hash b"
    using assms(1) by (auto simp: get_block_def then_call_def)
  moreover obtain es d where "query E (write_get_libraries (le_tl E) [h]) (read_library_result (le_tl E)) = Some (Inr es)"
      "find_library h es = Some d" "boc d = Inr lib"
    using assms(2) by (auto simp: get_library_def then_call_def split: option.splits)
  ultimately show ?thesis using find by blast
qed

definition demo_block_answer :: bytes where
  "demo_block_answer =
     write_boxed demo_tl ''liteServer.blockData''
       ((write_block_id_full demo_tl demo_lite_id @ put_bytes demo_tl [4]) @ [])"

definition demo_library_answer :: bytes where
  "demo_library_answer =
     write_boxed demo_tl ''liteServer.libraryResult''
       ((u32_le 1 @ hash_to_bytes 5 @ put_bytes demo_tl [6]) @ [])"

definition demo_calls :: lite_env where
  "demo_calls = \<lparr>le_tl = demo_tl,
     le_attempt = (\<lambda>request n i. Completed (AnsweredFirst (Some
       (if length request = 84 then demo_block_answer else demo_library_answer)))),
     le_connections = 1, le_counter = 0\<rparr>"

lemma demo_get_bytes: "get_bytes demo_tl (put_bytes demo_tl [x]) = (Inr [x], [])"
  using tl_get(4) [OF demo_tl_laws, of "[x]" "[]"] by simp

lemma demo_get_block:
  "get_block (\<lambda>bs. Inr (if bs = [4] then 11 else 5)) (\<lambda>c. c) demo_calls demo_lite_id = Some (Inr 11)"
proof -
  have len: "length (write_get_block demo_tl demo_lite_id) = 84"
    by (simp add: write_get_block_def write_boxed_def write_block_id_full_def write_block_id_short_def demo_tl_def)
  have "judge demo_tl (read_block_data demo_tl) (Completed (AnsweredFirst (Some demo_block_answer))) =
      Good \<lparr>bd_id = demo_lite_id, bd_data = [4]\<rparr>"
    unfolding read_block_data_def demo_block_answer_def
    by (rule judge_boxed [OF demo_tl_laws])
      (simp add: demo_tl_def d_id_def,
       simp add: bnd_apply full_tl.read_write [OF demo_tl_laws demo_lite_id_ok] demo_get_bytes rs_apply)
  then have "query demo_calls (write_get_block demo_tl demo_lite_id) (read_block_data demo_tl) =
      Some (Inr \<lparr>bd_id = demo_lite_id, bd_data = [4]\<rparr>)"
    by (intro query_first_good) (simp_all add: demo_calls_def len)
  then show ?thesis
    by (simp add: get_block_def then_call_def demo_calls_def demo_lite_id_def)
qed

lemma demo_get_library:
  "get_library (\<lambda>bs. Inr (if bs = [4] then 11 else 5)) demo_calls 5 = Some (Inr (Some (5 :: hash_bytes)))"
proof -
  have len: "length (write_get_libraries demo_tl [5]) = 40"
    by (simp add: write_get_libraries_def write_boxed_def write_vec_def demo_tl_def)
  have "judge demo_tl (read_library_result demo_tl) (Completed (AnsweredFirst (Some demo_library_answer))) =
      Good [\<lparr>le_hash = 5, le_data = [6]\<rparr>]"
    unfolding read_library_result_def demo_library_answer_def
    by (rule judge_boxed [OF demo_tl_laws])
      (simp add: demo_tl_def d_id_def,
       simp add: read_vec_def read_library_entry_def bnd_apply rs_apply demo_get_bytes,
       simp add: demo_tl_def d_get_def d_get_bytes_def bnd_apply rs_apply)
  then have "query demo_calls (write_get_libraries demo_tl [5]) (read_library_result demo_tl) =
      Some (Inr [\<lparr>le_hash = 5, le_data = [6]\<rparr>])"
    by (intro query_first_good) (simp_all add: demo_calls_def len)
  then show ?thesis by (simp add: get_library_def then_call_def demo_calls_def)
qed

lemma calls_check_hashes_witness: "(11 :: hash_bytes) = root_hash demo_lite_id"
  using calls_check_hashes [OF demo_get_block demo_get_library] by simp

end
