(* ===== verification/Network_Client.thy ===== *)
theory Network_Client
  imports Signatures
begin

text \<open>
  The trait \<open>NetworkClient\<close> of \<open>sync-service/src/client/mod.rs\<close> and its provided methods: polling
  an account, sending a message reliably, and looking for the transaction of a message. An
  implementation of the trait is a record of operations on the state \<open>'w\<close> of the network, which
  each call may change. The polling loops need not end: they are partial functions whose value
  \<open>None\<close> is a loop that goes on for ever. Pauses are left out.
\<close>

section \<open>Data\<close>

text \<open>From \<open>sync-service/src/util/account.rs\<close>.\<close>

record gen_timings =
  gt_lt :: u64
  gt_utime :: u32

record last_transaction_id =
  lt_lt :: u64
  lt_hash :: hash_bytes

datatype account_status = Uninit | Active | Frozen

record account =
  ac_state :: account_status
  ac_balance :: u128

datatype 'i account_state_response =
    NotExists gen_timings
  | Exists account 'i gen_timings last_transaction_id
  | Unchanged gen_timings

record 'c key_block_data =
  kb_block_id :: block_id
  kb_root :: 'c
  kb_prev_seqno :: u32
  kb_current_vset :: validator_set
  kb_prev_vset :: "validator_set option"
  kb_signatures :: "block_signature list"

text \<open>What the code reads of a loaded transaction. \<open>tx_lib\<close> hashes and loads a lazy one.\<close>

datatype tx_outcome = Executed bool | Skipped | TickTock

record transaction =
  t_lt :: u64
  t_prev_lt :: u64
  t_prev_hash :: hash_bytes
  t_in_msg_hash :: "hash_bytes option"
  t_out_msgs :: "hash_bytes list"
  t_outcome :: tx_outcome

record 't tx_lib =
  tx_hash :: "'t \<Rightarrow> hash_bytes"
  tx_load :: "'t \<Rightarrow> error + transaction"

section \<open>The trait\<close>

type_synonym ('w, 'a) call = "('w, any_error, 'a) rs"

record ('w, 'c, 'i, 't, 'x) network_client =
  nc_signature_context :: "('w, 'x) call"
  nc_latest_key_block_seqno :: "('w, u32) call"
  nc_key_block :: "u32 \<Rightarrow> ('w, 'c key_block_data) call"
  nc_library_cell :: "hash_bytes \<Rightarrow> ('w, 'c option) call"
  nc_account_state :: "std_addr \<Rightarrow> u64 option \<Rightarrow> ('w, 'i account_state_response) call"
  nc_transactions :: "std_addr \<Rightarrow> u64 \<Rightarrow> hash_bytes \<Rightarrow> u8 \<Rightarrow> ('w, 't list) call"
  nc_send_message :: "'c \<Rightarrow> ('w, unit) call"
  nc_key_block_proof :: "'c key_block_data \<Rightarrow> any_error + 'c"

text \<open>Code that may never return: its result and the state of the network, or \<open>None\<close>.\<close>

type_synonym ('w, 'a) loops = "'w \<Rightarrow> ('a \<times> 'w) option"

section \<open>Polling an account\<close>

partial_function (option) account_state_with_retries ::
  "('w, 'c, 'i, 't, 'x) network_client \<Rightarrow> std_addr \<Rightarrow> u64 option \<Rightarrow>
   'w \<Rightarrow> ('i account_state_response \<times> 'w) option" where
  "account_state_with_retries C addr known_lt w =
     (case nc_account_state C addr known_lt w of
        (Inr res, w) \<Rightarrow> Some (res, w)
      | (Inl e, w) \<Rightarrow> account_state_with_retries C addr known_lt w)"

fun exists :: "'i account_state_response \<Rightarrow> bool" where
  "exists (Exists a i t l) = True"
| "exists _ = False"

partial_function (option) wait_for_deploy ::
  "('w, 'c, 'i, 't, 'x) network_client \<Rightarrow> std_addr \<Rightarrow> 'w \<Rightarrow> (unit \<times> 'w) option" where
  "wait_for_deploy C addr w =
     (case account_state_with_retries C addr None w of
        None \<Rightarrow> None
      | Some (state, w) \<Rightarrow> if exists state then Some ((), w) else wait_for_deploy C addr w)"

section \<open>Looking for a transaction\<close>

definition BATCH_LEN :: u8 where "BATCH_LEN = 10"

text \<open>The loop over one response: the transaction, or the id from which to go on.\<close>

fun scan_batch ::
  "'t tx_lib \<Rightarrow> hash_bytes \<Rightarrow> u64 \<Rightarrow> last_transaction_id \<Rightarrow> 't list \<Rightarrow>
   any_error + 't option \<times> last_transaction_id" where
  "scan_batch X msg_hash known_lt last_id [] = Inr (None, last_id)"
| "scan_batch X msg_hash known_lt last_id (raw_tx # res) =
     (if tx_hash X raw_tx \<noteq> lt_hash last_id then Inl (Msg ''last tx hash mismatch'')
      else case tx_load X raw_tx of
        Inl e \<Rightarrow> Inl (Lib e)
      | Inr tx \<Rightarrow>
          if t_lt tx \<noteq> lt_lt last_id then Inl (Msg ''last tx lt mismatch'')
          else if t_in_msg_hash tx = Some msg_hash then Inr (Some raw_tx, last_id)
          else
            let last_id = \<lparr>lt_lt = t_prev_lt tx, lt_hash = t_prev_hash tx\<rparr> in
            if t_prev_lt tx \<le> known_lt then Inr (None, last_id)
            else scan_batch X msg_hash known_lt last_id res)"

partial_function (option) do_find_transaction ::
  "('w, 'c, 'i, 't, 'x) network_client \<Rightarrow> 't tx_lib \<Rightarrow> std_addr \<Rightarrow> hash_bytes \<Rightarrow> u64 \<Rightarrow>
   last_transaction_id \<Rightarrow> 'w \<Rightarrow> ((any_error + 't option) \<times> 'w) option" where
  "do_find_transaction C X addr msg_hash known_lt last_id w =
     (case nc_transactions C addr (lt_lt last_id) (lt_hash last_id) BATCH_LEN w of
        (Inl e, w) \<Rightarrow> Some (Inl e, w)
      | (Inr res, w) \<Rightarrow>
          if res = [] then Some (Inl (Msg ''got empty transactions response''), w)
          else
            (case scan_batch X msg_hash known_lt last_id res of
               Inl e \<Rightarrow> Some (Inl e, w)
             | Inr (found, last_id) \<Rightarrow>
                 if found \<noteq> None then Some (Inr found, w)
                 else if lt_lt last_id \<le> known_lt then Some (Inr None, w)
                 else do_find_transaction C X addr msg_hash known_lt last_id w))"

partial_function (option) find_from ::
  "('w, 'c, 'i, 't, 'x) network_client \<Rightarrow> 't tx_lib \<Rightarrow> std_addr \<Rightarrow> hash_bytes \<Rightarrow> u64 \<Rightarrow>
   last_transaction_id \<Rightarrow> 'w \<Rightarrow> ('t option \<times> 'w) option" where
  "find_from C X addr msg_hash known_lt last_id w =
     (case do_find_transaction C X addr msg_hash known_lt last_id w of
        None \<Rightarrow> None
      | Some (Inr res, w) \<Rightarrow> Some (res, w)
      | Some (Inl e, w) \<Rightarrow> find_from C X addr msg_hash known_lt last_id w)"

text \<open>One look at the account: the search when there is something new, and the timings.\<close>

definition expired :: "u32 option \<Rightarrow> gen_timings \<Rightarrow> bool" where
  "expired expire_at timings =
     (case expire_at of None \<Rightarrow> False | Some at \<Rightarrow> at < gt_utime timings)"

partial_function (option) find_transaction ::
  "('w, 'c, 'i, 't, 'x) network_client \<Rightarrow> 't tx_lib \<Rightarrow> std_addr \<Rightarrow> hash_bytes \<Rightarrow> u64 \<Rightarrow>
   u32 option \<Rightarrow> 'w \<Rightarrow> ('t option \<times> 'w) option" where
  "find_transaction C X addr msg_hash known_lt expire_at w =
     (case account_state_with_retries C addr (Some known_lt) w of
        None \<Rightarrow> None
      | Some (Exists a i timings last_id, w) \<Rightarrow>
          if known_lt < lt_lt last_id then
            (case find_from C X addr msg_hash known_lt last_id w of
               None \<Rightarrow> None
             | Some (Some tx, w) \<Rightarrow> Some (Some tx, w)
             | Some (None, w) \<Rightarrow>
                 if expired expire_at timings then Some (None, w)
                 else find_transaction C X addr msg_hash (lt_lt last_id) expire_at w)
          else if expired expire_at timings then Some (None, w)
          else find_transaction C X addr msg_hash known_lt expire_at w
      | Some (NotExists timings, w) \<Rightarrow>
          if expired expire_at timings then Some (None, w)
          else find_transaction C X addr msg_hash known_lt expire_at w
      | Some (Unchanged timings, w) \<Rightarrow>
          if expired expire_at timings then Some (None, w)
          else find_transaction C X addr msg_hash known_lt expire_at w)"

definition send_message_reliable ::
  "('w, 'c, 'i, 't, 'x) network_client \<Rightarrow> 't tx_lib \<Rightarrow> ('c \<Rightarrow> hash_bytes) \<Rightarrow> std_addr \<Rightarrow> 'c \<Rightarrow> u64 \<Rightarrow>
   u32 \<Rightarrow> 'w \<Rightarrow> ((any_error + 't) \<times> 'w) option" where
  "send_message_reliable C X hash_of addr msg known_lt expire_at w =
     (case nc_send_message C msg w of
        (Inl e, w) \<Rightarrow> Some (Inl e, w)
      | (Inr u, w) \<Rightarrow>
          (case find_transaction C X addr (hash_of msg) known_lt (Some expire_at) w of
             None \<Rightarrow> None
           | Some (r, w) \<Rightarrow> Some (ok_or (Msg ''message expired'') r, w)))"

text \<open>The loops evaluate by their equations.\<close>

declare account_state_with_retries.simps [code]
  and wait_for_deploy.simps [code]
  and do_find_transaction.simps [code]
  and find_from.simps [code]
  and find_transaction.simps [code]

section \<open>What the search returns\<close>

text \<open>The transactions that hang on an id: each is the one the id names, the next its predecessor.\<close>

inductive linked :: "'t tx_lib \<Rightarrow> last_transaction_id \<Rightarrow> 't \<Rightarrow> bool" for X where
  linked_here: "tx_hash X raw_tx = lt_hash i \<Longrightarrow> tx_load X raw_tx = Inr tx \<Longrightarrow> t_lt tx = lt_lt i \<Longrightarrow>
    linked X i raw_tx"
| linked_back: "tx_hash X raw_tx = lt_hash i \<Longrightarrow> tx_load X raw_tx = Inr tx \<Longrightarrow> t_lt tx = lt_lt i \<Longrightarrow>
    linked X \<lparr>lt_lt = t_prev_lt tx, lt_hash = t_prev_hash tx\<rparr> raw_tx2 \<Longrightarrow> linked X i raw_tx2"

text \<open>\<open>answers X msg_hash raw_tx\<close>: the transaction was caused by the message.\<close>

definition answers :: "'t tx_lib \<Rightarrow> hash_bytes \<Rightarrow> 't \<Rightarrow> bool" where
  "answers X msg_hash raw_tx \<longleftrightarrow>
     (\<exists>tx. tx_load X raw_tx = Inr tx \<and> t_in_msg_hash tx = Some msg_hash)"

definition newer :: "'t tx_lib \<Rightarrow> u64 \<Rightarrow> 't \<Rightarrow> bool" where
  "newer X known_lt raw_tx \<longleftrightarrow> (\<exists>tx. tx_load X raw_tx = Inr tx \<and> known_lt < t_lt tx)"

lemma scan_batch_found:
  assumes "scan_batch X msg_hash known_lt i res = Inr (Some raw_tx, j)" and "known_lt < lt_lt i"
  shows "linked X i raw_tx \<and> answers X msg_hash raw_tx \<and> newer X known_lt raw_tx"
  using assms
proof (induction X msg_hash known_lt i res rule: scan_batch.induct)
  case (2 X msg_hash known_lt i r res)
  from "2.prems"(1) obtain tx where tx: "tx_hash X r = lt_hash i" "tx_load X r = Inr tx" "t_lt tx = lt_lt i"
    by (auto split: if_splits sum.splits)
  show ?case
  proof (cases "t_in_msg_hash tx = Some msg_hash")
    case True
    with "2.prems" tx have "r = raw_tx" by simp
    with True tx "2.prems"(2) show ?thesis
      by (auto intro: linked_here simp: answers_def newer_def)
  next
    case False
    with "2.prems"(1) tx have prev: "\<not> t_prev_lt tx \<le> known_lt" by (auto split: if_splits)
    let ?i = "\<lparr>lt_lt = t_prev_lt tx, lt_hash = t_prev_hash tx\<rparr>"
    from "2.prems"(1) tx False prev have "scan_batch X msg_hash known_lt ?i res = Inr (Some raw_tx, j)"
      by simp
    with "2.IH" tx False prev have
      "linked X ?i raw_tx \<and> answers X msg_hash raw_tx \<and> newer X known_lt raw_tx" by simp
    with tx show ?thesis by (auto intro: linked_back)
  qed
qed simp

text \<open>The id the scan stops at is reached from the start, so what hangs on it hangs on the start.\<close>

lemma scan_batch_linked:
  assumes "scan_batch X msg_hash known_lt i res = Inr (None, j)" and "linked X j raw_tx"
  shows "linked X i raw_tx"
  using assms
proof (induction X msg_hash known_lt i res rule: scan_batch.induct)
  case (2 X msg_hash known_lt i r res)
  from "2.prems"(1) obtain tx where tx: "tx_hash X r = lt_hash i" "tx_load X r = Inr tx" "t_lt tx = lt_lt i"
    by (auto split: if_splits sum.splits)
  from "2.prems"(1) tx have no: "t_in_msg_hash tx \<noteq> Some msg_hash" by auto
  let ?i = "\<lparr>lt_lt = t_prev_lt tx, lt_hash = t_prev_hash tx\<rparr>"
  have "linked X ?i raw_tx"
  proof (cases "t_prev_lt tx \<le> known_lt")
    case True
    with "2.prems" tx no show ?thesis by simp
  next
    case False
    with "2.prems" tx no "2.IH" [OF _ tx(2)] show ?thesis by simp
  qed
  with tx show ?case by (auto intro: linked_back)
qed simp

lemma do_find_found:
  assumes "do_find_transaction C X addr msg_hash known_lt i w = Some (r, w1)"
  shows "r = Inr (Some raw_tx) \<longrightarrow> known_lt < lt_lt i \<longrightarrow>
    linked X i raw_tx \<and> answers X msg_hash raw_tx \<and> newer X known_lt raw_tx"
proof -
  let ?P = "\<lambda>C X addr msg_hash known_lt i w z. fst z = Inr (Some raw_tx) \<longrightarrow> known_lt < lt_lt i \<longrightarrow>
    linked X i raw_tx \<and> answers X msg_hash raw_tx \<and> newer X known_lt raw_tx"
  have "?P C X addr msg_hash known_lt i w (r, w1)"
    by (rule do_find_transaction.raw_induct [OF _ assms, of ?P])
      (fastforce split: prod.splits sum.splits if_splits option.splits
        dest: scan_batch_found scan_batch_linked)
  then show ?thesis by simp
qed

lemma find_from_found:
  assumes "find_from C X addr msg_hash known_lt i w = Some (r, w1)"
  shows "r = Some raw_tx \<longrightarrow> known_lt < lt_lt i \<longrightarrow>
    linked X i raw_tx \<and> answers X msg_hash raw_tx \<and> newer X known_lt raw_tx"
proof -
  let ?P = "\<lambda>C X addr msg_hash known_lt i w z. fst z = Some raw_tx \<longrightarrow> known_lt < lt_lt i \<longrightarrow>
    linked X i raw_tx \<and> answers X msg_hash raw_tx \<and> newer X known_lt raw_tx"
  have "?P C X addr msg_hash known_lt i w (r, w1)"
    by (rule find_from.raw_induct [OF _ assms, of ?P])
      (fastforce split: prod.splits sum.splits option.splits dest: do_find_found)
  then show ?thesis by simp
qed

text \<open>An id that the node gave as the last transaction of the account.\<close>

definition reported :: "('w, 'c, 'i, 't, 'x) network_client \<Rightarrow> std_addr \<Rightarrow> last_transaction_id \<Rightarrow> bool" where
  "reported C addr i \<longleftrightarrow>
     (\<exists>known w w1 a x timings. nc_account_state C addr known w = (Inr (Exists a x timings i), w1))"

definition reported_expired ::
  "('w, 'c, 'i, 't, 'x) network_client \<Rightarrow> std_addr \<Rightarrow> u32 option \<Rightarrow> bool" where
  "reported_expired C addr expire_at \<longleftrightarrow>
     (\<exists>known w w1 a x timings i. expired expire_at timings \<and>
        nc_account_state C addr known w \<in>
          {(Inr (Exists a x timings i), w1), (Inr (NotExists timings), w1), (Inr (Unchanged timings), w1)})"

lemma retries_reports:
  assumes "account_state_with_retries C addr known_lt w = Some (r, w1)"
  shows "\<exists>w0. nc_account_state C addr known_lt w0 = (Inr r, w1)"
proof -
  let ?P = "\<lambda>C addr known_lt w z. \<exists>w0. nc_account_state C addr known_lt w0 = (Inr (fst z), snd z)"
  have "?P C addr known_lt w (r, w1)"
    by (rule account_state_with_retries.raw_induct [OF _ assms, of ?P])
      (fastforce split: prod.splits sum.splits)
  then show ?thesis by simp
qed

lemma newer_mono: "newer X b raw_tx \<Longrightarrow> a < b \<Longrightarrow> newer X a raw_tx"
  unfolding newer_def by (meson order.strict_trans)

definition search_ok ::
  "('w, 'c, 'i, 't, 'x) network_client \<Rightarrow> 't tx_lib \<Rightarrow> std_addr \<Rightarrow> hash_bytes \<Rightarrow> u64 \<Rightarrow> u32 option \<Rightarrow>
   't option \<Rightarrow> bool" where
  "search_ok C X addr msg_hash known_lt expire_at r \<longleftrightarrow>
     (case r of
        None \<Rightarrow> reported_expired C addr expire_at
      | Some raw_tx \<Rightarrow> answers X msg_hash raw_tx \<and> newer X known_lt raw_tx \<and>
          (\<exists>i. reported C addr i \<and> linked X i raw_tx))"

lemma search_ok_later:
  "search_ok C X addr msg_hash b expire_at r \<Longrightarrow> a < b \<Longrightarrow> search_ok C X addr msg_hash a expire_at r"
  by (auto simp: search_ok_def split: option.splits intro: newer_mono)

lemma search_ok_found:
  assumes "find_from C X addr msg_hash known_lt i w = Some (Some raw_tx, w1)" and "known_lt < lt_lt i"
    and "account_state_with_retries C addr k w0 = Some (Exists a x timings i, w)"
  shows "search_ok C X addr msg_hash known_lt expire_at (Some raw_tx)"
proof -
  have "reported C addr i" using retries_reports [OF assms(3)] unfolding reported_def by blast
  with find_from_found [OF assms(1), of raw_tx] assms(2) show ?thesis
    by (auto simp: search_ok_def)
qed

lemma search_ok_expired:
  assumes "expired expire_at timings"
    and "account_state_with_retries C addr k w0 = Some (r, w)"
    and "r \<in> {Exists a x timings i, NotExists timings, Unchanged timings}"
  shows "search_ok C X addr msg_hash known_lt expire_at None"
  using assms(1,3) retries_reports [OF assms(2)]
  unfolding search_ok_def reported_expired_def by fastforce

lemma find_transaction_ok:
  assumes "find_transaction C X addr msg_hash known_lt expire_at w = Some (r, w1)"
  shows "search_ok C X addr msg_hash known_lt expire_at r"
proof -
  let ?P = "\<lambda>C X addr msg_hash known_lt expire_at w z.
    search_ok C X addr msg_hash known_lt expire_at (fst z)"
  have "?P C X addr msg_hash known_lt expire_at w (r, w1)"
    by (rule find_transaction.raw_induct [OF _ assms, of ?P])
      (auto split: prod.splits option.splits account_state_response.splits if_splits
        intro: search_ok_found search_ok_expired, blast intro: search_ok_later)
  then show ?thesis by simp
qed

section \<open>The search on a chain\<close>

text \<open>
  \<open>chain X i txs\<close>: the transactions of an account from the one \<open>i\<close> names back to its first
  one, whose previous logical time is zero.
\<close>

fun chain :: "'t tx_lib \<Rightarrow> last_transaction_id \<Rightarrow> 't list \<Rightarrow> bool" where
  "chain X i [] \<longleftrightarrow> lt_lt i = 0"
| "chain X i (raw_tx # txs) \<longleftrightarrow>
     tx_hash X raw_tx = lt_hash i \<and>
     (case tx_load X raw_tx of
        Inl e \<Rightarrow> False
      | Inr tx \<Rightarrow> t_lt tx = lt_lt i \<and> chain X \<lparr>lt_lt = t_prev_lt tx, lt_hash = t_prev_hash tx\<rparr> txs)"

text \<open>A node that serves a chain answers with some of the transactions from the one asked for.\<close>

definition serves ::
  "('w, 'c, 'i, 't, 'x) network_client \<Rightarrow> 't tx_lib \<Rightarrow> std_addr \<Rightarrow> bool" where
  "serves C X addr \<longleftrightarrow>
     (\<forall>i txs w. chain X i txs \<longrightarrow> txs \<noteq> [] \<longrightarrow>
        (\<exists>n>0. nc_transactions C addr (lt_lt i) (lt_hash i) BATCH_LEN w = (Inr (take n txs), w)))"

lemma scan_batch_append:
  assumes "xs \<noteq> []"
  shows "scan_batch X msg_hash known_lt i (xs @ ys) =
    (case scan_batch X msg_hash known_lt i xs of
       Inl e \<Rightarrow> Inl e
     | Inr (found, j) \<Rightarrow>
         if found \<noteq> None \<or> lt_lt j \<le> known_lt then Inr (found, j)
         else scan_batch X msg_hash known_lt j ys)"
  using assms
proof (induction X msg_hash known_lt i xs rule: scan_batch.induct)
  case (2 X msg_hash known_lt i r res)
  show ?case
  proof (cases "res = []")
    case True
    then show ?thesis by (auto simp: Let_def split: sum.splits)
  next
    case False
    with "2.IH" show ?thesis by (auto simp: Let_def split: sum.splits)
  qed
qed simp

lemma scan_batch_chain:
  assumes "chain X i (xs @ ys)" and "scan_batch X msg_hash known_lt i xs = Inr (None, j)"
    and "known_lt < lt_lt j"
  shows "chain X j ys"
  using assms
proof (induction X msg_hash known_lt i xs rule: scan_batch.induct)
  case (2 X msg_hash known_lt i r res)
  from "2.prems"(1) obtain tx where tx: "tx_hash X r = lt_hash i" "tx_load X r = Inr tx" "t_lt tx = lt_lt i"
    by (auto split: sum.splits)
  from "2.prems"(2) tx have no: "t_in_msg_hash tx \<noteq> Some msg_hash" by auto
  with "2.prems" tx have "\<not> t_prev_lt tx \<le> known_lt" by auto
  with "2.prems" tx no "2.IH" [OF _ tx(2)] show ?case by simp
qed simp

lemma scan_batch_chain_ok:
  "chain X i txs \<Longrightarrow> scan_batch X msg_hash known_lt i (take n txs) \<noteq> Inl e"
proof (induction txs arbitrary: i n)
  case (Cons r txs)
  then show ?case by (cases n) (auto split: sum.splits simp: Let_def)
qed simp

lemma newer_head:
  assumes "chain X i (r # txs)" and "known_lt < lt_lt i"
  shows "newer X known_lt r"
  using assms by (auto simp: newer_def split: sum.splits)

lemma chain_old: "chain X i txs \<Longrightarrow> lt_lt i \<le> known_lt \<Longrightarrow> takeWhile (newer X known_lt) txs = []"
  by (cases txs) (auto simp: newer_def split: sum.splits)

text \<open>Scanning a whole chain finds the newest transaction the message caused.\<close>

lemma scan_batch_find:
  assumes "chain X i txs" and "known_lt < lt_lt i"
  shows "\<exists>j. scan_batch X msg_hash known_lt i txs =
    Inr (find (answers X msg_hash) (takeWhile (newer X known_lt) txs), j)"
  using assms
proof (induction txs arbitrary: i)
  case Nil
  then show ?case by simp
next
  case (Cons r txs)
  from Cons.prems(1) obtain tx where tx: "tx_hash X r = lt_hash i" "tx_load X r = Inr tx"
    "t_lt tx = lt_lt i" "chain X \<lparr>lt_lt = t_prev_lt tx, lt_hash = t_prev_hash tx\<rparr> txs"
    by (auto split: sum.splits)
  have new: "newer X known_lt r" by (rule newer_head [OF Cons.prems])
  have ans: "answers X msg_hash r \<longleftrightarrow> t_in_msg_hash tx = Some msg_hash"
    using tx(2) by (simp add: answers_def)
  show ?case
  proof (cases "t_prev_lt tx \<le> known_lt")
    case True
    with chain_old [OF tx(4), of known_lt] new ans tx show ?thesis by simp
  next
    case False
    with Cons.IH [OF tx(4)] new ans tx show ?thesis by simp
  qed
qed

lemma do_find_scans:
  assumes serves: "serves C X addr" and "chain X i txs" and "known_lt < lt_lt i"
  shows "do_find_transaction C X addr msg_hash known_lt i w =
    Some (map_sum id fst (scan_batch X msg_hash known_lt i txs), w)"
  using assms(2,3)
proof (induction "length txs" arbitrary: i txs rule: less_induct)
  case less
  have ne: "txs \<noteq> []" using less.prems by (cases txs) auto
  with serves less.prems(1) obtain n where n: "0 < n"
    "nc_transactions C addr (lt_lt i) (lt_hash i) BATCH_LEN w = (Inr (take n txs), w)"
    unfolding serves_def by blast
  have take_ne: "take n txs \<noteq> []" using n(1) ne by simp
  obtain found j where scan: "scan_batch X msg_hash known_lt i (take n txs) = Inr (found, j)"
    using scan_batch_chain_ok [OF less.prems(1)] by (metis sum.exhaust surj_pair)
  have whole: "scan_batch X msg_hash known_lt i txs =
      (if found \<noteq> None \<or> lt_lt j \<le> known_lt then Inr (found, j)
       else scan_batch X msg_hash known_lt j (drop n txs))"
    using scan_batch_append [OF take_ne, of X msg_hash known_lt i "drop n txs"] scan by simp
  show ?case
  proof (cases "found \<noteq> None \<or> lt_lt j \<le> known_lt")
    case True
    with n(2) take_ne scan whole show ?thesis
      by (subst do_find_transaction.simps) auto
  next
    case False
    then have "chain X j (drop n txs)"
      using scan_batch_chain [of X i "take n txs" "drop n txs" msg_hash known_lt j]
        less.prems(1) scan by (simp add: not_le)
    with False n ne less.hyps [of "drop n txs" j]
    have "do_find_transaction C X addr msg_hash known_lt j w =
      Some (map_sum id fst (scan_batch X msg_hash known_lt j (drop n txs)), w)"
      by (simp add: not_le)
    with False n(2) take_ne scan whole show ?thesis
      by (subst do_find_transaction.simps) auto
  qed
qed

lemma do_find_complete:
  assumes "serves C X addr" and "chain X i txs" and "known_lt < lt_lt i"
  shows "do_find_transaction C X addr msg_hash known_lt i w =
    Some (Inr (find (answers X msg_hash) (takeWhile (newer X known_lt) txs)), w)"
  using do_find_scans [OF assms] scan_batch_find [OF assms(2,3), of msg_hash] by auto

end
