(* ===== verification/Wallet.thy ===== *)
theory Wallet
  imports Network_Client
begin

text \<open>
  The wallet of \<open>sync-service/src/service/wallet.rs\<close>: waiting for enough balance, sending a
  message through the wallet contract, deploying the library with the epoch data, and sending
  a key block to the bridge. Contract code, message layouts and signing are parameters. An
  action reads and changes a state, may fail, and may never return.
\<close>

section \<open>Actions\<close>

type_synonym ('s, 'a) action = "'s \<Rightarrow> ((any_error + 'a) \<times> 's) option"

definition act_bind :: "('s, 'a) action \<Rightarrow> ('a \<Rightarrow> ('s, 'b) action) \<Rightarrow> ('s, 'b) action" where
  "act_bind m f s =
     (case m s of
        None \<Rightarrow> None
      | Some (Inl e, s) \<Rightarrow> Some (Inl e, s)
      | Some (Inr a, s) \<Rightarrow> f a s)"

definition act_ret :: "'a \<Rightarrow> ('s, 'a) action" where
  "act_ret a s = Some (Inr a, s)"

definition act_result :: "any_error + 'a \<Rightarrow> ('s, 'a) action" where
  "act_result r s = Some (r, s)"

definition act_call :: "('s, 'a) call \<Rightarrow> ('s, 'a) action" where
  "act_call m s = Some (m s)"

definition act_loop :: "('s \<Rightarrow> ('a \<times> 's) option) \<Rightarrow> ('s, 'a) action" where
  "act_loop m s = map_option (\<lambda>(a, s). (Inr a, s)) (m s)"

lemma act_bind_InrE:
  assumes "act_bind m f s = Some (Inr b, t)"
  obtains a u where "m s = Some (Inr a, u)" and "f a u = Some (Inr b, t)"
  using assms by (auto simp: act_bind_def split: option.splits sum.splits)

lemma act_simps [simp]:
  "act_ret a s = Some (Inr a, s)"
  "act_result r s = Some (r, s)"
  "act_call m s = Some (m s)"
  by (simp_all add: act_ret_def act_result_def act_call_def)

lemma act_loop_Inr [simp]: "act_loop m s = Some (Inr a, t) \<longleftrightarrow> m s = Some (a, t)"
  by (auto simp: act_loop_def)

section \<open>The wallet\<close>

record ('w, 'c, 'b, 'si, 'm, 'x) wallet_lib =
  wl_builder :: "('c, 'b) builder_lib"
  wl_repr_hash :: "'c \<Rightarrow> hash_bytes"
  wl_lib_store_init :: "std_addr \<Rightarrow> u128 \<Rightarrow> 'si"
  wl_wallet_init :: 'si
  wl_compute_address :: "u8 \<Rightarrow> 'si \<Rightarrow> std_addr"
  wl_internal_message :: "std_addr \<Rightarrow> bool \<Rightarrow> u128 \<Rightarrow> 'si option \<Rightarrow> 'b \<Rightarrow> error + 'm"
  wl_message_value :: "'m \<Rightarrow> error + u128"
  wl_external_message :: "'x \<Rightarrow> std_addr \<Rightarrow> u8 \<Rightarrow> 'm \<Rightarrow> u64 \<Rightarrow> u32 \<Rightarrow> 'si option \<Rightarrow> error + 'c"
  wl_tokens_add :: "u128 \<Rightarrow> u128 \<Rightarrow> u128"
  wl_now_millis :: "'w \<Rightarrow> u64"

record wallet =
  wa_address :: std_addr
  wa_min_required_balance :: u128

definition current_balance ::
  "('w, 'c, 'i, 't, 'x) network_client \<Rightarrow> wallet \<Rightarrow> 'w \<Rightarrow> (u128 option \<times> 'w) option" where
  "current_balance C wa w =
     map_option (\<lambda>(state, w).
       (case state of
          Exists account i timings last_id \<Rightarrow> Some (ac_balance account)
        | NotExists timings \<Rightarrow> Some 0
        | Unchanged timings \<Rightarrow> None, w))
     (account_state_with_retries C (wa_address wa) None w)"

record 'si wallet_state =
  ws_known_lt :: u64
  ws_init :: "'si option"

partial_function (option) wait_for_state ::
  "('w, 'c, 'i, 't, 'x) network_client \<Rightarrow> 'si \<Rightarrow> std_addr \<Rightarrow> u128 \<Rightarrow> u64 option \<Rightarrow> 'w \<Rightarrow>
   ((any_error + 'si wallet_state) \<times> 'w) option" where
  "wait_for_state C state_init addr target_balance known_lt w =
     (case account_state_with_retries C addr known_lt w of
        None \<Rightarrow> None
      | Some (NotExists timings, w) \<Rightarrow> wait_for_state C state_init addr target_balance known_lt w
      | Some (Unchanged timings, w) \<Rightarrow> wait_for_state C state_init addr target_balance known_lt w
      | Some (Exists account i timings last_id, w) \<Rightarrow>
          if ac_state account = Frozen then Some (Inl (Msg ''wallet is frozen''), w)
          else if target_balance \<le> ac_balance account then
            Some (Inr \<lparr>ws_known_lt = lt_lt last_id,
              ws_init = (if ac_state account = Uninit then Some state_init else None)\<rparr>, w)
          else wait_for_state C state_init addr target_balance (Some (lt_lt last_id)) w)"

definition clamp_ttl :: "u32 \<Rightarrow> u32" where
  "clamp_ttl timeout = max 1 (min 60 timeout)"

definition expire_time :: "u64 \<Rightarrow> u32 \<Rightarrow> u32" where
  "expire_time now_ms ttl = ucast (now_ms div 1000) + ttl"

definition wallet_send_message ::
  "('w, 'c, 'i, 't, 'x) network_client \<Rightarrow> 't tx_lib \<Rightarrow> ('w, 'c, 'b, 'si, 'm, 'x) wallet_lib \<Rightarrow> wallet \<Rightarrow>
   u8 \<Rightarrow> 'm \<Rightarrow> u32 \<Rightarrow> ('w, 't) action" where
  "wallet_send_message C X W wa flags message timeout =
     act_bind (act_call (nc_signature_context C)) (\<lambda>signature_context.
     act_bind (act_result (map_err Lib (wl_message_value W message))) (\<lambda>message_value.
     act_bind (wait_for_state C (wl_wallet_init W) (wa_address wa)
        (wl_tokens_add W message_value (wa_min_required_balance wa)) None) (\<lambda>state. \<lambda>w.
     let now_ms = wl_now_millis W w; expire_at = expire_time now_ms (clamp_ttl timeout) in
     act_bind (act_result (map_err Lib (wl_external_message W signature_context (wa_address wa) flags
        message now_ms expire_at (ws_init state)))) (\<lambda>message_cell.
     send_message_reliable C X (wl_repr_hash W) (wa_address wa) message_cell (ws_known_lt state) expire_at)
     w)))"

text \<open>The check that the account of the library does not exist yet.\<close>

fun lib_store_free :: "'i account_state_response \<Rightarrow> bool" where
  "lib_store_free (Exists account i timings last_id) = (ac_state account = Uninit)"
| "lib_store_free _ = True"

definition deploy_vset_lib ::
  "('w, 'c, 'i, 't, 'x) network_client \<Rightarrow> 't tx_lib \<Rightarrow> ('w, 'c, 'b, 'si, 'm, 'x) wallet_lib \<Rightarrow> wallet \<Rightarrow>
   'c \<Rightarrow> u128 \<Rightarrow> u128 \<Rightarrow> ('w, std_addr) action" where
  "deploy_vset_lib C X W wa epoch_data amount lib_id =
     (let state_init = wl_lib_store_init W (wa_address wa) lib_id;
          addr = wl_compute_address W (-1) state_init in
      act_bind (act_call (nc_account_state C addr None)) (\<lambda>account.
      act_bind (act_result (ensure (lib_store_free account) (Msg ''lib_store account already exists''))) (\<lambda>_.
      act_bind (act_result (map_err Lib (store_reference (wl_builder W) epoch_data (b_new (wl_builder W))))) (\<lambda>body.
      act_bind (act_result (map_err Lib (wl_internal_message W addr False amount (Some state_init) body))) (\<lambda>message.
      act_bind (wallet_send_message C X W wa 1 message 60) (\<lambda>tx.
      act_bind (act_loop (wait_for_deploy C addr)) (\<lambda>_.
      act_ret addr)))))))"

definition METHOD_ID :: u32 where "METHOD_ID = 0x11a78ffe"

definition key_block_body ::
  "('c, 'b) builder_lib \<Rightarrow> 'c \<Rightarrow> hash_bytes \<Rightarrow> 'c \<Rightarrow> u64 \<Rightarrow> error + 'b" where
  "key_block_body B key_block_proof file_hash_of signatures query_id =
     bindR (store_u32 B METHOD_ID (b_new B)) (\<lambda>body.
     bindR (bindR (store_u256 B file_hash_of (b_new B)) (\<lambda>b.
            bindR (store_reference B key_block_proof b) (\<lambda>b. build B b))) (\<lambda>proof_cell.
     bindR (store_reference B proof_cell body) (\<lambda>body.
     bindR (store_reference B signatures body) (\<lambda>body.
     store_u64 B query_id body))))"

fun bridge_lt :: "'i account_state_response \<Rightarrow> any_error + u64" where
  "bridge_lt (Exists account i timings last_id) = Inr (lt_lt last_id)"
| "bridge_lt (NotExists timings) = Inl (Msg ''bridge account does not exist'')"
| "bridge_lt (Unchanged timings) = Inl (Msg ''unexpected response'')"

definition wallet_send_key_block ::
  "('w, 'c, 'i, 't, 'x) network_client \<Rightarrow> 't tx_lib \<Rightarrow> ('w, 'c, 'b, 'si, 'm, 'x) wallet_lib \<Rightarrow> wallet \<Rightarrow>
   'c \<Rightarrow> hash_bytes \<Rightarrow> 'c \<Rightarrow> std_addr \<Rightarrow> u128 \<Rightarrow> u64 \<Rightarrow> ('w, 't) action" where
  "wallet_send_key_block C X W wa key_block_proof file_hash_of signatures bridge_address amount query_id =
     act_bind (act_result (map_err Lib (key_block_body (wl_builder W) key_block_proof file_hash_of signatures query_id))) (\<lambda>body.
     act_bind (act_result (map_err Lib (wl_internal_message W bridge_address True amount None body))) (\<lambda>message.
     act_bind (act_loop (account_state_with_retries C bridge_address None)) (\<lambda>state.
     act_bind (act_result (bridge_lt state)) (\<lambda>lt.
     act_bind (wallet_send_message C X W wa 1 message 60) (\<lambda>tx.
     act_bind (act_result (map_err Lib (tx_load X tx))) (\<lambda>tx.
     act_bind (act_result (case t_out_msgs tx of [] \<Rightarrow> Inl (Msg ''no outbound messages found'')
                                               | out_msg # _ \<Rightarrow> Inr out_msg)) (\<lambda>out_msg.
     act_bind (act_loop (find_transaction C X bridge_address out_msg lt None)) (\<lambda>found.
     act_result (ok_or (Msg ''no tx found'') found)))))))))"

text \<open>The loops evaluate by their equations.\<close>

declare wait_for_state.simps [code]

section \<open>What the wallet waits for\<close>

lemma wait_for_state_ok:
  assumes "wait_for_state C si addr target known_lt w = Some (r, w1)"
  shows "\<exists>account i timings last_id known w0.
    nc_account_state C addr known w0 = (Inr (Exists account i timings last_id), w1) \<and>
    (case r of
       Inl e \<Rightarrow> ac_state account = Frozen
     | Inr st \<Rightarrow> ac_state account \<noteq> Frozen \<and> target \<le> ac_balance account \<and>
         ws_known_lt st = lt_lt last_id \<and> ws_init st = (if ac_state account = Uninit then Some si else None))"
proof -
  let ?P = "\<lambda>C si addr target known_lt w z. \<exists>account i timings last_id known w0.
    nc_account_state C addr known w0 = (Inr (Exists account i timings last_id), snd z) \<and>
    (case fst z of
       Inl e \<Rightarrow> ac_state account = Frozen
     | Inr st \<Rightarrow> ac_state account \<noteq> Frozen \<and> target \<le> ac_balance account \<and>
         ws_known_lt st = lt_lt last_id \<and> ws_init st = (if ac_state account = Uninit then Some si else None))"
  have "?P C si addr target known_lt w (r, w1)"
    by (rule wait_for_state.raw_induct [OF _ assms, of ?P])
      (fastforce split: option.splits prod.splits account_state_response.splits if_splits
        dest!: retries_reports)
  then show ?thesis by simp
qed

text \<open>A search without an expiry time never gives up.\<close>

lemma find_transaction_no_expiry:
  assumes "find_transaction C X addr msg_hash known_lt None w = Some (r, w1)"
  shows "\<exists>raw_tx. r = Some raw_tx \<and> answers X msg_hash raw_tx \<and> newer X known_lt raw_tx"
  using find_transaction_ok [OF assms]
  by (auto simp: search_ok_def reported_expired_def expired_def split: option.splits)

lemma send_message_reliable_ok:
  assumes "send_message_reliable C X hash_of addr msg known_lt expire_at w = Some (Inr tx, w1)"
  shows "answers X (hash_of msg) tx \<and> newer X known_lt tx"
proof -
  from assms obtain r w2 where
    found: "find_transaction C X addr (hash_of msg) known_lt (Some expire_at) w2 = Some (r, w1)"
    and "ok_or (Msg ''message expired'') r = Inr tx"
    by (auto simp: send_message_reliable_def split: prod.splits sum.splits option.splits)
  then have "r = Some tx" by simp
  with find_transaction_ok [OF found] show ?thesis by (simp add: search_ok_def)
qed

text \<open>
  \<open>wallet_sent\<close>: the wallet's transaction was caused by an external message that carries the
  internal message.
\<close>

definition wallet_sent ::
  "'t tx_lib \<Rightarrow> ('w, 'c, 'b, 'si, 'm, 'x) wallet_lib \<Rightarrow> wallet \<Rightarrow> 'm \<Rightarrow> 't \<Rightarrow> bool" where
  "wallet_sent X W wa message wallet_tx \<longleftrightarrow>
     (\<exists>ctx now_ms expire_at init cell.
        wl_external_message W ctx (wa_address wa) 1 message now_ms expire_at init = Inr cell \<and>
        answers X (wl_repr_hash W cell) wallet_tx)"

lemma wallet_send_message_ok:
  assumes "wallet_send_message C X W wa 1 message timeout w = Some (Inr tx, w1)"
  shows "wallet_sent X W wa message tx"
  using assms unfolding wallet_send_message_def Let_def wallet_sent_def
  by (auto elim!: act_bind_InrE dest!: send_message_reliable_ok) blast

text \<open>
  The transaction returned for a key block is one of the bridge, newer than the bridge's state
  before sending, and caused by the first message the wallet's transaction sent, which in
  turn was caused by the message with the key block.
\<close>

lemma wallet_send_key_block_ok:
  assumes "wallet_send_key_block C X W wa p fh sigs bridge amount q w = Some (Inr tx, w1)"
  shows "\<exists>body message wallet_tx wtx out_msg rest lt.
    key_block_body (wl_builder W) p fh sigs q = Inr body \<and>
    wl_internal_message W bridge True amount None body = Inr message \<and>
    wallet_sent X W wa message wallet_tx \<and>
    tx_load X wallet_tx = Inr wtx \<and> t_out_msgs wtx = out_msg # rest \<and>
    answers X out_msg tx \<and> newer X lt tx \<and>
    (\<exists>account i timings last_id known w0 w2. lt = lt_lt last_id \<and>
       nc_account_state C bridge known w0 = (Inr (Exists account i timings last_id), w2))"
proof -
  from assms obtain body message state w2 lt w3 w5 w6 wallet_tx w4 wtx out_msg found where
    body: "key_block_body (wl_builder W) p fh sigs q = Inr body" and
    message: "wl_internal_message W bridge True amount None body = Inr message" and
    state: "account_state_with_retries C bridge None w = Some (state, w2)" and
    lt: "bridge_lt state = Inr lt" and
    sent: "wallet_send_message C X W wa 1 message 60 w5 = Some (Inr wallet_tx, w6)" and
    load: "tx_load X wallet_tx = Inr wtx" and
    out: "(case t_out_msgs wtx of [] \<Rightarrow> Inl (Msg ''no outbound messages found'') | m # _ \<Rightarrow> Inr m) = Inr out_msg" and
    found: "find_transaction C X bridge out_msg lt None w4 = Some (found, w3)" and tx: "found = Some tx"
    unfolding wallet_send_key_block_def by (auto elim!: act_bind_InrE)
  from retries_reports [OF state] obtain w0 where "nc_account_state C bridge None w0 = (Inr state, w2)"
    by blast
  moreover from lt obtain account i timings last_id where
    "state = Exists account i timings last_id" "lt = lt_lt last_id" by (cases state) auto
  ultimately have "\<exists>account i timings last_id known w0 w2. lt = lt_lt last_id \<and>
       nc_account_state C bridge known w0 = (Inr (Exists account i timings last_id), w2)"
    by blast
  moreover from out obtain rest where "t_out_msgs wtx = out_msg # rest" by (auto split: list.splits)
  ultimately show ?thesis
    using body message wallet_send_message_ok [OF sent] load find_transaction_no_expiry [OF found] tx by blast
qed

end
