(* ===== verification/Uploader.thy ===== *)
theory Uploader
  imports Wallet
begin

text \<open>
  The uploader of \<open>sync-service/src/service/mod.rs\<close>: it reads the epoch the bridge knows, walks
  back from the latest key block of the source network to the first one after that epoch,
  deploys the library with its epoch data if it is missing, and sends the key block to the
  bridge. Its state is the cache of key blocks, what it remembers between rounds and the metrics
  of \<open>sync-service/src/metrics.rs\<close>, beside the state of the two networks.
\<close>

section \<open>State and environment\<close>

datatype uploader_status = Initializing | Running | Retrying

record uploader_metrics =
  um_status :: uploader_status
  um_wallet_balance :: u128
  um_wallet_min_required_balance :: u128
  um_last_checked_vset :: u32
  um_min_bridge_state_lt :: u64
  um_cached_key_blocks :: nat
  um_last_seen_src_key_block_seqno :: u32
  um_last_sent_key_block_seqno :: u32
  um_last_sent_key_block_utime :: u32
  um_last_success_unix_time :: u64
  um_last_error_unix_time :: u64

definition new_metrics :: uploader_metrics where
  "new_metrics = \<lparr>um_status = Initializing, um_wallet_balance = 0, um_wallet_min_required_balance = 0,
     um_last_checked_vset = 0, um_min_bridge_state_lt = 0, um_cached_key_blocks = 0,
     um_last_seen_src_key_block_seqno = 0, um_last_sent_key_block_seqno = 0,
     um_last_sent_key_block_utime = 0, um_last_success_unix_time = 0, um_last_error_unix_time = 0\<rparr>"

text \<open>The cache is an association list with one entry for a key.\<close>

record 'c uploader =
  up_cache :: "(u32 \<times> 'c key_block_data) list"
  up_min_bridge_state_lt :: u64
  up_last_checked_vset :: u32
  up_last_balance_refresh :: "u64 option"
  up_metrics :: uploader_metrics

definition new_uploader :: "'c uploader" where
  "new_uploader = \<lparr>up_cache = [], up_min_bridge_state_lt = 0, up_last_checked_vset = 0,
     up_last_balance_refresh = None, up_metrics = new_metrics\<rparr>"

text \<open>\<open>self.metrics.update(..)\<close>\<close>

definition update_metrics :: "(uploader_metrics \<Rightarrow> uploader_metrics) \<Rightarrow> 'c uploader \<Rightarrow> 'c uploader" where
  "update_metrics f u = u\<lparr>up_metrics := f (up_metrics u)\<rparr>"

lemma update_metrics_simps [simp]:
  "up_cache (update_metrics f u) = up_cache u"
  "up_min_bridge_state_lt (update_metrics f u) = up_min_bridge_state_lt u"
  "up_last_checked_vset (update_metrics f u) = up_last_checked_vset u"
  "up_last_balance_refresh (update_metrics f u) = up_last_balance_refresh u"
  "up_metrics (update_metrics f u) = f (up_metrics u)"
  by (simp_all add: update_metrics_def)

text \<open>The result of running a getter of the bridge contract, and reading an integer from it.\<close>

record 'v getter_output =
  go_success :: bool
  go_stack :: "'v list"

record ('w, 'c, 'i, 't, 'x, 'b, 'si, 'm, 'v) sync_env =
  se_src :: "('w, 'c, 'i, 't, 'x) network_client"
  se_dst :: "('w, 'c, 'i, 't, 'x) network_client"
  se_tx :: "'t tx_lib"
  se_wallet_lib :: "('w, 'c, 'b, 'si, 'm, 'x) wallet_lib"
  se_wallet :: wallet
  se_key_hash :: "hash_bytes \<Rightarrow> hash_bytes"
  se_bridge_address :: std_addr
  se_lib_store_value :: u128
  se_store_vset_value :: u128
  se_refresh_interval :: u64
  se_getter :: "account \<Rightarrow> 'i \<Rightarrow> any_error + 'v getter_output"
  se_stack_u32 :: "'v \<Rightarrow> any_error + u32"
  se_now_sec :: "'w \<Rightarrow> u64"
  se_random_id :: "'w \<Rightarrow> u128"

type_synonym ('w, 'c, 'a) sync = "('c uploader \<times> 'w, 'a) action"

definition on_net :: "('w, 'a) action \<Rightarrow> ('w, 'c, 'a) sync" where
  "on_net m s = map_option (\<lambda>(r, w). (r, (fst s, w))) (m (snd s))"

definition on_uploader :: "('c uploader \<Rightarrow> 'c uploader) \<Rightarrow> ('w, 'c, unit) sync" where
  "on_uploader f s = Some (Inr (), (f (fst s), snd s))"

text \<open>The same, with the time of the call.\<close>

definition on_uploader_at ::
  "('w \<Rightarrow> u64) \<Rightarrow> (u64 \<Rightarrow> 'c uploader \<Rightarrow> 'c uploader) \<Rightarrow> ('w, 'c, unit) sync" where
  "on_uploader_at now f s = Some (Inr (), (f (now (snd s)) (fst s), snd s))"

definition reads :: "('c uploader \<Rightarrow> 'a) \<Rightarrow> ('w, 'c, 'a) sync" where
  "reads f s = Some (Inr (f (fst s)), s)"

section \<open>Looking for the next key block\<close>

definition seen :: "'c key_block_data \<Rightarrow> 'c uploader \<Rightarrow> 'c uploader" where
  "seen key_block u =
     update_metrics (\<lambda>m. m\<lparr>um_cached_key_blocks := length (up_cache u),
       um_last_seen_src_key_block_seqno := seqno (kb_block_id key_block)\<rparr>) u"

definition fetch_key_block ::
  "('w, 'c, 'i, 't, 'x) network_client \<Rightarrow> u32 \<Rightarrow> ('w, 'c, 'c key_block_data) sync" where
  "fetch_key_block src n s =
     (case map_of (up_cache (fst s)) n of
        Some key_block \<Rightarrow> Some (Inr key_block, (seen key_block (fst s), snd s))
      | None \<Rightarrow>
          (case nc_key_block src n (snd s) of
             (Inl e, w) \<Rightarrow> Some (Inl e, (fst s, w))
           | (Inr key_block, w) \<Rightarrow>
               Some (Inr key_block,
                 (seen key_block ((fst s)\<lparr>up_cache := AList.update n key_block (up_cache (fst s))\<rparr>), w))))"

partial_function (option) walk_back ::
  "('w, 'c, 'i, 't, 'x) network_client \<Rightarrow> u32 \<Rightarrow> u32 \<Rightarrow> 'c key_block_data option \<Rightarrow>
   'c uploader \<times> 'w \<Rightarrow> ((any_error + 'c key_block_data option) \<times> ('c uploader \<times> 'w)) option" where
  "walk_back src current_since latest_seqno result s =
     (case fetch_key_block src latest_seqno s of
        None \<Rightarrow> None
      | Some (Inl e, s) \<Rightarrow> Some (Inl e, s)
      | Some (Inr key_block, s) \<Rightarrow>
          if current_since < utime_since (kb_current_vset key_block)
          then walk_back src current_since (kb_prev_seqno key_block) (Some key_block) s
          else if utime_since (kb_current_vset key_block) < current_since then Some (Inr None, s)
          else Some (Inr result, s))"

definition find_next_key_block ::
  "('w, 'c, 'i, 't, 'x) network_client \<Rightarrow> u32 \<Rightarrow> ('w, 'c, 'c key_block_data option) sync" where
  "find_next_key_block src current_since =
     act_bind (on_net (act_call (nc_latest_key_block_seqno src))) (\<lambda>latest_seqno.
     walk_back src current_since latest_seqno None)"

section \<open>The epoch the bridge knows\<close>

partial_function (option) bridge_account ::
  "('w, 'c, 'i, 't, 'x) network_client \<Rightarrow> std_addr \<Rightarrow> u64 \<Rightarrow> 'w \<Rightarrow> ((account \<times> 'i) \<times> 'w) option" where
  "bridge_account dst addr min_lt w =
     (case account_state_with_retries dst addr None w of
        None \<Rightarrow> None
      | Some (Exists account i timings last_id, w) \<Rightarrow>
          if min_lt \<le> gt_lt timings \<and> ac_state account = Active then Some ((account, i), w)
          else bridge_account dst addr min_lt w
      | Some (NotExists timings, w) \<Rightarrow> bridge_account dst addr min_lt w
      | Some (Unchanged timings, w) \<Rightarrow> bridge_account dst addr min_lt w)"

definition epoch_of_output ::
  "('v \<Rightarrow> any_error + u32) \<Rightarrow> 'v getter_output \<Rightarrow> any_error + u32" where
  "epoch_of_output to_u32 out =
     bindR (ensure (go_success out) (Msg ''failed to get current epoch'')) (\<lambda>_.
     case go_stack out of [] \<Rightarrow> Inl (Msg ''empty stack'') | first # _ \<Rightarrow> to_u32 first)"

definition get_current_epoch_since ::
  "('w, 'c, 'i, 't, 'x, 'b, 'si, 'm, 'v) sync_env \<Rightarrow> ('w, 'c, u32) sync" where
  "get_current_epoch_since E =
     act_bind (reads up_min_bridge_state_lt) (\<lambda>min_lt.
     act_bind (on_net (act_loop (bridge_account (se_dst E) (se_bridge_address E) min_lt))) (\<lambda>(account, i).
     act_result (bindR (se_getter E account i) (epoch_of_output (se_stack_u32 E)))))"

section \<open>The wallet balance\<close>

definition refreshed :: "u128 \<Rightarrow> u64 \<Rightarrow> 'c uploader \<Rightarrow> 'c uploader" where
  "refreshed balance now u =
     (update_metrics (\<lambda>m. m\<lparr>um_wallet_balance := balance\<rparr>) u)\<lparr>up_last_balance_refresh := Some now\<rparr>"

definition refresh_wallet_balance ::
  "('w, 'c, 'i, 't, 'x, 'b, 'si, 'm, 'v) sync_env \<Rightarrow> ('w, 'c, unit) sync" where
  "refresh_wallet_balance E =
     act_bind (on_net (act_loop (current_balance (se_dst E) (se_wallet E)))) (\<lambda>balance. \<lambda>s.
     (case balance of
        None \<Rightarrow> act_ret ()
      | Some b \<Rightarrow> on_uploader_at (wl_now_millis (se_wallet_lib E)) (refreshed b)) s)"

definition refresh_wallet_balance_if_needed ::
  "('w, 'c, 'i, 't, 'x, 'b, 'si, 'm, 'v) sync_env \<Rightarrow> ('w, 'c, unit) sync" where
  "refresh_wallet_balance_if_needed E s =
     (case up_last_balance_refresh (fst s) of
        None \<Rightarrow> refresh_wallet_balance E s
      | Some last_refresh \<Rightarrow>
          if se_refresh_interval E \<le> wl_now_millis (se_wallet_lib E) (snd s) - last_refresh
          then refresh_wallet_balance E s else Some (Inr (), s))"

section \<open>Sending a key block\<close>

text \<open>The library is deployed already when the node returns a cell with its hash.\<close>

definition lib_deployed :: "('c \<Rightarrow> hash_bytes) \<Rightarrow> 'c \<Rightarrow> any_error + 'c option \<Rightarrow> bool" where
  "lib_deployed hash_of epoch_data answer =
     (case answer of Inr (Some lib) \<Rightarrow> hash_of lib = hash_of epoch_data | _ \<Rightarrow> False)"

definition store_lib ::
  "('w, 'c, 'i, 't, 'x, 'b, 'si, 'm, 'v) sync_env \<Rightarrow> 'c \<Rightarrow> ('w, 'c, unit) sync" where
  "store_lib E epoch_data =
     (let W = se_wallet_lib E in
      act_bind (on_net (\<lambda>w. case nc_library_cell (se_dst E) (wl_repr_hash W epoch_data) w of
                  (answer, w) \<Rightarrow> Some (Inr (lib_deployed (wl_repr_hash W) epoch_data answer), w))) (\<lambda>deployed.
      if deployed then act_ret ()
      else
        act_bind (on_net (\<lambda>w. deploy_vset_lib (se_dst E) (se_tx E) W (se_wallet E) epoch_data
           (se_lib_store_value E) (se_random_id E w) w)) (\<lambda>lib_store.
        refresh_wallet_balance E)))"

fun check_outcome :: "tx_outcome \<Rightarrow> any_error + unit" where
  "check_outcome (Executed success) = ensure success (Msg ''key block was rejected'')"
| "check_outcome Skipped = Inl (Msg ''key block was not applied'')"
| "check_outcome TickTock = Inl (Msg ''unexpected tx info'')"

text \<open>The metrics count a key block as sent before the outcome of its transaction is checked.\<close>

definition sent_metrics :: "'c key_block_data \<Rightarrow> u64 \<Rightarrow> 'c uploader \<Rightarrow> 'c uploader" where
  "sent_metrics key_block now u =
     update_metrics (\<lambda>m. m\<lparr>um_min_bridge_state_lt := up_min_bridge_state_lt u,
       um_last_sent_key_block_seqno := seqno (kb_block_id key_block),
       um_last_sent_key_block_utime := utime_since (kb_current_vset key_block),
       um_last_success_unix_time := now\<rparr>) u"

definition send_key_block ::
  "('w, 'c, 'i, 't, 'x, 'b, 'si, 'm, 'v) sync_env \<Rightarrow> 'c key_block_data \<Rightarrow> ('w, 'c, unit) sync" where
  "send_key_block E key_block =
     (let B = wl_builder (se_wallet_lib E) in
      act_bind (act_result (nc_key_block_proof (se_src E) key_block)) (\<lambda>proof_root.
      act_bind (act_result (map_err Lib (build_merkle_proof B (cell_hash0 B proof_root)
         (cell_depth0 B proof_root) proof_root))) (\<lambda>key_block_proof.
      act_bind (act_result (ok_or (Msg ''no prev_vset found'') (kb_prev_vset key_block))) (\<lambda>prev_vset.
      act_bind (act_result (map_err Lib (prepare_signatures B (se_key_hash E)
         (map Inr (kb_signatures key_block)) prev_vset))) (\<lambda>signatures.
      act_bind (act_result (map_err Lib (make_epoch_data B (kb_current_vset key_block)))) (\<lambda>epoch_data.
      act_bind (store_lib E epoch_data) (\<lambda>_.
      act_bind (on_net (wallet_send_key_block (se_dst E) (se_tx E) (se_wallet_lib E) (se_wallet E)
         key_block_proof (file_hash (kb_block_id key_block)) signatures (se_bridge_address E)
         (se_store_vset_value E) 0)) (\<lambda>raw_tx.
      act_bind (refresh_wallet_balance E) (\<lambda>_.
      act_bind (act_result (map_err Lib (tx_load (se_tx E) raw_tx))) (\<lambda>tx.
      act_bind (on_uploader (\<lambda>u. u\<lparr>up_min_bridge_state_lt := t_lt tx\<rparr>)) (\<lambda>_.
      act_bind (on_uploader_at (se_now_sec E) (sent_metrics key_block)) (\<lambda>_.
      act_result (check_outcome (t_outcome tx))))))))))))))"

section \<open>One round\<close>

text \<open>\<open>split_off\<close>: the entries from the previous key block on stay in the cache.\<close>

definition split_off :: "u32 \<Rightarrow> (u32 \<times> 'a) list \<Rightarrow> (u32 \<times> 'a) list" where
  "split_off n m = filter (\<lambda>(k, v). n \<le> k) m"

definition new_cache :: "u32 \<Rightarrow> 'c uploader \<Rightarrow> 'c uploader" where
  "new_cache n u =
     (let u = u\<lparr>up_cache := split_off n (up_cache u)\<rparr> in
      update_metrics (\<lambda>m. m\<lparr>um_cached_key_blocks := length (up_cache u)\<rparr>) u)"

definition checked :: "u32 \<Rightarrow> 'c uploader \<Rightarrow> 'c uploader" where
  "checked since u =
     update_metrics (\<lambda>m. m\<lparr>um_last_checked_vset := since\<rparr>) (u\<lparr>up_last_checked_vset := since\<rparr>)"

definition sync_key_blocks ::
  "('w, 'c, 'i, 't, 'x, 'b, 'si, 'm, 'v) sync_env \<Rightarrow> ('w, 'c, unit) sync" where
  "sync_key_blocks E =
     act_bind (refresh_wallet_balance_if_needed E) (\<lambda>_.
     act_bind (get_current_epoch_since E) (\<lambda>current_since.
     act_bind (on_uploader (checked current_since)) (\<lambda>_.
     act_bind (find_next_key_block (se_src E) current_since) (\<lambda>found.
     case found of
       None \<Rightarrow> act_ret ()
     | Some key_block \<Rightarrow>
         act_bind (send_key_block E key_block) (\<lambda>_.
         on_uploader (new_cache (kb_prev_seqno key_block)))))))"

text \<open>
  The task \<open>run\<close> repeats rounds for ever, whether they fail or not, and notes how each ended; here
  as many as are asked for.
\<close>

definition noted :: "any_error + unit \<Rightarrow> u64 \<Rightarrow> 'c uploader \<Rightarrow> 'c uploader" where
  "noted r now =
     (case r of
        Inl e \<Rightarrow> update_metrics (\<lambda>m. m\<lparr>um_status := Retrying, um_last_error_unix_time := now\<rparr>)
      | Inr x \<Rightarrow> update_metrics (\<lambda>m. m\<lparr>um_status := Running\<rparr>))"

fun run_rounds ::
  "nat \<Rightarrow> ('w, 'c, 'i, 't, 'x, 'b, 'si, 'm, 'v) sync_env \<Rightarrow> 'c uploader \<times> 'w \<Rightarrow> ('c uploader \<times> 'w) option" where
  "run_rounds 0 E s = Some s"
| "run_rounds (Suc n) E s =
     (case sync_key_blocks E s of
        None \<Rightarrow> None
      | Some (r, s) \<Rightarrow> run_rounds n E (noted r (se_now_sec E (snd s)) (fst s), snd s))"

text \<open>The loops evaluate by their equations.\<close>

declare walk_back.simps [code]
  and bridge_account.simps [code]

section \<open>The walk to the next key block\<close>

text \<open>
  A source whose answers for one seqno never differ is described by the function \<open>kb\<close>;
  \<open>newer_path\<close> is the way back over key blocks with a newer epoch.
\<close>

definition consistent ::
  "('w, 'c, 'i, 't, 'x) network_client \<Rightarrow> (u32 \<Rightarrow> 'c key_block_data) \<Rightarrow> bool" where
  "consistent src kb \<longleftrightarrow> (\<forall>n w d w1. nc_key_block src n w = (Inr d, w1) \<longrightarrow> d = kb n)"

definition cache_ok :: "(u32 \<Rightarrow> 'c key_block_data) \<Rightarrow> 'c uploader \<Rightarrow> bool" where
  "cache_ok kb u \<longleftrightarrow> (\<forall>n d. map_of (up_cache u) n = Some d \<longrightarrow> d = kb n)"

lemma cache_ok_other [simp]:
  "cache_ok kb (u\<lparr>up_last_balance_refresh := t\<rparr>) = cache_ok kb u"
  "cache_ok kb (u\<lparr>up_min_bridge_state_lt := m\<rparr>) = cache_ok kb u"
  "cache_ok kb (u\<lparr>up_last_checked_vset := v\<rparr>) = cache_ok kb u"
  "cache_ok kb (u\<lparr>up_metrics := x\<rparr>) = cache_ok kb u"
  "cache_ok kb (update_metrics f u) = cache_ok kb u"
  "cache_ok kb (seen d u) = cache_ok kb u"
  by (simp_all add: cache_ok_def seen_def)

lemma cache_ok_new: "cache_ok kb new_uploader"
  by (simp add: cache_ok_def new_uploader_def)

lemma map_of_split_off: "map_of (split_off n m) k = (if n \<le> k then map_of m k else None)"
  by (induction m) (auto simp: split_off_def)

lemma cache_ok_split_off: "cache_ok kb u \<Longrightarrow> cache_ok kb (u\<lparr>up_cache := split_off n (up_cache u)\<rparr>)"
  by (auto simp: cache_ok_def map_of_split_off split: if_splits)

abbreviation epoch :: "(u32 \<Rightarrow> 'c key_block_data) \<Rightarrow> u32 \<Rightarrow> u32" where
  "epoch kb n \<equiv> utime_since (kb_current_vset (kb n))"

inductive newer_path :: "(u32 \<Rightarrow> 'c key_block_data) \<Rightarrow> u32 \<Rightarrow> u32 \<Rightarrow> u32 \<Rightarrow> bool" for kb since where
  path_here: "newer_path kb since n n"
| path_back: "since < epoch kb n \<Longrightarrow> newer_path kb since (kb_prev_seqno (kb n)) m \<Longrightarrow>
    newer_path kb since n m"

text \<open>The last block on the way, given the block found before.\<close>

definition next_found :: "(u32 \<Rightarrow> 'c key_block_data) \<Rightarrow> u32 \<Rightarrow> u32 \<Rightarrow> 'c key_block_data option \<Rightarrow>
   'c key_block_data option \<Rightarrow> bool" where
  "next_found kb since n result r \<longleftrightarrow>
     (\<exists>m. newer_path kb since n m \<and>
        (epoch kb m < since \<and> r = None \<or>
         epoch kb m = since \<and>
           (m = n \<and> r = result \<or>
            (\<exists>k. newer_path kb since n k \<and> since < epoch kb k \<and> kb_prev_seqno (kb k) = m \<and> r = Some (kb k)))))"

lemma next_found_back:
  assumes "since < epoch kb n" and "next_found kb since (kb_prev_seqno (kb n)) (Some (kb n)) r"
  shows "next_found kb since n result r"
  using assms unfolding next_found_def by (blast intro: newer_path.intros)

lemma consistentD: "consistent src kb \<Longrightarrow> nc_key_block src n w = (Inr d, w1) \<Longrightarrow> d = kb n"
  unfolding consistent_def by blast

lemma fetch_consistent:
  assumes "fetch_key_block src n s = Some (Inr d, s1)" and "consistent src kb" and "cache_ok kb (fst s)"
  shows "d = kb n \<and> cache_ok kb (fst s1)"
  using assms
  by (auto simp: fetch_key_block_def cache_ok_def seen_def update_conv dest: consistentD
      split: option.splits prod.splits sum.splits if_splits)

lemma fetch_keeps_cache:
  assumes "fetch_key_block src n s = Some (r, s1)" and "consistent src kb" and "cache_ok kb (fst s)"
  shows "cache_ok kb (fst s1)"
  using assms
  by (auto simp: fetch_key_block_def cache_ok_def seen_def update_conv dest: consistentD
      split: option.splits prod.splits sum.splits if_splits)

lemma walk_back_ok:
  fixes src :: "('w, 'c, 'i, 't, 'x) network_client"
  assumes "walk_back src since n result s = Some (r, s1)"
  shows "consistent src kb \<longrightarrow> cache_ok kb (fst s) \<longrightarrow>
    cache_ok kb (fst s1) \<and> (\<forall>x. r = Inr x \<longrightarrow> next_found kb since n result x)"
proof -
  let ?P = "\<lambda>src since n result s z. consistent src kb \<longrightarrow> cache_ok kb (fst s) \<longrightarrow>
    cache_ok kb (fst (snd z)) \<and> (\<forall>x. fst z = Inr x \<longrightarrow> next_found kb since n result x)"
  have "?P src since n result s (r, s1)"
  proof (rule walk_back.raw_induct [OF _ assms, of ?P])
    fix f :: "('w, 'c, 'i, 't, 'x) network_client \<Rightarrow> u32 \<Rightarrow> u32 \<Rightarrow> 'c key_block_data option \<Rightarrow>
      'c uploader \<times> 'w \<Rightarrow> ((any_error + 'c key_block_data option) \<times> ('c uploader \<times> 'w)) option"
      and src :: "('w, 'c, 'i, 't, 'x) network_client" and since n result s z
    assume IH: "\<And>src since n result s z. f src since n result s = Some z \<Longrightarrow> ?P src since n result s z"
      and body: "(case fetch_key_block src n s of
        None \<Rightarrow> None
      | Some (Inl e, s) \<Rightarrow> Some (Inl e, s)
      | Some (Inr key_block, s) \<Rightarrow>
          if since < utime_since (kb_current_vset key_block)
          then f src since (kb_prev_seqno key_block) (Some key_block) s
          else if utime_since (kb_current_vset key_block) < since then Some (Inr None, s)
          else Some (Inr result, s)) = Some z"
    show "?P src since n result s z"
    proof (intro impI)
      assume C: "consistent src kb" and K: "cache_ok kb (fst s)"
      obtain fr s2 where fetch: "fetch_key_block src n s = Some (fr, s2)"
        using body by (auto split: option.splits)
      note K2 = fetch_keeps_cache [OF fetch C K]
      show "cache_ok kb (fst (snd z)) \<and> (\<forall>x. fst z = Inr x \<longrightarrow> next_found kb since n result x)"
      proof (cases fr)
        case (Inl e)
        with body fetch K2 show ?thesis by auto
      next
        case (Inr d)
        with fetch_consistent [OF _ C K] fetch have d: "d = kb n" by blast
        show ?thesis
        proof (cases "since < epoch kb n")
          case True
          with body fetch Inr d have "f src since (kb_prev_seqno (kb n)) (Some (kb n)) s2 = Some z"
            by simp
          from IH [OF this] C K2 next_found_back [where kb = kb and n = n and since = since, OF True] show ?thesis by blast
        next
          case False
          have "next_found kb since n result x" if "fst z = Inr x" for x
          proof (cases "epoch kb n < since")
            case True
            with body fetch Inr d False that have "x = None" by auto
            with True show ?thesis unfolding next_found_def by (blast intro: path_here)
          next
            case eq: False
            with body fetch Inr d False that have "x = result" by auto
            moreover from eq False have "epoch kb n = since" by simp
            ultimately show ?thesis unfolding next_found_def by (blast intro: path_here)
          qed
          moreover have "snd z = s2" using body fetch Inr d False by (auto split: if_splits)
          ultimately show ?thesis using K2 by simp
        qed
      qed
    qed
  qed
  then show ?thesis by simp
qed

lemma find_next_ok:
  assumes "find_next_key_block src since s = Some (Inr r, s1)" and "consistent src kb" and "cache_ok kb (fst s)"
  shows "\<exists>latest w w1. nc_latest_key_block_seqno src w = (Inr latest, w1) \<and> next_found kb since latest None r"
proof -
  from assms(1) obtain latest s2 where
    latest: "on_net (act_call (nc_latest_key_block_seqno src)) s = Some (Inr latest, s2)"
    and walk: "walk_back src since latest None s2 = Some (Inr r, s1)"
    unfolding find_next_key_block_def by (rule act_bind_InrE)
  from latest have call: "nc_latest_key_block_seqno src (snd s) = (Inr latest, snd s2)" and "fst s2 = fst s"
    by (auto simp: on_net_def split: prod.splits)
  with walk_back_ok [OF walk, of kb] assms(2,3) have "next_found kb since latest None r" by simp
  with call show ?thesis by blast
qed

text \<open>The walk ends when every key block names an earlier one as its predecessor.\<close>

lemma fetch_returns: "\<exists>r s1. fetch_key_block src n s = Some (r, s1)"
  by (auto simp: fetch_key_block_def split: option.splits prod.splits sum.splits)

lemma walk_back_returns:
  assumes C: "consistent src kb" and earlier: "\<forall>n. since < epoch kb n \<longrightarrow> kb_prev_seqno (kb n) < n"
    and "cache_ok kb (fst s)"
  shows "\<exists>r s1. walk_back src since n result s = Some (r, s1)"
  using assms(3)
proof (induction "unat n" arbitrary: n result s rule: less_induct)
  case less
  obtain r s1 where fetch: "fetch_key_block src n s = Some (r, s1)" using fetch_returns by blast
  show ?case
  proof (cases r)
    case (Inl e)
    with fetch show ?thesis by (subst walk_back.simps) simp
  next
    case (Inr d)
    with fetch_consistent [OF _ C less.prems] fetch have d: "d = kb n" and K: "cache_ok kb (fst s1)"
      by blast+
    show ?thesis
    proof (cases "since < epoch kb n")
      case True
      with earlier have "unat (kb_prev_seqno (kb n)) < unat n" by (simp add: word_less_nat_alt)
      from less.hyps [OF this K, of "Some (kb n)"] True fetch Inr d show ?thesis
        by (subst walk_back.simps) simp
    next
      case False
      with fetch Inr d show ?thesis by (subst walk_back.simps) simp
    qed
  qed
qed

section \<open>What a round keeps\<close>

definition keeps :: "('c uploader \<Rightarrow> bool) \<Rightarrow> ('w, 'c, 'a) sync \<Rightarrow> bool" where
  "keeps P m \<longleftrightarrow> (\<forall>s r s1. m s = Some (r, s1) \<longrightarrow> P (fst s) \<longrightarrow> P (fst s1))"

named_theorems keeps_intro

lemma keepsD: "keeps P m \<Longrightarrow> m s = Some (r, s1) \<Longrightarrow> P (fst s) \<Longrightarrow> P (fst s1)"
  unfolding keeps_def by blast

lemma keeps_bind [keeps_intro]:
  assumes "keeps P m" and "\<And>a. keeps P (f a)"
  shows "keeps P (act_bind m f)"
  unfolding keeps_def
proof (intro allI impI)
  fix s r s1 assume run: "act_bind m f s = Some (r, s1)" and "P (fst s)"
  from run obtain x s2 where m: "m s = Some (x, s2)" by (auto simp: act_bind_def split: option.splits)
  with assms(1) \<open>P (fst s)\<close> have "P (fst s2)" by (blast dest: keepsD)
  with run m keepsD [OF assms(2)] show "P (fst s1)" by (auto simp: act_bind_def split: sum.splits)
qed

lemma keeps_simple [keeps_intro]:
  "keeps P (on_net n)"
  "keeps P (act_result r)"
  "keeps P (act_ret a)"
  "keeps P (reads g)"
  by (auto simp: keeps_def on_net_def reads_def)

lemma keeps_uploader [keeps_intro]:
  "(\<And>u. P u \<Longrightarrow> P (f u)) \<Longrightarrow> keeps P (on_uploader f)"
  "(\<And>t u. P u \<Longrightarrow> P (g t u)) \<Longrightarrow> keeps P (on_uploader_at now g)"
  by (auto simp: keeps_def on_uploader_def on_uploader_at_def)

text \<open>Two updates in a row need only be kept together.\<close>

lemma keeps_two:
  assumes "\<And>t u. P u \<Longrightarrow> P (g t (f u))" and "\<And>a. keeps P (k a)"
  shows "keeps P (act_bind (on_uploader f) (\<lambda>_. act_bind (on_uploader_at now g) k))"
  using assms keepsD [OF assms(2)]
  by (auto simp: keeps_def on_uploader_def on_uploader_at_def act_bind_def)

text \<open>What the parts of a round do to the state beside looking for a key block and sending it.\<close>

definition untouched :: "('c uploader \<Rightarrow> bool) \<Rightarrow> bool" where
  "untouched P \<longleftrightarrow>
     (\<forall>u b t. P u \<longrightarrow> P (refreshed b t u)) \<and> (\<forall>u v. P u \<longrightarrow> P (checked v u)) \<and> (\<forall>u r t. P u \<longrightarrow> P (noted r t u))"

lemma untouchedD:
  assumes "untouched P" and "P u"
  shows "P (refreshed b t u)" and "P (checked v u)" and "P (noted r t u)"
  using assms unfolding untouched_def by blast+

lemma step_fields [simp]:
  "up_cache (refreshed b t u) = up_cache u" "up_min_bridge_state_lt (refreshed b t u) = up_min_bridge_state_lt u"
  "up_cache (checked v u) = up_cache u" "up_min_bridge_state_lt (checked v u) = up_min_bridge_state_lt u"
  "up_cache (noted r t u) = up_cache u" "up_min_bridge_state_lt (noted r t u) = up_min_bridge_state_lt u"
  "up_cache (sent_metrics d t u) = up_cache u" "up_min_bridge_state_lt (sent_metrics d t u) = up_min_bridge_state_lt u"
  by (cases r; simp add: refreshed_def checked_def noted_def sent_metrics_def)+

lemma keeps_if [keeps_intro]: "keeps P m \<Longrightarrow> keeps P n \<Longrightarrow> keeps P (if b then m else n)"
  by simp

lemma keeps_refresh:
  assumes "untouched P"
  shows "keeps P (refresh_wallet_balance E)"
  unfolding refresh_wallet_balance_def
  by (rule keeps_bind, rule keeps_simple)
    (auto simp: keeps_def on_uploader_at_def split: option.splits intro!: untouchedD(1) [OF assms])

lemma keeps_refresh_if_needed:
  assumes "untouched P"
  shows "keeps P (refresh_wallet_balance_if_needed E)"
  unfolding keeps_def refresh_wallet_balance_if_needed_def
  using keepsD [OF keeps_refresh [OF assms]] by (auto split: option.splits if_splits)

lemma keeps_epoch: "keeps P (get_current_epoch_since E)"
  unfolding get_current_epoch_since_def by (auto intro!: keeps_intro split: prod.split)

lemma keeps_store_lib:
  assumes "untouched P"
  shows "keeps P (store_lib E epoch_data)"
  unfolding store_lib_def Let_def
  by (intro keeps_bind keeps_simple keeps_if keeps_refresh assms)

lemma keeps_send:
  assumes "untouched P" and "\<And>d u lt t. P u \<Longrightarrow> P (sent_metrics d t (u\<lparr>up_min_bridge_state_lt := lt\<rparr>))"
  shows "keeps P (send_key_block E key_block)"
  unfolding send_key_block_def Let_def
  by (intro keeps_two keeps_bind keeps_simple keeps_store_lib keeps_refresh assms)

lemma keeps_find:
  assumes "consistent src kb"
  shows "keeps (cache_ok kb) (find_next_key_block src since)"
  unfolding find_next_key_block_def
  by (intro keeps_bind keeps_simple) (use walk_back_ok assms in \<open>fastforce simp: keeps_def\<close>)

lemma fetch_keeps_min:
  "fetch_key_block src n s = Some (r, s1) \<Longrightarrow>
   up_min_bridge_state_lt (fst s1) = up_min_bridge_state_lt (fst s)"
  by (auto simp: fetch_key_block_def seen_def split: option.splits prod.splits sum.splits)

lemma walk_keeps:
  fixes src :: "('w, 'c, 'i, 't, 'x) network_client"
  assumes "walk_back src since n result s = Some (r, s1)"
    and "\<And>n. keeps P (fetch_key_block src n)" and "P (fst s)"
  shows "P (fst s1)"
proof -
  let ?P = "\<lambda>src since n result s z. (\<forall>n. keeps P (fetch_key_block src n)) \<longrightarrow> P (fst s) \<longrightarrow> P (fst (snd z))"
  have "?P src since n result s (r, s1)"
  proof (rule walk_back.raw_induct [OF _ assms(1), of ?P])
    fix f :: "('w, 'c, 'i, 't, 'x) network_client \<Rightarrow> u32 \<Rightarrow> u32 \<Rightarrow> 'c key_block_data option \<Rightarrow>
      'c uploader \<times> 'w \<Rightarrow> ((any_error + 'c key_block_data option) \<times> ('c uploader \<times> 'w)) option"
      and src :: "('w, 'c, 'i, 't, 'x) network_client" and since n result s z
    assume IH: "\<And>src since n result s z. f src since n result s = Some z \<Longrightarrow> ?P src since n result s z"
      and body: "(case fetch_key_block src n s of
        None \<Rightarrow> None
      | Some (Inl e, s) \<Rightarrow> Some (Inl e, s)
      | Some (Inr key_block, s) \<Rightarrow>
          if since < utime_since (kb_current_vset key_block)
          then f src since (kb_prev_seqno key_block) (Some key_block) s
          else if utime_since (kb_current_vset key_block) < since then Some (Inr None, s)
          else Some (Inr result, s)) = Some z"
    show "?P src since n result s z"
    proof (intro impI)
      assume K: "\<forall>n. keeps P (fetch_key_block src n)" and "P (fst s)"
      obtain x s2 where fetch: "fetch_key_block src n s = Some (x, s2)"
        using body by (auto split: option.splits)
      with K \<open>P (fst s)\<close> have "P (fst s2)" by (blast dest: keepsD)
      with body fetch K IH show "P (fst (snd z))" by (auto split: sum.splits if_splits)
    qed
  qed
  with assms(2,3) show ?thesis by simp
qed

lemma keeps_find_any:
  assumes "\<And>n. keeps P (fetch_key_block src n)"
  shows "keeps P (find_next_key_block src since)"
  unfolding find_next_key_block_def
  by (intro keeps_bind keeps_simple) (use walk_keeps [OF _ assms] in \<open>fastforce simp: keeps_def\<close>)

lemma find_keeps_min:
  assumes "find_next_key_block src since s = Some (r, s1)"
  shows "up_min_bridge_state_lt (fst s1) = up_min_bridge_state_lt (fst s)"
proof -
  have "keeps (\<lambda>u. up_min_bridge_state_lt u = up_min_bridge_state_lt (fst s)) (fetch_key_block src n)" for n
    by (auto simp: keeps_def dest: fetch_keeps_min)
  from keepsD [OF keeps_find_any [OF this] assms] show ?thesis by simp
qed

text \<open>A round apart from looking for a key block: it also sets the logical time, and shortens the cache.\<close>

lemma keeps_sync_any:
  assumes "untouched P" and "\<And>since. keeps P (find_next_key_block (se_src E) since)"
    and "\<And>d u lt t. P u \<Longrightarrow> P (sent_metrics d t (u\<lparr>up_min_bridge_state_lt := lt\<rparr>))"
    and "\<And>u n. P u \<Longrightarrow> P (new_cache n u)"
  shows "keeps P (sync_key_blocks E)"
proof -
  have "keeps P (case found of None \<Rightarrow> act_ret ()
      | Some key_block \<Rightarrow> act_bind (send_key_block E key_block)
          (\<lambda>_. on_uploader (new_cache (kb_prev_seqno key_block))))" for found
    by (cases found) (auto intro!: keeps_bind keeps_simple keeps_uploader keeps_send assms)
  then show ?thesis
    unfolding sync_key_blocks_def
    by (intro keeps_bind keeps_refresh_if_needed keeps_epoch keeps_uploader assms(1,2)
        untouchedD(2) [OF assms(1)])
qed

text \<open>Whatever a round comes to, the cache holds nothing but what the source says.\<close>

lemma keeps_sync:
  assumes "consistent (se_src E) kb"
  shows "keeps (cache_ok kb) (sync_key_blocks E)"
  by (rule keeps_sync_any)
    (simp_all add: untouched_def keeps_find [OF assms] cache_ok_def new_cache_def Let_def map_of_split_off)

lemma run_rounds_keep:
  assumes "keeps P (sync_key_blocks E)" and "untouched P" and "run_rounds n E s = Some s1" and "P (fst s)"
  shows "P (fst s1)"
  using assms(3,4)
proof (induction n arbitrary: s)
  case (Suc n)
  from Suc.prems(1) obtain r s2 where run: "sync_key_blocks E s = Some (r, s2)"
    and rest: "run_rounds n E (noted r (se_now_sec E (snd s2)) (fst s2), snd s2) = Some s1"
    by (auto split: option.splits)
  from Suc.IH [OF rest] untouchedD(3) [OF assms(2) keepsD [OF assms(1) run Suc.prems(2)]] show ?case by simp
qed simp

section \<open>A round that succeeds\<close>

lemma bridge_account_ok:
  assumes "bridge_account dst addr min_lt w = Some ((account, i), w1)"
  shows "\<exists>timings last_id w0. nc_account_state dst addr None w0 = (Inr (Exists account i timings last_id), w1) \<and>
    min_lt \<le> gt_lt timings \<and> ac_state account = Active"
proof -
  let ?P = "\<lambda>dst addr min_lt w z. \<exists>timings last_id w0.
    nc_account_state dst addr None w0 = (Inr (Exists (fst (fst z)) (snd (fst z)) timings last_id), snd z) \<and>
    min_lt \<le> gt_lt timings \<and> ac_state (fst (fst z)) = Active"
  have "?P dst addr min_lt w ((account, i), w1)"
    by (rule bridge_account.raw_induct [OF _ assms, of ?P])
      (auto split: option.splits prod.splits account_state_response.splits if_splits
        dest!: retries_reports, blast)
  then show ?thesis by simp
qed

text \<open>
  \<open>bridge_epoch E min_lt since\<close>: the epoch was read from an active state of the bridge that
  is not older than \<open>min_lt\<close>.
\<close>

definition bridge_epoch :: "('w, 'c, 'i, 't, 'x, 'b, 'si, 'm, 'v) sync_env \<Rightarrow> u64 \<Rightarrow> u32 \<Rightarrow> bool" where
  "bridge_epoch E min_lt since \<longleftrightarrow>
     (\<exists>account i timings last_id w0 w1.
        nc_account_state (se_dst E) (se_bridge_address E) None w0 = (Inr (Exists account i timings last_id), w1) \<and>
        min_lt \<le> gt_lt timings \<and> ac_state account = Active \<and>
        bindR (se_getter E account i) (epoch_of_output (se_stack_u32 E)) = Inr since)"

text \<open>
  \<open>key_block_message E d message\<close>: the message holds the proof of the block \<open>d\<close> and its signatures
  by the previous validator set, and goes to the bridge.
\<close>

definition key_block_message ::
  "('w, 'c, 'i, 't, 'x, 'b, 'si, 'm, 'v) sync_env \<Rightarrow> 'c key_block_data \<Rightarrow> 'm \<Rightarrow> bool" where
  "key_block_message E d message \<longleftrightarrow>
     (let W = se_wallet_lib E; B = wl_builder W in
      \<exists>root p prev_vset sigs body.
        nc_key_block_proof (se_src E) d = Inr root \<and>
        build_merkle_proof B (cell_hash0 B root) (cell_depth0 B root) root = Inr p \<and>
        kb_prev_vset d = Some prev_vset \<and>
        prepare_signatures B (se_key_hash E) (map Inr (kb_signatures d)) prev_vset = Inr sigs \<and>
        key_block_body B p (file_hash (kb_block_id d)) sigs 0 = Inr body \<and>
        wl_internal_message W (se_bridge_address E) True (se_store_vset_value E) None body = Inr message)"

text \<open>
  \<open>applied_tx E d raw_tx tx\<close>: a successful transaction of the bridge, caused by what the wallet
  sent for the key block \<open>d\<close>.
\<close>

definition applied_tx ::
  "('w, 'c, 'i, 't, 'x, 'b, 'si, 'm, 'v) sync_env \<Rightarrow> 'c key_block_data \<Rightarrow> 't \<Rightarrow> transaction \<Rightarrow> bool" where
  "applied_tx E d raw_tx tx \<longleftrightarrow>
     tx_load (se_tx E) raw_tx = Inr tx \<and> t_outcome tx = Executed True \<and>
     (\<exists>message wallet_tx wtx out_msg rest.
        key_block_message E d message \<and>
        wallet_sent (se_tx E) (se_wallet_lib E) (se_wallet E) message wallet_tx \<and>
        tx_load (se_tx E) wallet_tx = Inr wtx \<and> t_out_msgs wtx = out_msg # rest \<and>
        answers (se_tx E) out_msg raw_tx)"

lemma get_epoch_ok:
  assumes "get_current_epoch_since E s = Some (Inr since, s1)"
  shows "bridge_epoch E (up_min_bridge_state_lt (fst s)) since"
proof -
  from assms obtain account i w w1 where
    acc: "bridge_account (se_dst E) (se_bridge_address E) (up_min_bridge_state_lt (fst s)) w = Some ((account, i), w1)"
    and out: "bindR (se_getter E account i) (epoch_of_output (se_stack_u32 E)) = Inr since"
    unfolding get_current_epoch_since_def by (auto simp: on_net_def reads_def elim!: act_bind_InrE)
  from bridge_account_ok [OF acc] obtain timings last_id w0 where
    "nc_account_state (se_dst E) (se_bridge_address E) None w0 = (Inr (Exists account i timings last_id), w1)"
    "up_min_bridge_state_lt (fst s) \<le> gt_lt timings" "ac_state account = Active" by blast
  with out show ?thesis unfolding bridge_epoch_def by metis
qed

lemma check_outcome_ok: "check_outcome x = Inr u \<longleftrightarrow> x = Executed True"
  by (cases x) auto

lemma send_key_block_ok:
  assumes "send_key_block E d s = Some (Inr (), s1)"
  shows "\<exists>raw_tx tx. applied_tx E d raw_tx tx \<and> up_min_bridge_state_lt (fst s1) = t_lt tx"
proof -
  let ?B = "wl_builder (se_wallet_lib E)"
  from assms obtain root prev_vset sigs p raw_tx tx w w1 s2 where
    root: "nc_key_block_proof (se_src E) d = Inr root"
    and p: "build_merkle_proof ?B (cell_hash0 ?B root) (cell_depth0 ?B root) root = Inr p"
    and prev: "kb_prev_vset d = Some prev_vset"
    and sigs: "prepare_signatures ?B (se_key_hash E) (map Inr (kb_signatures d)) prev_vset = Inr sigs"
    and sent: "wallet_send_key_block (se_dst E) (se_tx E) (se_wallet_lib E) (se_wallet E) p
        (file_hash (kb_block_id d)) sigs (se_bridge_address E) (se_store_vset_value E) 0 w = Some (Inr raw_tx, w1)"
    and load: "tx_load (se_tx E) raw_tx = Inr tx" and outcome: "check_outcome (t_outcome tx) = Inr ()"
    and min_lt: "up_min_bridge_state_lt (fst s1) = t_lt tx"
    unfolding send_key_block_def Let_def
    by (auto simp: on_net_def on_uploader_def on_uploader_at_def elim!: act_bind_InrE)
  from wallet_send_key_block_ok [OF sent] obtain body message wallet_tx wtx out_msg rest where
    body: "key_block_body ?B p (file_hash (kb_block_id d)) sigs 0 = Inr body"
      "wl_internal_message (se_wallet_lib E) (se_bridge_address E) True (se_store_vset_value E) None body = Inr message"
    and txs: "wallet_sent (se_tx E) (se_wallet_lib E) (se_wallet E) message wallet_tx"
      "tx_load (se_tx E) wallet_tx = Inr wtx" "t_out_msgs wtx = out_msg # rest" "answers (se_tx E) out_msg raw_tx"
    by blast
  from root p prev sigs body have "key_block_message E d message"
    unfolding key_block_message_def Let_def by blast
  with txs load outcome have "applied_tx E d raw_tx tx"
    unfolding applied_tx_def check_outcome_ok by blast
  with min_lt show ?thesis by blast
qed

text \<open>The steps of a round that succeeds: what it looked for, found and sent.\<close>

lemma sync_steps:
  assumes run: "sync_key_blocks E s = Some (Inr (), s1)"
  obtains since s3 r s4 where
    "bridge_epoch E (up_min_bridge_state_lt (fst s)) since"
    "find_next_key_block (se_src E) since s3 = Some (Inr r, s4)"
    "up_cache (fst s3) = up_cache (fst s)"
    "case r of
       None \<Rightarrow> up_min_bridge_state_lt (fst s1) = up_min_bridge_state_lt (fst s)
     | Some d \<Rightarrow> \<exists>raw_tx tx. applied_tx E d raw_tx tx \<and> up_min_bridge_state_lt (fst s1) = t_lt tx"
proof -
  let ?min = "up_min_bridge_state_lt"
  from run obtain s2 since s3 r s4 where
    refresh: "refresh_wallet_balance_if_needed E s = Some (Inr (), s2)" and
    epoch: "get_current_epoch_since E s2 = Some (Inr since, s3)" and
    find: "find_next_key_block (se_src E) since (checked since (fst s3), snd s3) = Some (Inr r, s4)" and
    rest: "(case r of None \<Rightarrow> act_ret ()
      | Some d \<Rightarrow> act_bind (send_key_block E d) (\<lambda>_. on_uploader (new_cache (kb_prev_seqno d)))) s4 = Some (Inr (), s1)"
    unfolding sync_key_blocks_def by (auto simp: on_uploader_def elim!: act_bind_InrE)
  have stays: "P (fst s2)" "P (fst s3)" if "untouched P" "P (fst s)" for P
    using keepsD [OF keeps_refresh_if_needed refresh, of P] keepsD [OF keeps_epoch epoch, of P] that by blast+
  have keep_min: "?min (fst s2) = ?min (fst s)" "?min (fst s3) = ?min (fst s)"
    using stays [of "\<lambda>u. ?min u = ?min (fst s)"] by (simp_all add: untouched_def)
  have E: "bridge_epoch E (?min (fst s)) since" using get_epoch_ok [OF epoch] keep_min(1) by simp
  have min4: "?min (fst s4) = ?min (fst s3)" using find_keeps_min [OF find] by simp
  have out: "case r of None \<Rightarrow> ?min (fst s1) = ?min (fst s)
     | Some d \<Rightarrow> \<exists>raw_tx tx. applied_tx E d raw_tx tx \<and> ?min (fst s1) = t_lt tx"
  proof (cases r)
    case None
    with rest keep_min min4 show ?thesis by simp
  next
    case (Some d)
    with rest obtain s5 where "send_key_block E d s4 = Some (Inr (), s5)" "?min (fst s1) = ?min (fst s5)"
      by (auto simp: on_uploader_def new_cache_def Let_def elim!: act_bind_InrE)
    with send_key_block_ok [of E d s4 s5] Some show ?thesis by auto
  qed
  have "up_cache (fst (checked since (fst s3), snd s3)) = up_cache (fst s)"
    using stays(2) [of "\<lambda>u. up_cache u = up_cache (fst s)"] by (simp add: untouched_def)
  from that [OF E find this out] show thesis .
qed

lemma sync_ok:
  assumes run: "sync_key_blocks E s = Some (Inr (), s1)" and C: "consistent (se_src E) kb"
    and K: "cache_ok kb (fst s)"
  shows "\<exists>since latest w w1 r.
    bridge_epoch E (up_min_bridge_state_lt (fst s)) since \<and>
    nc_latest_key_block_seqno (se_src E) w = (Inr latest, w1) \<and> next_found kb since latest None r \<and>
    (case r of
       None \<Rightarrow> up_min_bridge_state_lt (fst s1) = up_min_bridge_state_lt (fst s)
     | Some d \<Rightarrow> \<exists>raw_tx tx. applied_tx E d raw_tx tx \<and> up_min_bridge_state_lt (fst s1) = t_lt tx)"
proof -
  from run obtain since s3 r s4 where
    E: "bridge_epoch E (up_min_bridge_state_lt (fst s)) since" and
    find: "find_next_key_block (se_src E) since s3 = Some (Inr r, s4)" and
    stays: "up_cache (fst s3) = up_cache (fst s)" and
    out: "case r of
       None \<Rightarrow> up_min_bridge_state_lt (fst s1) = up_min_bridge_state_lt (fst s)
     | Some d \<Rightarrow> \<exists>raw_tx tx. applied_tx E d raw_tx tx \<and> up_min_bridge_state_lt (fst s1) = t_lt tx"
    by (rule sync_steps)
  have "cache_ok kb (fst s3)" using stays K by (simp add: cache_ok_def)
  from find_next_ok [OF find C this] E out show ?thesis by blast
qed

section \<open>Where a key block that was sent comes from\<close>

text \<open>Without any assumption on the source: it was an answer of the source, now or earlier.\<close>

definition answered :: "('w, 'c, 'i, 't, 'x) network_client \<Rightarrow> 'c key_block_data \<Rightarrow> bool" where
  "answered src d \<longleftrightarrow> (\<exists>n w w1. nc_key_block src n w = (Inr d, w1))"

definition cache_from :: "('w, 'c, 'i, 't, 'x) network_client \<Rightarrow> 'c uploader \<Rightarrow> bool" where
  "cache_from src u \<longleftrightarrow> (\<forall>n d. map_of (up_cache u) n = Some d \<longrightarrow> answered src d)"

lemma answeredI: "nc_key_block src n w = (Inr d, w1) \<Longrightarrow> answered src d"
  unfolding answered_def by blast

lemma fetch_answered:
  assumes "fetch_key_block src n s = Some (r, s1)" and "cache_from src (fst s)"
  shows "cache_from src (fst s1) \<and> (\<forall>d. r = Inr d \<longrightarrow> answered src d)"
  using assms by (auto simp: fetch_key_block_def cache_from_def seen_def update_conv
      split: option.splits prod.splits sum.splits if_splits intro: answeredI)

text \<open>What the walk carries along is an answer, and newer than the epoch of the bridge.\<close>

definition newer_answer ::
  "('w, 'c, 'i, 't, 'x) network_client \<Rightarrow> u32 \<Rightarrow> 'c key_block_data option \<Rightarrow> bool" where
  "newer_answer src since x \<longleftrightarrow>
     (case x of None \<Rightarrow> True | Some d \<Rightarrow> answered src d \<and> since < utime_since (kb_current_vset d))"

lemma walk_answered:
  fixes src :: "('w, 'c, 'i, 't, 'x) network_client"
  assumes "walk_back src since n result s = Some (r, s1)"
  shows "cache_from src (fst s) \<longrightarrow> newer_answer src since result \<longrightarrow>
    cache_from src (fst s1) \<and> (\<forall>x. r = Inr x \<longrightarrow> newer_answer src since x)"
proof -
  let ?P = "\<lambda>src since n result s z. cache_from src (fst s) \<longrightarrow> newer_answer src since result \<longrightarrow>
    cache_from src (fst (snd z)) \<and> (\<forall>x. fst z = Inr x \<longrightarrow> newer_answer src since x)"
  have "?P src since n result s (r, s1)"
  proof (rule walk_back.raw_induct [OF _ assms, of ?P])
    fix f :: "('w, 'c, 'i, 't, 'x) network_client \<Rightarrow> u32 \<Rightarrow> u32 \<Rightarrow> 'c key_block_data option \<Rightarrow>
      'c uploader \<times> 'w \<Rightarrow> ((any_error + 'c key_block_data option) \<times> ('c uploader \<times> 'w)) option"
      and src :: "('w, 'c, 'i, 't, 'x) network_client" and since n result s z
    assume IH: "\<And>src since n result s z. f src since n result s = Some z \<Longrightarrow> ?P src since n result s z"
      and body: "(case fetch_key_block src n s of
        None \<Rightarrow> None
      | Some (Inl e, s) \<Rightarrow> Some (Inl e, s)
      | Some (Inr key_block, s) \<Rightarrow>
          if since < utime_since (kb_current_vset key_block)
          then f src since (kb_prev_seqno key_block) (Some key_block) s
          else if utime_since (kb_current_vset key_block) < since then Some (Inr None, s)
          else Some (Inr result, s)) = Some z"
    show "?P src since n result s z"
    proof (intro impI)
      assume K: "cache_from src (fst s)" and R: "newer_answer src since result"
      obtain x s2 where fetch: "fetch_key_block src n s = Some (x, s2)"
        using body by (auto split: option.splits)
      note K2 = fetch_answered [OF fetch K]
      show "cache_from src (fst (snd z)) \<and> (\<forall>x. fst z = Inr x \<longrightarrow> newer_answer src since x)"
      proof (cases x)
        case (Inl e)
        with body fetch K2 show ?thesis by auto
      next
        case (Inr d)
        show ?thesis
        proof (cases "since < utime_since (kb_current_vset d)")
          case True
          with body fetch Inr have "f src since (kb_prev_seqno d) (Some d) s2 = Some z" by simp
          from IH [OF this] K2 Inr True show ?thesis by (simp add: newer_answer_def)
        next
          case False
          with body fetch Inr K2 R show ?thesis by (auto simp: newer_answer_def split: if_splits)
        qed
      qed
    qed
  qed
  then show ?thesis by simp
qed

lemma find_answered:
  assumes "find_next_key_block src since s = Some (r, s1)" and "cache_from src (fst s)"
  shows "cache_from src (fst s1) \<and> (\<forall>x. r = Inr x \<longrightarrow> newer_answer src since x)"
proof -
  obtain x w where m: "nc_latest_key_block_seqno src (snd s) = (x, w)" by (cases "nc_latest_key_block_seqno src (snd s)")
  show ?thesis
  proof (cases x)
    case (Inl e)
    with assms m show ?thesis by (auto simp: find_next_key_block_def act_bind_def on_net_def)
  next
    case (Inr latest)
    with assms(1) m have "walk_back src since latest None (fst s, w) = Some (r, s1)"
      by (simp add: find_next_key_block_def act_bind_def on_net_def)
    from walk_answered [OF this] assms(2) show ?thesis by (simp add: newer_answer_def)
  qed
qed

lemma keeps_cache_from: "keeps (cache_from (se_src E)) (sync_key_blocks E)"
  by (rule keeps_sync_any)
    (auto simp: untouched_def keeps_def cache_from_def new_cache_def Let_def map_of_split_off
      split: if_splits dest: find_answered)

lemma sync_answered:
  assumes run: "sync_key_blocks E s = Some (Inr (), s1)" and K: "cache_from (se_src E) (fst s)"
  shows "up_min_bridge_state_lt (fst s1) = up_min_bridge_state_lt (fst s) \<or>
    (\<exists>since d raw_tx tx. bridge_epoch E (up_min_bridge_state_lt (fst s)) since \<and>
      answered (se_src E) d \<and> since < utime_since (kb_current_vset d) \<and>
      applied_tx E d raw_tx tx \<and> up_min_bridge_state_lt (fst s1) = t_lt tx)"
proof -
  from run obtain since s3 r s4 where
    E: "bridge_epoch E (up_min_bridge_state_lt (fst s)) since" and
    find: "find_next_key_block (se_src E) since s3 = Some (Inr r, s4)" and
    stays: "up_cache (fst s3) = up_cache (fst s)" and
    out: "case r of
       None \<Rightarrow> up_min_bridge_state_lt (fst s1) = up_min_bridge_state_lt (fst s)
     | Some d \<Rightarrow> \<exists>raw_tx tx. applied_tx E d raw_tx tx \<and> up_min_bridge_state_lt (fst s1) = t_lt tx"
    by (rule sync_steps)
  have "cache_from (se_src E) (fst s3)"
    using stays K by (simp add: cache_from_def)
  from find_answered [OF find this] E out show ?thesis by (cases r) (auto simp: newer_answer_def)
qed

section \<open>The metrics\<close>

text \<open>The metrics that repeat a part of the state are equal to it, and the cache has one entry for a key.\<close>

definition metrics_exact :: "'c uploader \<Rightarrow> bool" where
  "metrics_exact u \<longleftrightarrow>
     um_cached_key_blocks (up_metrics u) = length (up_cache u) \<and> distinct (map fst (up_cache u)) \<and>
     um_min_bridge_state_lt (up_metrics u) = up_min_bridge_state_lt u \<and>
     um_last_checked_vset (up_metrics u) = up_last_checked_vset u"

lemma metrics_exact_steps:
  assumes "metrics_exact u"
  shows "metrics_exact (refreshed b t u)" and "metrics_exact (checked v u)" and "metrics_exact (noted r t u)"
    and "metrics_exact (sent_metrics d t (u\<lparr>up_min_bridge_state_lt := lt\<rparr>))" and "metrics_exact (new_cache n u)"
    and "metrics_exact (seen d u)"
    and "metrics_exact (seen d (u\<lparr>up_cache := AList.update k e (up_cache u)\<rparr>))"
  using assms by (auto simp: metrics_exact_def refreshed_def checked_def noted_def sent_metrics_def new_cache_def
      Let_def split_off_def seen_def distinct_update distinct_map_filter split: sum.splits)

lemma fetch_keeps_metrics: "keeps metrics_exact (fetch_key_block src n)"
  unfolding keeps_def fetch_key_block_def
  by (auto split: option.splits prod.splits sum.splits intro: metrics_exact_steps)

lemma keeps_metrics: "keeps metrics_exact (sync_key_blocks E)"
  by (intro keeps_sync_any keeps_find_any fetch_keeps_metrics metrics_exact_steps)
    (auto simp: untouched_def metrics_exact_steps)

text \<open>The status is that of a service that runs as soon as one round has ended.\<close>

lemma status_steps [simp]:
  "um_status (up_metrics (refreshed b t u)) = um_status (up_metrics u)"
  "um_status (up_metrics (checked v u)) = um_status (up_metrics u)"
  "um_status (up_metrics (sent_metrics d t u)) = um_status (up_metrics u)"
  "um_status (up_metrics (new_cache n u)) = um_status (up_metrics u)"
  "um_status (up_metrics (seen d u)) = um_status (up_metrics u)"
  "um_status (up_metrics (noted r t u)) = (case r of Inl e \<Rightarrow> Retrying | Inr x \<Rightarrow> Running)"
  by (cases r; simp add: refreshed_def checked_def sent_metrics_def new_cache_def Let_def seen_def noted_def)+

text \<open>A last round that was run, and what it came to.\<close>

lemma run_rounds_last:
  assumes "run_rounds (Suc n) E s = Some s1"
  shows "\<exists>s2 r s3. run_rounds n E s = Some s2 \<and> sync_key_blocks E s2 = Some (r, s3) \<and>
    s1 = (noted r (se_now_sec E (snd s3)) (fst s3), snd s3)"
  using assms
proof (induction n arbitrary: s)
  case 0
  then show ?case by (auto split: option.splits prod.splits)
next
  case (Suc n)
  from Suc.prems obtain r s2 where run: "sync_key_blocks E s = Some (r, s2)"
    and rest: "run_rounds (Suc n) E (noted r (se_now_sec E (snd s2)) (fst s2), snd s2) = Some s1"
    by (subst (asm) run_rounds.simps(2)) (auto split: option.splits prod.splits)
  from Suc.IH [OF rest] run show ?case by simp
qed

end
