(* ===== verification/Demo_Sync.thy ===== *)
theory Demo_Sync
  imports Uploader Demo_Cells
begin

text \<open>
  A concrete pair of networks for the sync service. The state is the number of messages sent:
  every message causes one transaction of every account, and the accounts report it at once.
  The source network has three key blocks. It models no code of the repository.
\<close>

definition demo_last :: "u64 \<Rightarrow> last_transaction_id" where
  "demo_last w = \<lparr>lt_lt = 10 * w + 10, lt_hash = ucast w\<rparr>"

definition demo_tx :: "hash_bytes tx_lib" where
  "demo_tx =
     \<lparr>tx_hash = (\<lambda>t. t),
      tx_load = (\<lambda>t. Inr \<lparr>t_lt = 10 * ucast t + 10, t_prev_lt = 10 * ucast t, t_prev_hash = t - 1,
        t_in_msg_hash = (if t = 0 then None else Some 1), t_out_msgs = [1], t_outcome = Executed True\<rparr>)\<rparr>"

definition demo_epoch_set :: "u32 \<Rightarrow> validator_set" where
  "demo_epoch_set since = \<lparr>utime_since = since, utime_until = since + 20, main_count = 1, total_weight = 3,
     validators = [\<lparr>public_key = 1, weight = 3\<rparr>]\<rparr>"

text \<open>Key blocks 1, 3 and 5, with epochs that start at 10, 30 and 50.\<close>

definition demo_key_block :: "u32 \<Rightarrow> dcell key_block_data" where
  "demo_key_block n =
     \<lparr>kb_block_id = \<lparr>shard = MASTERCHAIN, seqno = n, root_hash = 8, file_hash = 9\<rparr>,
      kb_root = DC [uint n] [], kb_prev_seqno = (if n < 2 then 0 else n - 2),
      kb_current_vset = demo_epoch_set (10 * n),
      kb_prev_vset = Some (demo_epoch_set (10 * (n - 2))),
      kb_signatures = [\<lparr>node_id_short = 1, signature = 5\<rparr>]\<rparr>"

definition demo_net :: "(u64, dcell, unit, hash_bytes, unit) network_client" where
  "demo_net =
     \<lparr>nc_signature_context = (\<lambda>w. (Inr (), w)),
      nc_latest_key_block_seqno = (\<lambda>w. (Inr 5, w)),
      nc_key_block = (\<lambda>n w. (Inr (demo_key_block n), w)),
      nc_library_cell = (\<lambda>h w. (Inr None, w)),
      nc_account_state = (\<lambda>addr known w. (Inr
        (if address addr = 77 \<and> w = 0 then NotExists \<lparr>gt_lt = 10, gt_utime = 100\<rparr>
         else Exists \<lparr>ac_state = Active, ac_balance = 1000\<rparr> () \<lparr>gt_lt = 10 * w + 10, gt_utime = 100\<rparr>
           (demo_last w)), w)),
      nc_transactions = (\<lambda>addr lt h n w. (Inr [h], w)),
      nc_send_message = (\<lambda>m w. (Inr (), w + 1)),
      nc_key_block_proof = (\<lambda>d. Inr (kb_root d))\<rparr>"

text \<open>A builder that only collects what is stored.\<close>

definition sync_builder :: "(dcell, int list \<times> dcell list) builder_lib" where
  "sync_builder =
     (let tok = (\<lambda>t (ts, rs). Inr (ts @ [t], rs)) in
      \<lparr>b_new = ([], []),
      store_u16 = (\<lambda>w. tok (uint w)), store_u32 = (\<lambda>w. tok (uint w)), store_u64 = (\<lambda>w. tok (uint w)),
      store_u256 = (\<lambda>w. tok (uint w)), store_tokens = (\<lambda>w. tok (uint w)),
      store_reference = (\<lambda>c (ts, rs). Inr (ts, rs @ [c])), build = (\<lambda>(ts, rs). Inr (DC ts rs)),
      build_merkle_proof = (\<lambda>h d c. Inr (DC [uint h] [c])),
      cell_hash0 = (\<lambda>c. of_int (sum_list (toks c))), cell_depth0 = (\<lambda>c. 0),
      dict_of_sigs = (\<lambda>xs. Inr (Some (DC (map (\<lambda>(k, s). uint s) xs) []))),
      dict_of_weights = (\<lambda>xs. Inr (Some (DC (map (\<lambda>(k, h, w). uint w) xs) [])))\<rparr>)"

definition demo_wallet_lib :: "(u64, dcell, int list \<times> dcell list, unit, unit, unit) wallet_lib" where
  "demo_wallet_lib =
     \<lparr>wl_builder = sync_builder, wl_repr_hash = (\<lambda>c. 1), wl_lib_store_init = (\<lambda>a n. ()),
      wl_wallet_init = (), wl_compute_address = (\<lambda>wc si. \<lparr>addr_workchain = wc, address = 77\<rparr>),
      wl_internal_message = (\<lambda>a b v si body. Inr ()), wl_message_value = (\<lambda>m. Inr 5),
      wl_external_message = (\<lambda>x a f m now e si. Inr (DC [1] [])), wl_tokens_add = (+),
      wl_now_millis = (\<lambda>w. 1000 * w)\<rparr>"

definition demo_addr :: "hash_bytes \<Rightarrow> std_addr" where
  "demo_addr h = \<lparr>addr_workchain = 0, address = h\<rparr>"

definition demo_sync :: "u32 \<Rightarrow> (u64, dcell, unit, hash_bytes, unit, int list \<times> dcell list, unit, unit, u32) sync_env" where
  "demo_sync since =
     \<lparr>se_src = demo_net, se_dst = demo_net, se_tx = demo_tx, se_wallet_lib = demo_wallet_lib,
      se_wallet = \<lparr>wa_address = demo_addr 5, wa_min_required_balance = 10\<rparr>, se_key_hash = (\<lambda>k. k),
      se_bridge_address = demo_addr 6, se_lib_store_value = 20, se_store_vset_value = 30,
      se_refresh_interval = 60000, se_getter = (\<lambda>a i. Inr \<lparr>go_success = True, go_stack = [since]\<rparr>),
      se_stack_u32 = Inr, se_now_sec = (\<lambda>w. 100 + w), se_random_id = (\<lambda>w. 4)\<rparr>"

lemma demo_consistent: "consistent demo_net demo_key_block"
  by (simp add: consistent_def demo_net_def)

text \<open>The round that sends key block 3 to a bridge whose epoch starts at 10.\<close>

definition demo_round :: "((any_error + unit) \<times> (dcell uploader \<times> u64)) option" where
  "demo_round = sync_key_blocks (demo_sync 10) (new_uploader, 0)"

end
