(* ===== verification/Chain_Clients.thy ===== *)
theory Chain_Clients
  imports Lite_Client Network_Client Block_Proofs Tycho_Models Ton_Models Legacy_Models
begin

text \<open>
  The three clients of \<open>sync-service/src/client\<close> (\<open>tycho.rs\<close>, \<open>ton.rs\<close>, \<open>legacy.rs\<close>): how each
  fetches a key block and the state of an account, and builds the proof to send. The servers'
  answers over JSON-RPC and GraphQL are arguments; the TON client calls the lite client, whose
  queries may not return. The locale \<open>key_block_source\<close> is the contract of \<open>get_key_block\<close>:
  what the record says of a key block is what its root says.
\<close>

section \<open>What the clients share\<close>

datatype client_error = Any any_error | Call call_error

text \<open>Parts of the cell library only the clients use.\<close>

record ('c, 's, 'u, 'g) chain_lib =
  cl_current_vset :: "'g \<Rightarrow> error + validator_set"
  cl_previous_vset :: "'g \<Rightarrow> error + validator_set option"
  cl_merkle_cell :: "'c \<Rightarrow> error + 'c"
  cl_signature_values :: "'c \<Rightarrow> error + (error + block_signature) list"
  cl_boc_decode :: "bytes \<Rightarrow> error + 'c"
  cl_boc_encode :: "'c \<Rightarrow> bytes"
  cl_boc_roots :: "nat option \<Rightarrow> bytes \<Rightarrow> error + 'c list"
  cl_repr_hash :: "'c \<Rightarrow> hash_bytes"
  cl_load_currency :: "('s, 'u, unit) rd"
  cl_parse_account :: "'c \<Rightarrow> error + account option"
  cl_shard_accounts :: "'c \<Rightarrow> error + 'c option"
  cl_account_get :: "'c option \<Rightarrow> hash_bytes \<Rightarrow> error + 's option"

text \<open>
  The block is parsed without a usage tree; \<open>prev_of\<close> reads \<open>prev_key_block_seqno\<close> of the
  network's block info.
\<close>

definition read_key_block ::
  "('c, 's, 'u, 'h, 'g) cell_lib \<Rightarrow> ('blk, 'info, 'extra, 'mc, 'c, 's, 'u, 'g) models \<Rightarrow>
   ('info \<Rightarrow> u32) \<Rightarrow> 'c \<Rightarrow> any_error + u32 \<times> 'g" where
  "read_key_block L M prev_of root =
     bindR (map_err Lib (run_io (bnd (parse L (m_load_block M) root) (\<lambda>block.
              bnd (m_load_info M block) (\<lambda>info.
              bnd (m_load_extra M block) (\<lambda>extra.
              bnd (m_load_custom M extra) (\<lambda>custom. ret (prev_of info, custom)))))) (usage_new L)))
       (\<lambda>(prev_key_block_seqno, custom).
     bindR (ok_or (Msg ''expected McBlockCustom'') custom) (\<lambda>custom.
     bindR (ok_or (Msg ''expected config'') (m_config M custom)) (\<lambda>config.
     Inr (prev_key_block_seqno, config))))"

definition make_key_block_data ::
  "('c, 's, 'u, 'g) chain_lib \<Rightarrow> block_id \<Rightarrow> 'c \<Rightarrow> u32 \<Rightarrow> block_signature list \<Rightarrow> 'g \<Rightarrow>
   any_error + 'c key_block_data" where
  "make_key_block_data H b root prev_seqno sigs config =
     bindR (map_err Lib (cl_current_vset H config)) (\<lambda>current_vset.
     bindR (map_err Lib (cl_previous_vset H config)) (\<lambda>prev_vset.
     Inr \<lparr>kb_block_id = b, kb_root = root, kb_prev_seqno = prev_seqno,
       kb_current_vset = current_vset, kb_prev_vset = prev_vset, kb_signatures = sigs\<rparr>))"

text \<open>
  \<open>make_key_block_proof_to_sync\<close> of all three clients: the previous set goes into the proof
  when the current one does not start where it ends.
\<close>

definition make_key_block_proof_to_sync ::
  "('c, 's, 'u, 'h, 'g) cell_lib \<Rightarrow> ('blk, 'info, 'extra, 'mc, 'c, 's, 'u, 'g) models \<Rightarrow>
   'c key_block_data \<Rightarrow> any_error + 'c" where
  "make_key_block_proof_to_sync L M d =
     map_err Lib (make_key_block_proof L M (kb_root d)
       (case kb_prev_vset d of
          None \<Rightarrow> False
        | Some prev_vset \<Rightarrow> utime_since (kb_current_vset d) \<noteq> utime_until prev_vset))"

section \<open>The contract of a source of key blocks\<close>

text \<open>\<open>fetch n d\<close>: asked for the key block \<open>n\<close>, the client can return \<open>d\<close>.\<close>

locale key_block_source =
  fixes L :: "('c, 's, 'u, 'h, 'g) cell_lib"
    and M :: "('blk, 'info, 'extra, 'mc, 'c, 's, 'u, 'g) models"
    and prev_of :: "'info \<Rightarrow> u32"
    and H :: "('c, 's, 'u, 'g) chain_lib"
    and fetch :: "u32 \<Rightarrow> 'c key_block_data \<Rightarrow> bool"
  assumes described: "fetch n d \<Longrightarrow> \<exists>config. read_key_block L M prev_of (kb_root d) = Inr (kb_prev_seqno d, config) \<and>
      cl_current_vset H config = Inr (kb_current_vset d) \<and>
      cl_previous_vset H config = Inr (kb_prev_vset d)"
begin

text \<open>Two answers with the same block agree on everything the service acts on.\<close>

lemma root_determines:
  assumes "fetch n d" and "fetch m e" and "kb_root d = kb_root e"
  shows "kb_prev_seqno d = kb_prev_seqno e \<and> kb_current_vset d = kb_current_vset e \<and>
    kb_prev_vset d = kb_prev_vset e"
  using described [OF assms(1)] described [OF assms(2)] assms(3) by auto

lemma proof_of_root:
  assumes "make_key_block_proof_to_sync L M d = Inr p"
  shows "hash0 L p = hash0 L (kb_root d)"
  using assms make_key_block_proof_hash by (auto simp: make_key_block_proof_to_sync_def)

end

text \<open>A source that also checks the block against the id that was asked for.\<close>

locale checked_source = key_block_source +
  assumes checked: "fetch n d \<Longrightarrow> root_hash (kb_block_id d) = cl_repr_hash H (kb_root d)"

section \<open>Tycho\<close>

text \<open>The answer to \<open>getKeyBlockProof\<close>: the id and the proof, already decoded from base64.\<close>

record 'c tycho_key_block_answer =
  ta_block_id :: "block_id option"
  ta_proof :: "(error + 'c) option"

definition tycho_get_key_block ::
  "('c, 's, 'u, 'h, 'g) cell_lib \<Rightarrow> ('c, 's, 'u, 'g) chain_lib \<Rightarrow>
   (u32 \<Rightarrow> any_error + 'c tycho_key_block_answer) \<Rightarrow> u32 \<Rightarrow> any_error + 'c key_block_data" where
  "tycho_get_key_block L H rpc n =
     bindR (rpc n) (\<lambda>res.
     bindR (ok_or (Msg ''key block not found'') (ta_proof res)) (\<lambda>proof_cell.
     bindR (ok_or (Msg ''expected block id in rpc response'') (ta_block_id res)) (\<lambda>b.
     bindR (map_err Lib (bindR proof_cell (\<lambda>c. run_io (parse L (load_base_block_proof L) c) (usage_new L))))
       (\<lambda>bp.
     bindR (case proof_signatures bp of
              Some data \<Rightarrow> map_err Lib (bindR (cl_signature_values H data) collect)
            | None \<Rightarrow> Inl (Msg ''masterchain block proof does not contain signatures'')) (\<lambda>signatures.
     bindR (map_err Lib (cl_merkle_cell H (proof_root bp))) (\<lambda>root.
     bindR (read_key_block L (tycho_models L) tycho_prev_key_block_seqno root)
       (\<lambda>(prev_key_block_seqno, config).
     make_key_block_data H b root prev_key_block_seqno signatures config)))))))"

text \<open>Only the first transaction of a response is compared with the hash that was asked for.\<close>

definition tycho_check_transactions ::
  "('t \<Rightarrow> hash_bytes) \<Rightarrow> hash_bytes \<Rightarrow> (error + 't) list \<Rightarrow> any_error + 't list" where
  "tycho_check_transactions hash_of h transactions =
     collect (map (\<lambda>(i, tx).
       bindR (map_err Lib tx) (\<lambda>tx.
       bindR (ensure (i \<noteq> 0 \<or> hash_of tx = h) (Msg ''latest tx hash mismatch'')) (\<lambda>_. Inr tx)))
       (enumerate 0 transactions))"

section \<open>TON\<close>

definition call_bind ::
  "('e + 'a) option \<Rightarrow> ('a \<Rightarrow> ('e + 'b) option) \<Rightarrow> ('e + 'b) option" where
  "call_bind m f =
     (case m of None \<Rightarrow> None | Some (Inl e) \<Rightarrow> Some (Inl e) | Some (Inr a) \<Rightarrow> f a)"

definition calls :: "(call_error + 'a) option \<Rightarrow> (client_error + 'a) option" where
  "calls m = map_option (map_err Call) m"

definition pure_any :: "any_error + 'a \<Rightarrow> (client_error + 'a) option" where
  "pure_any r = Some (map_err Any r)"

definition ton_lookup_mc :: "lite_env \<Rightarrow> u32 \<Rightarrow> (client_error + block_id) option" where
  "ton_lookup_mc E n = calls (lookup_block E \<lparr>shard = MASTERCHAIN, seqno = n\<rparr>)"

text \<open>The first forward link of the proof, which must lead to the key block.\<close>

fun forward_link :: "block_id \<Rightarrow> block_link list \<Rightarrow> any_error + link_forward" where
  "forward_link b [] = Inl (Msg ''key block proof not found'')"
| "forward_link b (BlockLinkForward f # steps) =
     (if lf_to f = b then Inr f else Inl (Msg ''proof block id mismatch''))"
| "forward_link b (BlockLinkBack l # steps) = forward_link b steps"

definition ton_get_latest_key_block_seqno ::
  "('c, 's, 'u, 'h, 'g) cell_lib \<Rightarrow> ('c, 's, 'u, 'g) chain_lib \<Rightarrow> lite_env \<Rightarrow> (client_error + u32) option" where
  "ton_get_latest_key_block_seqno L H E =
     call_bind (calls (get_last_mc_block_id E)) (\<lambda>mc_block_id.
     call_bind (calls (get_block (cl_boc_decode H) (cl_repr_hash H) E mc_block_id)) (\<lambda>root.
     call_bind (pure_any (map_err Lib (run_io (bnd (parse L (m_load_block (ton_models L)) root)
         (m_load_info (ton_models L))) (usage_new L)))) (\<lambda>info.
     Some (Inr (if m_is_key_block (ton_models L) info then seqno mc_block_id
                else ton_prev_key_block_seqno info)))))"

definition ton_get_key_block ::
  "('c, 's, 'u, 'h, 'g) cell_lib \<Rightarrow> ('c, 's, 'u, 'g) chain_lib \<Rightarrow> lite_env \<Rightarrow> u32 \<Rightarrow>
   (client_error + 'c key_block_data) option" where
  "ton_get_key_block L H E n =
     call_bind (ton_lookup_mc E n) (\<lambda>key_block_id.
     call_bind (calls (get_block (cl_boc_decode H) (cl_repr_hash H) E key_block_id)) (\<lambda>root.
     call_bind (pure_any (read_key_block L (ton_models L) ton_prev_key_block_seqno root))
       (\<lambda>(prev_key_block_seqno, config).
     call_bind (ton_lookup_mc E prev_key_block_seqno) (\<lambda>prev_key_block_id.
     call_bind (calls (get_block_proof E prev_key_block_id (Some key_block_id) False)) (\<lambda>partial.
     call_bind (pure_any (forward_link key_block_id (pb_steps partial))) (\<lambda>step.
     pure_any (make_key_block_data H key_block_id root prev_key_block_seqno
       (ss_signatures (lf_signatures step)) config)))))))"

definition ton_send_message :: "('c, 's, 'u, 'g) chain_lib \<Rightarrow> lite_env \<Rightarrow> 'c \<Rightarrow> (client_error + unit) option" where
  "ton_send_message H E msg =
     call_bind (calls (send_message E (cl_boc_encode H msg))) (\<lambda>status.
     pure_any (ensure (status = 1) (Msg ''message not sent'')))"

definition ton_get_transactions ::
  "('c, 's, 'u, 'g) chain_lib \<Rightarrow> lite_env \<Rightarrow> std_addr \<Rightarrow> u64 \<Rightarrow> hash_bytes \<Rightarrow> u8 \<Rightarrow>
   (client_error + 'c list) option" where
  "ton_get_transactions H E account lt h n =
     call_bind (calls (get_transactions E account lt h (ucast n))) (\<lambda>res.
     pure_any (map_err Lib (cl_boc_roots H None (tl_transactions res))))"

text \<open>The loaders of \<open>ton.rs\<close>.\<close>

definition ton_load_shard_state :: "('c, 's, 'u, 'h, 'g) cell_lib \<Rightarrow> ('s, 'u, 'c) rd" where
  "ton_load_shard_state L =
     bnd (load_u32 L) (\<lambda>tag.
     bnd (guard (tag = 0x9023afe2) InvalidTag) (\<lambda>_.
     bnd (load_reference L) (\<lambda>out_msg_queue_info.
     load_reference L)))"

definition ton_load_shard_account ::
  "('c, 's, 'u, 'h, 'g) cell_lib \<Rightarrow> ('c, 's, 'u, 'g) chain_lib \<Rightarrow> ('s, 'u, last_transaction_id) rd" where
  "ton_load_shard_account L H =
     bnd (skip_first L 5 0) (\<lambda>_.
     bnd (cl_load_currency H) (\<lambda>_.
     bnd (load_reference L) (\<lambda>_.
     bnd (load_u256 L) (\<lambda>h.
     bnd (load_u64 L) (\<lambda>lt.
     ret \<lparr>lt_lt = lt, lt_hash = h\<rparr>)))))"

definition ton_load_mc_state_extra :: "('c, 's, 'u, 'h, 'g) cell_lib \<Rightarrow> ('s, 'u, 'g) rd" where
  "ton_load_mc_state_extra L =
     bnd (load_u16 L) (\<lambda>tag.
     bnd (guard (tag = 0xcc26) InvalidTag) (\<lambda>_.
     bnd (load_shard_hashes L) (\<lambda>_.
     load_config L)))"

definition ton_get_blockchain_config ::
  "('c, 's, 'u, 'h, 'g) cell_lib \<Rightarrow> ('c, 's, 'u, 'g) chain_lib \<Rightarrow> lite_env \<Rightarrow> (client_error + 'g) option" where
  "ton_get_blockchain_config L H E =
     call_bind (calls (get_last_mc_block_id E)) (\<lambda>mc_block_id.
     call_bind (calls (get_config E mc_block_id)) (\<lambda>config.
     pure_any (
       bindR (map_err Lib (bindR (cl_boc_decode H (ci_config_proof config)) (cl_merkle_cell H))) (\<lambda>state_proof.
       bindR (map_err Lib (run_io (bnd (as_slice L state_proof) (\<lambda>cs.
            bnd (on_slice (only_last L 1 1) cs) (\<lambda>(_, cs).
            bnd (on_slice (load_option_cell L) cs) (\<lambda>(extra, cs). ret extra)))) (usage_new L))) (\<lambda>extra.
       bindR (ok_or (Msg ''expected McStateExtra'') extra) (\<lambda>extra.
       map_err Lib (run_io (parse L (ton_load_mc_state_extra L) extra) (usage_new L))))))))"

record 'c parsed_proofs =
  pp_timings :: gen_timings
  pp_state_root :: 'c

definition parse_proofs ::
  "('c, 's, 'u, 'h, 'g) cell_lib \<Rightarrow> ('c, 's, 'u, 'g) chain_lib \<Rightarrow> bytes \<Rightarrow> any_error + 'c parsed_proofs" where
  "parse_proofs L H proofs =
     bindR (map_err Lib (cl_boc_roots H (Some 2) proofs)) (\<lambda>roots.
     case roots of
       block_proof # state_proof # _ \<Rightarrow>
         bindR (map_err Lib (cl_merkle_cell H block_proof)) (\<lambda>root.
         bindR (map_err Lib (run_io (bnd (parse L (m_load_block (ton_models L)) root)
             (m_load_info (ton_models L))) (usage_new L))) (\<lambda>info.
         bindR (map_err Lib (cl_merkle_cell H state_proof)) (\<lambda>state_root.
         Inr \<lparr>pp_timings = \<lparr>gt_lt = m_end_lt (ton_models L) info, gt_utime = ton_gen_utime info\<rparr>,
              pp_state_root = state_root\<rparr>)))
     | [_] \<Rightarrow> Inl (Msg ''state proof not found'')
     | [] \<Rightarrow> Inl (Msg ''block proof not found''))"

definition get_last_transaction_id ::
  "('c, 's, 'u, 'h, 'g) cell_lib \<Rightarrow> ('c, 's, 'u, 'g) chain_lib \<Rightarrow> 'c parsed_proofs \<Rightarrow> hash_bytes \<Rightarrow>
   any_error + last_transaction_id" where
  "get_last_transaction_id L H p account =
     bindR (map_err Lib (run_io (parse L (ton_load_shard_state L) (pp_state_root p)) (usage_new L))) (\<lambda>accounts.
     bindR (map_err Lib (cl_shard_accounts H accounts)) (\<lambda>dict.
     bindR (map_err Lib (cl_account_get H dict account)) (\<lambda>found.
     bindR (ok_or (Msg ''account state not found'') found) (\<lambda>cs.
     map_err Lib (fst (ton_load_shard_account L H (cs, usage_new L)))))))"

definition ton_get_account_state ::
  "('c, 's, 'u, 'h, 'g) cell_lib \<Rightarrow> ('c, 's, 'u, 'g) chain_lib \<Rightarrow> lite_env \<Rightarrow> std_addr \<Rightarrow> u64 option \<Rightarrow>
   (client_error + 'c account_state_response) option" where
  "ton_get_account_state L H E addr last_transaction_lt =
     call_bind (calls (get_last_mc_block_id E)) (\<lambda>mc_block_id.
     call_bind (calls (get_lite_account E mc_block_id addr)) (\<lambda>account_state.
     pure_any (
       bindR (parse_proofs L H (as_proof account_state)) (\<lambda>proofs.
       if as_state account_state = [] then Inr (NotExists (pp_timings proofs))
       else
         bindR (get_last_transaction_id L H proofs (address addr)) (\<lambda>last_id.
         if last_transaction_lt = Some (lt_lt last_id) then Inr (Unchanged (pp_timings proofs))
         else
           bindR (map_err Lib (cl_boc_decode H (as_state account_state))) (\<lambda>cell.
           bindR (map_err Lib (cl_parse_account H cell)) (\<lambda>opt.
           Inr (case opt of
              None \<Rightarrow> NotExists (pp_timings proofs)
            | Some account \<Rightarrow> Exists account cell (pp_timings proofs) last_id))))))))"

section \<open>Legacy\<close>

record gql_signature =
  gs_node_id :: hash_bytes
  gs_r :: hash_bytes
  gs_s :: hash_bytes

record 'c gql_block =
  gb_workchain_id :: i32
  gb_shard :: u64
  gb_seq_no :: u32
  gb_file_hash :: hash_bytes
  gb_boc :: 'c
  gb_signatures :: "gql_signature list option"

text \<open>The two halves of the 64 bytes of a signature.\<close>

definition legacy_signature :: "gql_signature \<Rightarrow> block_signature" where
  "legacy_signature item =
     \<lparr>node_id_short = gs_node_id item,
      signature = sig_of_bytes (hash_to_bytes (gs_r item) @ hash_to_bytes (gs_s item))\<rparr>"

definition legacy_get_key_block ::
  "('c, 's, 'u, 'h, 'g) cell_lib \<Rightarrow> ('c, 's, 'u, 'g) chain_lib \<Rightarrow>
   (u32 \<Rightarrow> any_error + 'c gql_block option) \<Rightarrow> u32 \<Rightarrow> any_error + 'c key_block_data" where
  "legacy_get_key_block L H post n =
     bindR (post n) (\<lambda>res.
     bindR (ok_or (Msg ''not found'') res) (\<lambda>info.
     bindR (ensure (gb_workchain_id info = -1) (Msg ''block workchain id mismatch'')) (\<lambda>_.
     bindR (ensure (gb_shard info = prefix MASTERCHAIN) (Msg ''block shard mismatch'')) (\<lambda>_.
     bindR (ensure (gb_seq_no info = n) (Msg ''block seqno mismatch'')) (\<lambda>_.
     let b = \<lparr>shard = MASTERCHAIN, seqno = n, root_hash = cl_repr_hash H (gb_boc info),
              file_hash = gb_file_hash info\<rparr> in
     bindR (read_key_block L (legacy_models L) legacy_prev_key_block_seqno (gb_boc info))
       (\<lambda>(prev_key_block_seqno, config).
     bindR (ok_or (Msg ''key block signatures not found'') (gb_signatures info)) (\<lambda>signatures.
     make_key_block_data H b (gb_boc info) prev_key_block_seqno (map legacy_signature signatures) config)))))))"

section \<open>The clients keep the contract\<close>

lemma make_key_block_data_InrD:
  assumes "make_key_block_data H b root prev_seqno sigs config = Inr d"
  shows "kb_block_id d = b \<and> kb_root d = root \<and> kb_prev_seqno d = prev_seqno \<and>
    cl_current_vset H config = Inr (kb_current_vset d) \<and> cl_previous_vset H config = Inr (kb_prev_vset d) \<and>
    kb_signatures d = sigs"
  using assms by (auto simp: make_key_block_data_def)

lemma call_bind_InrE:
  assumes "call_bind m f = Some (Inr b)"
  obtains a where "m = Some (Inr a)" and "f a = Some (Inr b)"
  using assms by (auto simp: call_bind_def split: option.splits sum.splits)

lemma calls_Inr [simp]: "calls m = Some (Inr a) \<longleftrightarrow> m = Some (Inr a)"
  by (auto simp: calls_def)

lemma pure_any_Inr [simp]: "pure_any r = Some (Inr a) \<longleftrightarrow> r = Inr a"
  by (simp add: pure_any_def)

lemma get_block_checked:
  "get_block boc hash_of E b = Some (Inr cell) \<Longrightarrow> hash_of cell = root_hash b"
  by (auto simp: get_block_def then_call_def)

interpretation tycho_source: key_block_source L "tycho_models L" tycho_prev_key_block_seqno H
    "\<lambda>n d. tycho_get_key_block L H rpc n = Inr d"
  for L :: "('c, 's, 'u, 'h, 'g) cell_lib" and H :: "('c, 's, 'u, 'g) chain_lib" and rpc
  by unfold_locales
    (auto simp: tycho_get_key_block_def dest: make_key_block_data_InrD)

interpretation legacy_source: checked_source L "legacy_models L" legacy_prev_key_block_seqno H
    "\<lambda>n d. legacy_get_key_block L H post n = Inr d"
  for L :: "('c, 's, 'u, 'h, 'g) cell_lib" and H :: "('c, 's, 'u, 'g) chain_lib" and post
  by unfold_locales
    (auto simp: legacy_get_key_block_def Let_def dest!: make_key_block_data_InrD)

interpretation ton_source: checked_source L "ton_models L" ton_prev_key_block_seqno H
    "\<lambda>n d. ton_get_key_block L H E n = Some (Inr d)"
  for L :: "('c, 's, 'u, 'h, 'g) cell_lib" and H :: "('c, 's, 'u, 'g) chain_lib" and E
  by unfold_locales
    (auto simp: ton_get_key_block_def elim!: call_bind_InrE
      dest!: make_key_block_data_InrD get_block_checked)

end
