(* ===== verification/Sync_Properties.thy ===== *)
theory Sync_Properties
  imports Demo_Sync Chain_Clients
begin

text \<open>
  The properties of the sync service: finding the transaction of a message, finding the next
  key block, a whole round of the uploader, and what the clients say of a key block.
\<close>

section \<open>Transactions\<close>

text \<open>C34. A transaction that \<open>find_transaction\<close> returns was caused by the message, is newer than the
  logical time that was known, and hangs by its hash on a last transaction the node reported
  for the account; and it returns nothing only after the node reported a time past the expiry.\<close>

theorem transaction_found_or_expired:
  assumes "find_transaction C X addr msg_hash known_lt expire_at w = Some (r, w1)"
  shows "case r of
      Some raw_tx \<Rightarrow> answers X msg_hash raw_tx \<and> newer X known_lt raw_tx \<and>
        (\<exists>i. reported C addr i \<and> linked X i raw_tx)
    | None \<Rightarrow> reported_expired C addr expire_at"
  using find_transaction_ok [OF assms] by (simp add: search_ok_def split: option.splits)

lemma demo_find:
  "find_transaction demo_net demo_tx (demo_addr 5) 1 10 (Some 50) 1 = Some (Some 1, 1)"
  by code_simp

lemma transaction_found_or_expired_witness:
  "answers demo_tx 1 1 \<and> newer demo_tx 10 1"
  using transaction_found_or_expired [OF demo_find] by simp

text \<open>C35. On a node that serves the chain of an account, in responses of any length, the search finds
  the newest transaction after the known time that the message caused, and nothing exactly
  when there is none: how the chain is cut into responses does not matter.\<close>

theorem search_is_complete:
  assumes "serves C X addr" and "chain X i txs" and "known_lt < lt_lt i"
  shows "do_find_transaction C X addr msg_hash known_lt i w =
    Some (Inr (find (answers X msg_hash) (takeWhile (newer X known_lt) txs)), w)"
  using assms by (rule do_find_complete)

lemma demo_serves: "serves demo_net demo_tx addr"
  unfolding serves_def
proof (intro allI impI)
  fix i txs w assume "chain demo_tx i txs" and "txs \<noteq> []"
  then have "take 1 txs = [lt_hash i]" by (cases txs) (auto simp: demo_tx_def)
  then have "nc_transactions demo_net addr (lt_lt i) (lt_hash i) BATCH_LEN w = (Inr (take 1 txs), w)"
    by (simp add: demo_net_def)
  then show "\<exists>n>0. nc_transactions demo_net addr (lt_lt i) (lt_hash i) BATCH_LEN w = (Inr (take n txs), w)"
    by (intro exI [of _ 1]) simp
qed

lemma search_is_complete_witness:
  "do_find_transaction demo_net demo_tx (demo_addr 5) 1 10 (demo_last 2) 2 = Some (Inr (Some 2), 2)"
proof -
  have c: "chain demo_tx (demo_last 2) [2, 1, 0]"
    by (simp add: demo_tx_def demo_last_def)
  have "10 < lt_lt (demo_last 2)" by (simp add: demo_last_def)
  from search_is_complete [OF demo_serves c this, of "demo_addr 5" 1 2] show ?thesis
    by (simp add: answers_def newer_def demo_tx_def)
qed

section \<open>Key blocks\<close>

text \<open>C27. What \<open>find_next_key_block\<close> returns is the first key block after the epoch the bridge knows:
  the way back from the latest one leads over newer key blocks only, to a block of that very
  epoch, and the block returned is the one before it; without a newer one, or when the source
  is behind the bridge, it returns nothing. The cache stays in agreement with the source.\<close>

theorem next_key_block_is_first:
  assumes "find_next_key_block src since s = Some (Inr r, s1)"
    and "consistent src kb" and "cache_ok kb (fst s)"
  shows "\<exists>latest w w1 m. nc_latest_key_block_seqno src w = (Inr latest, w1) \<and>
    newer_path kb since latest m \<and>
    (epoch kb m < since \<and> r = None \<or>
     epoch kb m = since \<and>
       (m = latest \<and> r = None \<or>
        (\<exists>k. newer_path kb since latest k \<and> since < epoch kb k \<and> kb_prev_seqno (kb k) = m \<and> r = Some (kb k)))) \<and>
    cache_ok kb (fst s1)"
proof -
  from find_next_ok [OF assms] obtain latest w w1 where
    "nc_latest_key_block_seqno src w = (Inr latest, w1)" "next_found kb since latest None r" by blast
  moreover have "cache_ok kb (fst s1)"
    using keepsD [OF keeps_find [OF assms(2)] assms(1,3)] .
  ultimately show ?thesis unfolding next_found_def by blast
qed

lemma demo_find_next:
  "map_option fst (find_next_key_block demo_net 10 (new_uploader, 0)) = Some (Inr (Some (demo_key_block 3)))"
  by code_simp

lemma next_key_block_is_first_witness:
  "\<exists>m. newer_path demo_key_block 10 5 m \<and> epoch demo_key_block m = 10"
proof -
  obtain s1 where "find_next_key_block demo_net 10 (new_uploader, 0) = Some (Inr (Some (demo_key_block 3)), s1)"
    using demo_find_next by auto
  from next_key_block_is_first [OF this demo_consistent] cache_ok_new
  show ?thesis by (fastforce simp: demo_net_def)
qed

text \<open>C28. Looking for the next key block ends whenever every newer key block names an earlier one as
  its predecessor, whatever the cache holds and whichever calls fail.\<close>

theorem next_key_block_search_ends:
  assumes "consistent src kb" and "\<forall>n. since < epoch kb n \<longrightarrow> kb_prev_seqno (kb n) < n"
    and "cache_ok kb (fst s)"
  shows "\<exists>r s1. find_next_key_block src since s = Some (r, s1)"
proof (cases "nc_latest_key_block_seqno src (snd s)")
  case (Pair x w)
  show ?thesis
  proof (cases x)
    case (Inl e)
    with Pair show ?thesis by (simp add: find_next_key_block_def act_bind_def on_net_def)
  next
    case (Inr latest)
    with Pair walk_back_returns [OF assms(1,2), of "(fst s, w)" latest None] assms(3) show ?thesis
      by (simp add: find_next_key_block_def act_bind_def on_net_def)
  qed
qed

lemma next_key_block_search_ends_witness:
  "\<exists>r s1. find_next_key_block demo_net 10 (new_uploader, 0) = Some (r, s1)"
proof -
  have "kb_prev_seqno (demo_key_block n) < n" if "10 < epoch demo_key_block n" for n
  proof (cases "n < 2")
    case True
    with that have "0 < n" by (cases "n = 0") (auto simp: demo_key_block_def demo_epoch_set_def word_neq_0_conv [symmetric])
    with True show ?thesis by (simp add: demo_key_block_def)
  next
    case False
    then have "2 \<le> n" by simp
    then have "n - 2 < n" by (simp add: word_less_nat_alt word_le_nat_alt unat_sub)
    with False show ?thesis by (simp add: demo_key_block_def)
  qed
  then show ?thesis
    by (intro next_key_block_search_ends [OF demo_consistent, of 10 "(new_uploader, 0)"]) (simp_all add: cache_ok_new)
qed

section \<open>A round\<close>

text \<open>C26. A round that succeeds, after any number of rounds that succeeded or failed, read the bridge's
  epoch from an active state that is not older than the last transaction the uploader saw
  there, and either found no newer key block, or sent the first one after that epoch: the
  bridge has a successful transaction caused by the first message of a transaction of the
  wallet, which was caused by an external message with the proof of that key block and its
  signatures by the previous validator set, and the uploader remembers its logical time.\<close>

theorem round_sends_next_key_block:
  assumes "run_rounds n E (new_uploader, w0) = Some s" and "sync_key_blocks E s = Some (Inr (), s1)"
    and "consistent (se_src E) kb"
  shows "\<exists>since latest w w1 next_block.
    bridge_epoch E (up_min_bridge_state_lt (fst s)) since \<and>
    nc_latest_key_block_seqno (se_src E) w = (Inr latest, w1) \<and>
    next_found kb since latest None next_block \<and>
    (case next_block of
       None \<Rightarrow> up_min_bridge_state_lt (fst s1) = up_min_bridge_state_lt (fst s)
     | Some d \<Rightarrow> \<exists>raw_tx tx. applied_tx E d raw_tx tx \<and> up_min_bridge_state_lt (fst s1) = t_lt tx)"
proof -
  have "cache_ok kb (fst (new_uploader, w0))" by (simp add: cache_ok_new)
  then have "cache_ok kb (fst s)"
    by (intro run_rounds_keep [OF keeps_sync [OF assms(3)] _ assms(1)]) (simp_all add: untouched_def cache_ok_def)
  with sync_ok [OF assms(2,3)] show ?thesis .
qed

lemma demo_round_result:
  "map_option (\<lambda>(r, u, w). (r, up_min_bridge_state_lt u, w)) demo_round = Some (Inr (), 30, 2)"
  by code_simp

lemma round_sends_next_key_block_witness:
  "\<exists>s1 since. demo_round = Some (Inr (), s1) \<and> bridge_epoch (demo_sync 10) 0 since"
proof -
  obtain s1 where run: "demo_round = Some (Inr (), s1)"
    using demo_round_result by auto
  have C: "consistent (se_src (demo_sync 10)) demo_key_block"
    using demo_consistent by (simp add: demo_sync_def)
  have first: "run_rounds 0 (demo_sync 10) (new_uploader, 0) = Some (new_uploader, 0)" by simp
  from round_sends_next_key_block [OF first run [unfolded demo_round_def] C] run show ?thesis
    unfolding fst_conv by (simp only: new_uploader_def uploader.simps) blast
qed

section \<open>The clients\<close>

definition demo_chain :: "(dcell, dslice, dcell list, (int \<times> dcell) list) chain_lib" where
  "demo_chain =
     \<lparr>cl_current_vset = (\<lambda>g. Inr (demo_epoch_set 10)), cl_previous_vset = (\<lambda>g. Inr None),
      cl_merkle_cell = Inr, cl_signature_values = (\<lambda>c. Inr [Inr \<lparr>node_id_short = 1, signature = 5\<rparr>]),
      cl_boc_decode = (\<lambda>bs. Inr (DC [] [])), cl_boc_encode = (\<lambda>c. []), cl_boc_roots = (\<lambda>n bs. Inr []),
      cl_repr_hash = (\<lambda>c. of_int (sum_list (toks c))), cl_load_currency = ret (),
      cl_parse_account = (\<lambda>c. Inr None), cl_shard_accounts = (\<lambda>c. Inr None),
      cl_account_get = (\<lambda>d a. Inr None)\<rparr>"

definition demo_tycho_answer :: "dcell tycho_key_block_answer" where
  "demo_tycho_answer =
     \<lparr>ta_block_id = Some \<lparr>shard = MASTERCHAIN, seqno = 1, root_hash = 8, file_hash = 9\<rparr>,
      ta_proof = Some (Inr (DC [0xc3, 0, 0, 0, 0, 0, 1] [demo_tycho_block True, DC [] []]))\<rparr>"

definition demo_gql_block :: "dcell gql_block" where
  "demo_gql_block =
     \<lparr>gb_workchain_id = -1, gb_shard = prefix MASTERCHAIN, gb_seq_no = 1, gb_file_hash = 9,
      gb_boc = demo_block True,
      gb_signatures = Some []\<rparr>"

lemma not_isl_Inr: "\<not> isl x \<Longrightarrow> \<exists>b. x = Inr b"
  by (cases x) auto

lemma demo_tycho_described: "\<not> isl (tycho_get_key_block demo_lib demo_chain (\<lambda>n. Inr demo_tycho_answer) 1)"
  by code_simp

lemma demo_legacy_described: "\<not> isl (legacy_get_key_block demo_lib demo_chain (\<lambda>n. Inr (Some demo_gql_block)) 1)"
  by code_simp

text \<open>What the Tycho and the legacy client say of a key block is what its root says: the previous
  key block, the current and the previous validator set come from the block itself, a proof
  built from it has the hash of the root, and the legacy client returns only a masterchain
  block with the seqno and the hash in its id.\<close>

lemma clients_describe_the_root:
  assumes "tycho_get_key_block L H rpc n = Inr d" and "legacy_get_key_block L H post m = Inr e"
  shows "(\<exists>config. read_key_block L (tycho_models L) tycho_prev_key_block_seqno (kb_root d) =
        Inr (kb_prev_seqno d, config) \<and>
      cl_current_vset H config = Inr (kb_current_vset d) \<and>
      cl_previous_vset H config = Inr (kb_prev_vset d)) \<and>
    (\<exists>config. read_key_block L (legacy_models L) legacy_prev_key_block_seqno (kb_root e) =
        Inr (kb_prev_seqno e, config) \<and>
      cl_current_vset H config = Inr (kb_current_vset e) \<and>
      cl_previous_vset H config = Inr (kb_prev_vset e)) \<and>
    (\<forall>p. make_key_block_proof_to_sync L (tycho_models L) d = Inr p \<longrightarrow> hash0 L p = hash0 L (kb_root d)) \<and>
    root_hash (kb_block_id e) = cl_repr_hash H (kb_root e) \<and>
    shard (kb_block_id e) = MASTERCHAIN \<and> seqno (kb_block_id e) = m"
proof -
  have "shard (kb_block_id e) = MASTERCHAIN \<and> seqno (kb_block_id e) = m"
    using assms(2) by (auto simp: legacy_get_key_block_def Let_def dest!: make_key_block_data_InrD)
  then show ?thesis
    using tycho_source.described [OF assms(1)] legacy_source.described [OF assms(2)]
      tycho_source.proof_of_root [of L d] legacy_source.checked [OF assms(2)] by blast
qed

lemma clients_describe_the_root_witness:
  "\<exists>d e. tycho_get_key_block demo_lib demo_chain (\<lambda>n. Inr demo_tycho_answer) 1 = Inr d \<and>
    legacy_get_key_block demo_lib demo_chain (\<lambda>n. Inr (Some demo_gql_block)) 1 = Inr e \<and>
    root_hash (kb_block_id e) = cl_repr_hash demo_chain (kb_root e)"
proof -
  obtain d where d: "tycho_get_key_block demo_lib demo_chain (\<lambda>n. Inr demo_tycho_answer) 1 = Inr d"
    using demo_tycho_described not_isl_Inr by blast
  obtain e where e: "legacy_get_key_block demo_lib demo_chain (\<lambda>n. Inr (Some demo_gql_block)) 1 = Inr e"
    using demo_legacy_described not_isl_Inr by blast
  from clients_describe_the_root [OF d e] d e show ?thesis by blast
qed

end
