(* ===== verification/Proof_Api.thy ===== *)
theory Proof_Api
  imports Block_Proofs Proof_Chain
begin

text \<open>
  The contract of a proof API, whichever network it serves: an answer is a proof chain whose
  last block proves the transaction that was asked for. \<open>Proof_Api_L2\<close>, \<open>Proof_Api_Ton\<close> and
  \<open>Proof_Api_Legacy\<close> interpret it.
\<close>

definition proves_tx ::
  "('c, 's, 'u, 'h, 'g) cell_lib \<Rightarrow> ('blk, 'info, 'extra, 'mc, 'c, 's, 'u, 'g) models \<Rightarrow>
   std_addr \<Rightarrow> u64 \<Rightarrow> 'c \<Rightarrow> bool" where
  "proves_tx L M account lt p \<longleftrightarrow>
     (\<exists>block. make_tx_proof L M block (address account) lt (addr_workchain account = -1) = Inr (Some p) \<and>
        hash0 L p = hash0 L block)"

lemma proves_txI:
  assumes "make_tx_proof L M block (address account) lt (addr_workchain account = -1) = Inr (Some p)"
  shows "proves_tx L M account lt p"
  unfolding proves_tx_def using assms make_tx_proof_hash [OF assms] by blast

text \<open>A chain that was built can be unpacked, as long as the blocks are not too deep to be packed.\<close>

lemma built_chain_layout:
  assumes laws: "builder_laws B brefs bbits crefs cdepth max_depth"
    and built: "make_proof_chain B fh root blocks since sigs = Inr chain"
    and deep: "\<forall>x\<in>set (root # sigs # blocks). cdepth x \<le> d" and room: "d + length blocks + 1 < max_depth"
  shows "\<exists>cell. crefs chain = [cell] \<and> chain_layout crefs root blocks sigs cell"
proof -
  have "packs (length blocks - 1)"
  proof (rule ccontr)
    assume "\<not> packs (length blocks - 1)"
    then have "3 < length blocks - 1" "(length blocks - 1) mod 3 \<noteq> 0"
      by (auto simp: packs_def not_less le_less)
    moreover have "\<And>x. x \<in> set blocks \<Longrightarrow> cdepth x < max_depth" using deep room by fastforce
    ultimately have "make_proof_chain B fh root blocks since sigs = Inl Panic"
      by (rule make_proof_chain_panics [OF laws])
    with built show False by simp
  qed
  with make_proof_chain_ok [OF laws, of blocks root sigs d fh since] deep room built show ?thesis by auto
qed

locale proof_api =
  fixes L :: "('c, 's, 'u, 'h, 'g) cell_lib"
    and M :: "('blk, 'info, 'extra, 'mc, 'c, 's, 'u, 'g) models"
    and B :: "('c, 'b) builder_lib"
    and answers :: "std_addr \<Rightarrow> u64 \<Rightarrow> 'c \<Rightarrow> bool"
  assumes built: "answers account lt chain \<Longrightarrow> \<exists>fh root blocks since sigs.
      make_proof_chain B fh root blocks since sigs = Inr chain \<and>
      (blocks = [] \<longleftrightarrow> addr_workchain account = -1) \<and>
      proves_tx L M account lt (last (root # blocks))"
begin

text \<open>Whoever unpacks an answer finds a proof of the transaction as its last block.\<close>

lemma answer_unpacks:
  assumes "builder_laws B brefs bbits crefs cdepth max_depth" and "answers account lt chain"
  shows "\<exists>root blocks sigs. proves_tx L M account lt (last (root # blocks)) \<and>
    (blocks = [] \<longleftrightarrow> addr_workchain account = -1) \<and>
    (\<forall>d. (\<forall>x\<in>set (root # sigs # blocks). cdepth x \<le> d) \<longrightarrow> d + length blocks + 1 < max_depth \<longrightarrow>
       (\<exists>cell. crefs chain = [cell] \<and> chain_layout crefs root blocks sigs cell))"
proof -
  from built [OF assms(2)] obtain fh root blocks since sigs where
    "make_proof_chain B fh root blocks since sigs = Inr chain"
    "blocks = [] \<longleftrightarrow> addr_workchain account = -1" "proves_tx L M account lt (last (root # blocks))"
    by blast
  with built_chain_layout [OF assms(1)] show ?thesis by blast
qed

end

end
