(* ===== verification/Http_Api.thy ===== *)
theory Http_Api
  imports Prelude
begin

text \<open>
  The HTTP side of the proof APIs: the handlers \<open>get_proof_chain_v1\<close> and \<open>res_error\<close> of the three
  \<open>api.rs\<close> and the headers of \<open>util/src/api.rs\<close>. The proof is the value the client or the storage
  returned; the rate limiter is a crate, its state and its check are parameters. Encoding a
  response as JSON and the time limit of the server are left out.
\<close>

section \<open>Responses\<close>

definition JSON_HEADERS_DONT_CACHE :: "(string \<times> string) list" where
  "JSON_HEADERS_DONT_CACHE = [(''content-type'', ''application/json''), (''cache-control'', ''no-store'')]"

definition JSON_HEADERS_CACHE_1W :: "(string \<times> string) list" where
  "JSON_HEADERS_CACHE_1W = [(''content-type'', ''application/json''), (''cache-control'', ''public,max-age=604800'')]"

datatype 'e error_response = Internal 'e | NotFound string | LimitExceed

datatype ('c, 'e) body = ProofChainResponse 'c | ErrorBody "'e error_response"

record ('c, 'e) response =
  rp_status :: nat
  rp_headers :: "(string \<times> string) list"
  rp_body :: "('c, 'e) body"

definition res_error :: "'e error_response \<Rightarrow> ('c, 'e) response" where
  "res_error e =
     \<lparr>rp_status = (case e of Internal m \<Rightarrow> 500 | NotFound m \<Rightarrow> 404 | LimitExceed \<Rightarrow> 429),
      rp_headers = JSON_HEADERS_DONT_CACHE, rp_body = ErrorBody e\<rparr>"

definition res_proof :: "'c \<Rightarrow> ('c, 'e) response" where
  "res_proof proof_chain =
     \<lparr>rp_status = 200, rp_headers = JSON_HEADERS_CACHE_1W, rp_body = ProofChainResponse proof_chain\<rparr>"

section \<open>The handler of the L2 API\<close>

definition l2_response :: "'e + 'c option \<Rightarrow> ('c, 'e) response" where
  "l2_response result =
     (case result of
        Inr (Some proof_chain) \<Rightarrow> res_proof proof_chain
      | Inr None \<Rightarrow> res_error (NotFound ''tx not found'')
      | Inl e \<Rightarrow> res_error (Internal e))"

section \<open>The handler of the other APIs\<close>

record ('ip, 'q) app_state =
  as_whitelist :: "'ip list"
  as_governor :: 'q

text \<open>\<open>check ip q\<close> is the verdict of the rate limiter and its state after the check.\<close>

definition admits ::
  "('ip \<Rightarrow> 'q \<Rightarrow> bool \<times> 'q) \<Rightarrow> ('ip, 'q) app_state \<Rightarrow> 'ip \<Rightarrow> bool \<times> ('ip, 'q) app_state" where
  "admits check st ip =
     (if ip \<in> set (as_whitelist st) then (True, st)
      else case check ip (as_governor st) of (ok, q) \<Rightarrow> (ok, st\<lparr>as_governor := q\<rparr>))"

definition limited_response ::
  "('ip \<Rightarrow> 'q \<Rightarrow> bool \<times> 'q) \<Rightarrow> ('ip, 'q) app_state \<Rightarrow> 'ip \<Rightarrow> ('e + 'c) option \<Rightarrow>
   (('c, 'e) response \<times> ('ip, 'q) app_state) option" where
  "limited_response check st ip result =
     (case admits check st ip of
        (False, st) \<Rightarrow> Some (res_error LimitExceed, st)
      | (True, st) \<Rightarrow>
          (case result of
             None \<Rightarrow> None
           | Some (Inr proof_chain) \<Rightarrow> Some (res_proof proof_chain, st)
           | Some (Inl e) \<Rightarrow> Some (res_error (Internal e), st)))"

section \<open>Which response means what\<close>

lemma res_proof_iff [simp]:
  "rp_status (res_proof c) = 200"
  "rp_headers (res_proof c) = JSON_HEADERS_CACHE_1W"
  "rp_body (res_proof c) = ProofChainResponse c"
  by (simp_all add: res_proof_def)

lemma res_error_simps [simp]:
  "rp_status (res_error e) \<noteq> 200"
  "rp_status (res_error e) = 404 \<longleftrightarrow> (\<exists>m. e = NotFound m)"
  "rp_status (res_error e) = 429 \<longleftrightarrow> e = LimitExceed"
  "rp_headers (res_error e) = JSON_HEADERS_DONT_CACHE"
  "rp_body (res_error e) = ErrorBody e"
  by (cases e; simp add: res_error_def)+

lemma headers_differ [simp]: "JSON_HEADERS_DONT_CACHE \<noteq> JSON_HEADERS_CACHE_1W"
  by (simp add: JSON_HEADERS_DONT_CACHE_def JSON_HEADERS_CACHE_1W_def)

lemma limited_response_cases:
  assumes "limited_response check st ip result = Some (r, st1)"
  shows "st1 = snd (admits check st ip) \<and>
    (if fst (admits check st ip)
     then (case result of None \<Rightarrow> False | Some (Inr c) \<Rightarrow> r = res_proof c | Some (Inl e) \<Rightarrow> r = res_error (Internal e))
     else r = res_error LimitExceed)"
  using assms unfolding limited_response_def
  by (auto split: prod.splits bool.splits option.splits sum.splits)

end
