(* ===== verification/Proof_Api_Ton.thy ===== *)
theory Proof_Api_Ton
  imports Chain_Clients Proof_Api Http_Api
begin

text \<open>
  The proof builder of the TON API, \<open>proof-api-ton/src/client.rs\<close>: it finds the block of a
  transaction through the lite client, proves the transaction in it, walks the proof links
  from the masterchain block down to the shard block, and packs the proofs into a chain.
  A result \<open>None\<close> is a query that never returns.
\<close>

section \<open>Parts of the cell library only this client uses\<close>

record ('c, 's, 'u, 'g) ton_api_lib =
  ta_chain :: "('c, 's, 'u, 'g) chain_lib"
  ta_is_pruned :: "'c \<Rightarrow> bool"
  ta_current_vset :: "'g \<Rightarrow> error + validator_set option"
  ta_load_block_ref :: "('s, 'u, u32 \<times> hash_bytes \<times> hash_bytes) rd"
  ta_build_block :: "'c \<Rightarrow> 's \<Rightarrow> error + 'c"

text \<open>What every step of the client takes: cells, builders, the key hash and the lite client.\<close>

record ('c, 's, 'u, 'h, 'g, 'b) ton_api_env =
  te_cells :: "('c, 's, 'u, 'h, 'g) cell_lib"
  te_api :: "('c, 's, 'u, 'g) ton_api_lib"
  te_builder :: "('c, 'b) builder_lib"
  te_key_hash :: "hash_bytes \<Rightarrow> hash_bytes"
  te_lite :: lite_env

text \<open>\<open>Boc::decode(data)?.parse_exotic::<MerkleProof>()?.cell\<close>\<close>

definition decode_merkle :: "('c, 's, 'u, 'g) ton_api_lib \<Rightarrow> bytes \<Rightarrow> any_error + 'c" where
  "decode_merkle A data =
     map_err Lib (bindR (cl_boc_decode (ta_chain A) data) (cl_merkle_cell (ta_chain A)))"

definition fetch_block ::
  "('c, 's, 'u, 'h, 'g, 'b) ton_api_env \<Rightarrow> block_id \<Rightarrow> (client_error + 'c) option" where
  "fetch_block E b =
     calls (get_block (cl_boc_decode (ta_chain (te_api E))) (cl_repr_hash (ta_chain (te_api E))) (te_lite E) b)"

section \<open>The block of a transaction\<close>

definition only_block_id :: "block_id list \<Rightarrow> any_error + block_id" where
  "only_block_id ids =
     (case ids of
        [] \<Rightarrow> Inl (Msg ''liteserver returned no block ids'')
      | [b] \<Rightarrow> Inr b
      | _ \<Rightarrow> Inl (Msg ''liteserver returned unexpected block ids''))"

definition find_transaction_block_id ::
  "('c, 's, 'u, 'h, 'g, 'b) ton_api_env \<Rightarrow> std_addr \<Rightarrow> u64 \<Rightarrow> hash_bytes \<Rightarrow> (client_error + block_id) option" where
  "find_transaction_block_id E account lt h =
     call_bind (calls (get_transactions (te_lite E) account lt h 1)) (\<lambda>list.
     pure_any (only_block_id (tl_block_ids list)))"

section \<open>The validator set of a proof link\<close>

datatype parse_vset_error = Invalid any_error | PrunedVset

definition parse_current_vset ::
  "('c, 's, 'u, 'h, 'g, 'b) ton_api_env \<Rightarrow> 'c \<Rightarrow> parse_vset_error + validator_set" where
  "parse_current_vset E config_proof =
     (let L = te_cells E; M = ton_models L in
      bindR (map_err (Invalid \<circ> Lib) (run_io (bnd (parse L (m_load_block M) config_proof) (\<lambda>block.
               bnd (m_load_extra M block) (m_load_custom M))) (usage_new L))) (\<lambda>custom.
      bindR (ok_or (Invalid (Msg ''config proof without custom'')) custom) (\<lambda>mc_extra.
      bindR (ok_or (Invalid (Msg ''expected key block'')) (m_config M mc_extra)) (\<lambda>config.
      bindR (map_err (Invalid \<circ> Lib) (run_io (config_cell L config 34) (usage_new L))) (\<lambda>cell.
      bindR (ok_or (Invalid (Msg ''current validator set not found'')) cell) (\<lambda>vset_cell.
      if ta_is_pruned (te_api E) vset_cell then Inl PrunedVset
      else
        bindR (map_err (Invalid \<circ> Lib) (ta_current_vset (te_api E) config)) (\<lambda>vset.
        ok_or (Invalid (Msg ''current validator set not found'')) vset)))))))"

text \<open>
  The attempts at the validator set: after each that finds it pruned the whole key block is
  downloaded, also after the last one.
\<close>

fun vset_attempts ::
  "('c, 's, 'u, 'h, 'g, 'b) ton_api_env \<Rightarrow> block_id \<Rightarrow> nat \<Rightarrow> 'c \<Rightarrow> (client_error + validator_set) option" where
  "vset_attempts E from_id 0 config_proof = pure_any (Inl (Msg ''current vset cell is pruned''))"
| "vset_attempts E from_id (Suc n) config_proof =
     (case parse_current_vset E config_proof of
        Inr vset \<Rightarrow> Some (Inr vset)
      | Inl (Invalid e) \<Rightarrow> Some (Inl (Any e))
      | Inl PrunedVset \<Rightarrow> call_bind (fetch_block E from_id) (vset_attempts E from_id n))"

fun first_forward :: "block_link list \<Rightarrow> any_error + link_forward" where
  "first_forward [] = Inl (Msg ''forward proof step not found'')"
| "first_forward (BlockLinkForward f # steps) = Inr f"
| "first_forward (BlockLinkBack l # steps) = first_forward steps"

record 'c mc_proof =
  mp_header_proof :: bytes
  mp_vset_utime_since :: u32
  mp_signatures :: 'c

definition parse_mc_block_proof ::
  "('c, 's, 'u, 'h, 'g, 'b) ton_api_env \<Rightarrow> partial_block_proof \<Rightarrow> block_id \<Rightarrow>
   (client_error + 'c mc_proof) option" where
  "parse_mc_block_proof E partial mc_block_id =
     call_bind (pure_any (first_forward (pb_steps partial))) (\<lambda>forward.
     call_bind (pure_any (ensure (lf_to forward = mc_block_id) (Msg ''proof link id mismatch''))) (\<lambda>_.
     call_bind (pure_any (decode_merkle (te_api E) (lf_config_proof forward))) (\<lambda>config_proof.
     call_bind (vset_attempts E (lf_from forward) 2 config_proof) (\<lambda>vset.
     call_bind (pure_any (map_err Lib (prepare_signatures (te_builder E) (te_key_hash E)
        (map Inr (ss_signatures (lf_signatures forward))) vset))) (\<lambda>signatures.
     Some (Inr \<lparr>mp_header_proof = lf_dest_proof forward, mp_vset_utime_since = utime_since vset,
                mp_signatures = signatures\<rparr>))))))"

section \<open>The masterchain block of a shard proof\<close>

definition merge_mc_block_proof ::
  "('c, 's, 'u, 'h, 'g, 'b) ton_api_env \<Rightarrow> bytes \<Rightarrow> 'c \<Rightarrow> shard_ident \<Rightarrow> any_error + 'c" where
  "merge_mc_block_proof E header_proof extra_proof shard_ident =
     (let L = te_cells E in
      bindR (decode_merkle (te_api E) header_proof) (\<lambda>header_proof.
      bindR (ensure (hash0 L header_proof = hash0 L extra_proof) (Msg ''header proof id mismatch'')) (\<lambda>_.
      bindR (map_err Lib (run_io (bnd (as_slice L extra_proof) (on_slice (load_reference L))) (usage_new L)))
        (\<lambda>(pruned_info, extra_cs).
      bindR (map_err Lib (run_io (parse L (load_reference L) header_proof) (usage_new L))) (\<lambda>info.
      bindR (ensure (hash0 L pruned_info = cl_repr_hash (ta_chain (te_api E)) info)
               (Msg ''info hash mismatch'')) (\<lambda>_.
      bindR (map_err Lib (ta_build_block (te_api E) info extra_cs)) (\<lambda>proof_root.
      bindR (map_err Lib (make_mc_proof L (ton_models L) proof_root shard_ident)) (\<lambda>mc.
      Inr (mc_root mc)))))))))"

section \<open>The links down to the shard block\<close>

text \<open>
  The loop over the links: each proof has to be of the block the link before named. The first
  one is the masterchain block, the others become pivot proofs.
\<close>

fun walk_links ::
  "('c, 's, 'u, 'h, 'g, 'b) ton_api_env \<Rightarrow> shard_block_link list \<Rightarrow> hash_bytes \<Rightarrow> 'c option \<Rightarrow> 'c list \<Rightarrow>
   any_error + 'c option \<times> 'c list" where
  "walk_links E [] expected_hash mc_extra_root shard_proofs = Inr (mc_extra_root, shard_proofs)"
| "walk_links E (link # links) expected_hash mc_extra_root shard_proofs =
     bindR (decode_merkle (te_api E) (sl_proof link)) (\<lambda>block_root.
     bindR (ensure (hash0 (te_cells E) block_root = expected_hash) (Msg ''proof link hash mismatch'')) (\<lambda>_.
     case mc_extra_root of
       None \<Rightarrow> walk_links E links (root_hash (sl_block_id link)) (Some block_root) shard_proofs
     | Some _ \<Rightarrow>
         bindR (map_err Lib (make_pivot_block_proof (te_cells E) (ton_models (te_cells E)) False block_root))
           (\<lambda>pivot. walk_links E links (root_hash (sl_block_id link)) mc_extra_root (shard_proofs @ [pivot]))))"

section \<open>Building the proof\<close>

definition saturating_prev :: "block_id_short \<Rightarrow> block_id_short" where
  "saturating_prev b = b\<lparr>seqno := saturating_sub (seqno b) 1\<rparr>"

definition prev_block_of ::
  "('c, 's, 'u, 'h, 'g, 'b) ton_api_env \<Rightarrow> 'c \<Rightarrow> any_error + block_id" where
  "prev_block_of E mc_proof_root =
     (let L = te_cells E; M = ton_models L in
      bindR (map_err Lib (run_io (bnd (parse L (m_load_block M) mc_proof_root) (\<lambda>block.
               bnd (m_load_info M block) (\<lambda>info.
               parse L (ta_load_block_ref (te_api E)) (m_prev_ref M info)))) (usage_new L))) (\<lambda>(n, rh, fh).
      Inr \<lparr>shard = MASTERCHAIN, seqno = n, root_hash = rh, file_hash = fh\<rparr>))"

text \<open>The masterchain side: the file hash, the block proof, the epoch and signatures, the shard proofs.\<close>

definition mc_side ::
  "('c, 's, 'u, 'h, 'g, 'b) ton_api_env \<Rightarrow> block_id \<Rightarrow> 'c \<Rightarrow>
   (client_error + hash_bytes \<times> 'c \<times> 'c mc_proof \<times> 'c list) option" where
  "mc_side E block_id tx_proof =
     call_bind (pure_any (prev_block_of E tx_proof)) (\<lambda>prev_block_id.
     call_bind (calls (get_block_proof (te_lite E) prev_block_id (Some block_id) True)) (\<lambda>mc_block_link.
     call_bind (parse_mc_block_proof E mc_block_link block_id) (\<lambda>mc.
     Some (Inr (file_hash block_id, tx_proof, mc, [])))))"

definition shard_side ::
  "('c, 's, 'u, 'h, 'g, 'b) ton_api_env \<Rightarrow> block_id \<Rightarrow> 'c \<Rightarrow>
   (client_error + hash_bytes \<times> 'c \<times> 'c mc_proof \<times> 'c list) option" where
  "shard_side E block_id tx_proof =
     call_bind (calls (get_shard_block_proof (te_lite E) block_id)) (\<lambda>shard_proof.
     call_bind (calls (lookup_block (te_lite E) (saturating_prev (as_short_id (sp_mc_block_id shard_proof)))))
       (\<lambda>prev_block_id.
     call_bind (calls (get_block_proof (te_lite E) prev_block_id (Some (sp_mc_block_id shard_proof)) True))
       (\<lambda>mc_block_link.
     call_bind (parse_mc_block_proof E mc_block_link (sp_mc_block_id shard_proof)) (\<lambda>mc.
     call_bind (pure_any (walk_links E (sp_links shard_proof) (root_hash (sp_mc_block_id shard_proof)) None []))
       (\<lambda>(mc_extra_root, shard_proofs).
     call_bind (pure_any (bindR (ok_or (Msg ''masterchain extra root not found'') mc_extra_root) (\<lambda>extra_root.
        merge_mc_block_proof E (mp_header_proof mc) extra_root (shard block_id)))) (\<lambda>mc_root.
     Some (Inr (file_hash (sp_mc_block_id shard_proof), mc_root, mc, shard_proofs @ [tx_proof]))))))))"

definition ton_build_proof ::
  "('c, 's, 'u, 'h, 'g, 'b) ton_api_env \<Rightarrow> std_addr \<Rightarrow> u64 \<Rightarrow> hash_bytes \<Rightarrow> (client_error + 'c) option" where
  "ton_build_proof E account lt h =
     (let L = te_cells E; is_masterchain = addr_workchain account = -1 in
      call_bind (find_transaction_block_id E account lt h) (\<lambda>block_id.
      call_bind (fetch_block E block_id) (\<lambda>block_root.
      call_bind (pure_any (map_err Lib (make_tx_proof L (ton_models L) block_root (address account) lt is_masterchain)))
        (\<lambda>found.
      call_bind (pure_any (ok_or (Msg ''tx not found in block'') found)) (\<lambda>tx_proof.
      call_bind (if is_masterchain then mc_side E block_id tx_proof else shard_side E block_id tx_proof)
        (\<lambda>(fh, mc_root, mc, shard_proofs).
      pure_any (map_err Lib (make_proof_chain (te_builder E) fh mc_root shard_proofs
        (mp_vset_utime_since mc) (mp_signatures mc)))))))))"


text \<open>\<open>get_proof_chain_v1\<close> of \<open>proof-api-ton/src/api.rs\<close>\<close>

definition ton_get_proof_chain ::
  "('ip \<Rightarrow> 'q \<Rightarrow> bool \<times> 'q) \<Rightarrow> ('c, 's, 'u, 'h, 'g, 'b) ton_api_env \<Rightarrow> ('ip, 'q) app_state \<Rightarrow> 'ip \<Rightarrow>
   std_addr \<Rightarrow> u64 \<Rightarrow> hash_bytes \<Rightarrow> (('c, client_error) response \<times> ('ip, 'q) app_state) option" where
  "ton_get_proof_chain check E st ip account lt h = limited_response check st ip (ton_build_proof E account lt h)"

section \<open>How the proofs hang together\<close>

abbreviation link_hash :: "shard_block_link \<Rightarrow> hash_bytes" where
  "link_hash link \<equiv> root_hash (sl_block_id link)"

lemma walk_links_pivots:
  "walk_links E links expected (Some m) proofs = Inr (m1, proofs1) \<Longrightarrow>
   \<exists>pivots. m1 = Some m \<and> proofs1 = proofs @ pivots \<and>
     map (hash0 (te_cells E)) pivots = butlast (expected # map link_hash links)"
proof (induction links arbitrary: expected proofs)
  case (Cons link links)
  from Cons.prems obtain block_root pivot where
    "hash0 (te_cells E) block_root = expected"
    "make_pivot_block_proof (te_cells E) (ton_models (te_cells E)) False block_root = Inr pivot"
    and rest: "walk_links E links (link_hash link) (Some m) (proofs @ [pivot]) = Inr (m1, proofs1)"
    by auto
  then have "hash0 (te_cells E) pivot = expected" using make_pivot_block_proof_hash by metis
  moreover from Cons.IH [OF rest] obtain pivots where "m1 = Some m" "proofs1 = (proofs @ [pivot]) @ pivots"
    "map (hash0 (te_cells E)) pivots = butlast (link_hash link # map link_hash links)" by blast
  ultimately show ?case by (intro exI [of _ "pivot # pivots"]) simp
qed simp

text \<open>
  The hashes along the links: the masterchain block has the hash that was expected, every
  pivot the hash that the link before it named.
\<close>

lemma walk_links_ok:
  assumes "walk_links E links expected None [] = Inr (Some m, pivots)"
  shows "links \<noteq> [] \<and> map (hash0 (te_cells E)) (m # pivots) = butlast (expected # map link_hash links)"
proof (cases links)
  case Nil
  with assms show ?thesis by simp
next
  case (Cons link rest)
  with assms obtain block_root where "hash0 (te_cells E) block_root = expected"
    and "walk_links E rest (link_hash link) (Some block_root) [] = Inr (Some m, pivots)"
    by auto
  with walk_links_pivots [OF this(2)] Cons show ?thesis by auto
qed

text \<open>
  What is relied on of the cell library when the two proofs of the masterchain block are put
  together: a cell keeps its hash of level 0 when its first reference is replaced by the cell
  whose hash that reference has.
\<close>

definition rebuild_law :: "('c, 's, 'u, 'h, 'g, 'b) ton_api_env \<Rightarrow> bool" where
  "rebuild_law E \<longleftrightarrow>
     (\<forall>extra u pruned_info extra_cs u1 info root.
        bnd (as_slice (te_cells E) extra) (on_slice (load_reference (te_cells E))) u = (Inr (pruned_info, extra_cs), u1) \<and>
        hash0 (te_cells E) pruned_info = cl_repr_hash (ta_chain (te_api E)) info \<and>
        ta_build_block (te_api E) info extra_cs = Inr root \<longrightarrow>
        hash0 (te_cells E) root = hash0 (te_cells E) extra)"

lemma merge_mc_block_proof_hash:
  assumes "merge_mc_block_proof E header extra_root sh = Inr c" and "rebuild_law E"
  shows "hash0 (te_cells E) c = hash0 (te_cells E) extra_root"
proof -
  from assms(1) obtain pruned_info extra_cs info root mc where
    slice: "run_io (bnd (as_slice (te_cells E) extra_root) (on_slice (load_reference (te_cells E))))
        (usage_new (te_cells E)) = Inr (pruned_info, extra_cs)"
    and "hash0 (te_cells E) pruned_info = cl_repr_hash (ta_chain (te_api E)) info"
    and "ta_build_block (te_api E) info extra_cs = Inr root"
    and mc: "make_mc_proof (te_cells E) (ton_models (te_cells E)) root sh = Inr mc" "c = mc_root mc"
    unfolding merge_mc_block_proof_def Let_def by auto
  with assms(2) have "hash0 (te_cells E) root = hash0 (te_cells E) extra_root"
    unfolding rebuild_law_def by (auto elim!: run_io_InrE)
  with make_mc_proof_hash [OF mc(1)] mc(2) show ?thesis by simp
qed

lemma parse_mc_block_proof_ok:
  assumes "parse_mc_block_proof E partial b = Some (Inr mc)"
  shows "\<exists>forward vset. first_forward (pb_steps partial) = Inr forward \<and> lf_to forward = b \<and>
    mp_header_proof mc = lf_dest_proof forward \<and> mp_vset_utime_since mc = utime_since vset \<and>
    prepare_signatures (te_builder E) (te_key_hash E) (map Inr (ss_signatures (lf_signatures forward))) vset =
      Inr (mp_signatures mc)"
  using assms unfolding parse_mc_block_proof_def by (fastforce elim!: call_bind_InrE)


text \<open>
  \<open>signed_by E mc vset\<close>: the signatures of \<open>mc\<close> are a list of signatures from a link to the block \<open>b\<close>,
  sorted into the validator set \<open>vset\<close>.
\<close>

definition signed_by ::
  "('c, 's, 'u, 'h, 'g, 'b) ton_api_env \<Rightarrow> block_id \<Rightarrow> 'c mc_proof \<Rightarrow> bool" where
  "signed_by E b mc \<longleftrightarrow>
     (\<exists>(forward :: link_forward) (vset :: validator_set). lf_to forward = b \<and> mp_vset_utime_since mc = utime_since vset \<and>
        prepare_signatures (te_builder E) (te_key_hash E) (map Inr (ss_signatures (lf_signatures forward))) vset =
          Inr (mp_signatures mc))"

lemma parse_mc_block_proof_signed:
  "parse_mc_block_proof E partial b = Some (Inr mc) \<Longrightarrow> signed_by E b mc"
  using parse_mc_block_proof_ok unfolding signed_by_def by fastforce

lemma mc_side_ok:
  assumes "mc_side E b tx_proof = Some (Inr (fh, root, mc, proofs))"
  shows "fh = file_hash b \<and> root = tx_proof \<and> proofs = [] \<and> signed_by E b mc"
  using assms unfolding mc_side_def by (auto elim!: call_bind_InrE dest: parse_mc_block_proof_signed)

lemma shard_side_ok:
  assumes "shard_side E b tx_proof = Some (Inr (fh, root, mc, proofs))" and "rebuild_law E"
  shows "\<exists>sp pivots. get_shard_block_proof (te_lite E) b = Some (Inr sp) \<and>
    fh = file_hash (sp_mc_block_id sp) \<and> signed_by E (sp_mc_block_id sp) mc \<and>
    proofs = pivots @ [tx_proof] \<and> sp_links sp \<noteq> [] \<and>
    map (hash0 (te_cells E)) (root # pivots) =
      butlast (root_hash (sp_mc_block_id sp) # map link_hash (sp_links sp))"
proof -
  from assms(1) obtain sp partial extra pivots where
    sp: "get_shard_block_proof (te_lite E) b = Some (Inr sp)" and
    mc: "parse_mc_block_proof E partial (sp_mc_block_id sp) = Some (Inr mc)" and
    links: "walk_links E (sp_links sp) (root_hash (sp_mc_block_id sp)) None [] = Inr (Some extra, pivots)" and
    merge: "merge_mc_block_proof E (mp_header_proof mc) extra (shard b) = Inr root" and
    out: "fh = file_hash (sp_mc_block_id sp)" "proofs = pivots @ [tx_proof]"
    unfolding shard_side_def by (auto elim!: call_bind_InrE)
  show ?thesis
    using sp out walk_links_ok [OF links] merge_mc_block_proof_hash [OF merge assms(2)]
      parse_mc_block_proof_signed [OF mc] by auto
qed

lemma ton_build_proof_ok:
  assumes "ton_build_proof E account lt h = Some (Inr answer)"
  shows "\<exists>ids b block_root tx_proof fh root mc proofs.
    get_transactions (te_lite E) account lt h 1 = Some (Inr ids) \<and> tl_block_ids ids = [b] \<and>
    cl_repr_hash (ta_chain (te_api E)) block_root = root_hash b \<and>
    make_tx_proof (te_cells E) (ton_models (te_cells E)) block_root (address account) lt
      (addr_workchain account = -1) = Inr (Some tx_proof) \<and>
    (if addr_workchain account = -1 then mc_side E b tx_proof else shard_side E b tx_proof) =
      Some (Inr (fh, root, mc, proofs)) \<and>
    make_proof_chain (te_builder E) fh root proofs (mp_vset_utime_since mc) (mp_signatures mc) = Inr answer"
proof -
  from assms obtain b block_root tx_proof fh root mc proofs where
    find: "find_transaction_block_id E account lt h = Some (Inr b)" and
    block: "fetch_block E b = Some (Inr block_root)" and
    rest: "make_tx_proof (te_cells E) (ton_models (te_cells E)) block_root (address account) lt
        (addr_workchain account = -1) = Inr (Some tx_proof)"
      "(if addr_workchain account = -1 then mc_side E b tx_proof else shard_side E b tx_proof) =
        Some (Inr (fh, root, mc, proofs))"
      "make_proof_chain (te_builder E) fh root proofs (mp_vset_utime_since mc) (mp_signatures mc) = Inr answer"
    unfolding ton_build_proof_def Let_def by (auto elim!: call_bind_InrE)
  from find obtain ids where "get_transactions (te_lite E) account lt h 1 = Some (Inr ids)" "tl_block_ids ids = [b]"
    unfolding find_transaction_block_id_def only_block_id_def
    by (auto elim!: call_bind_InrE split: list.splits)
  moreover from block have "cl_repr_hash (ta_chain (te_api E)) block_root = root_hash b"
    unfolding fetch_block_def by (auto dest: get_block_checked)
  ultimately show ?thesis using rest by blast
qed


text \<open>The answers of the TON API keep the contract.\<close>

interpretation ton_api: proof_api "te_cells E" "ton_models (te_cells E)" "te_builder E"
    "\<lambda>account lt answer. \<exists>h. ton_build_proof E account lt h = Some (Inr answer)"
  for E :: "('c, 's, 'u, 'h, 'g, 'b) ton_api_env"
proof
  fix account lt answer
  assume "\<exists>h. ton_build_proof E account lt h = Some (Inr answer)"
  then obtain h where "ton_build_proof E account lt h = Some (Inr answer)" ..
  from ton_build_proof_ok [OF this] obtain b block_root tx_proof fh root mc proofs where
    tx: "make_tx_proof (te_cells E) (ton_models (te_cells E)) block_root (address account) lt
      (addr_workchain account = -1) = Inr (Some tx_proof)" and
    side: "(if addr_workchain account = -1 then mc_side E b tx_proof else shard_side E b tx_proof) =
      Some (Inr (fh, root, mc, proofs))" and
    built: "make_proof_chain (te_builder E) fh root proofs (mp_vset_utime_since mc) (mp_signatures mc) = Inr answer"
    by blast
  have "(proofs = [] \<longleftrightarrow> addr_workchain account = -1) \<and> last (root # proofs) = tx_proof"
  proof (cases "addr_workchain account = -1")
    case True
    with side mc_side_ok show ?thesis by fastforce
  next
    case False
    with side show ?thesis unfolding shard_side_def by (auto elim!: call_bind_InrE)
  qed
  with built proves_txI [OF tx] show "\<exists>fh root blocks since sigs.
      make_proof_chain (te_builder E) fh root blocks since sigs = Inr answer \<and>
      (blocks = [] \<longleftrightarrow> addr_workchain account = -1) \<and>
      proves_tx (te_cells E) (ton_models (te_cells E)) account lt (last (root # blocks))"
    by blast
qed

end
