(* ===== verification/Proof_Api_Legacy.thy ===== *)
theory Proof_Api_Legacy
  imports Chain_Clients Proof_Api Http_Api
begin

text \<open>
  The proof builder of the API for older networks, \<open>proof-api-legacy/src/client.rs\<close>. Blocks and
  transactions come from a GraphQL server: its answers, already decoded, are the arguments
  \<open>la_tx_info\<close> and \<open>la_post\<close>. The blocks between the block of the transaction and the masterchain
  block are fetched one by one, the newest first.
\<close>

section \<open>What the server answers\<close>

datatype block_query = ByHash hash_bytes | BySeqno block_id_short

record tx_info_brief =
  ti_master_seq_no :: u32
  ti_block_id :: hash_bytes
  ti_lt :: u64
  ti_account_addr :: std_addr

record 'c loaded_block =
  lb_block_id :: block_id
  lb_root :: 'c
  lb_signatures :: "block_signature list option"

record ('c, 's, 'u, 'h, 'g, 'b) legacy_api_env =
  la_cells :: "('c, 's, 'u, 'h, 'g) cell_lib"
  la_builder :: "('c, 'b) builder_lib"
  la_key_hash :: "hash_bytes \<Rightarrow> hash_bytes"
  la_repr_hash :: "'c \<Rightarrow> hash_bytes"
  la_shard_new :: "i32 \<Rightarrow> u64 \<Rightarrow> shard_ident option"
  la_current_vset :: "'g \<Rightarrow> error + validator_set"
  la_tx_info :: "hash_bytes \<Rightarrow> any_error + tx_info_brief option"
  la_post :: "block_query \<Rightarrow> any_error + 'c gql_block option"

section \<open>Loading a block\<close>

definition block_id_of ::
  "('c, 's, 'u, 'h, 'g, 'b) legacy_api_env \<Rightarrow> block_query \<Rightarrow> 'c gql_block \<Rightarrow> any_error + block_id" where
  "block_id_of E qry info =
     (case qry of
        ByHash h \<Rightarrow>
          bindR (ensure (la_repr_hash E (gb_boc info) = h) (Msg ''block root hash mismatch'')) (\<lambda>_.
          bindR (ok_or (Msg ''invalid shard'') (la_shard_new E (gb_workchain_id info) (gb_shard info))) (\<lambda>sh.
          Inr \<lparr>shard = sh, seqno = gb_seq_no info, root_hash = h, file_hash = gb_file_hash info\<rparr>))
      | BySeqno b \<Rightarrow>
          bindR (ensure (gb_workchain_id info = workchain (shard b)) (Msg ''block workchain id mismatch'')) (\<lambda>_.
          bindR (ensure (gb_shard info = prefix (shard b)) (Msg ''block shard mismatch'')) (\<lambda>_.
          bindR (ensure (gb_seq_no info = seqno b) (Msg ''block seqno mismatch'')) (\<lambda>_.
          Inr \<lparr>shard = shard b, seqno = gb_seq_no info, root_hash = la_repr_hash E (gb_boc info),
            file_hash = gb_file_hash info\<rparr>))))"

definition load_gql_block ::
  "('c, 's, 'u, 'h, 'g, 'b) legacy_api_env \<Rightarrow> block_query \<Rightarrow> any_error + 'c loaded_block option" where
  "load_gql_block E qry =
     bindR (la_post E qry) (\<lambda>res.
     case res of
       None \<Rightarrow> Inr None
     | Some info \<Rightarrow>
         bindR (block_id_of E qry info) (\<lambda>b.
         Inr (Some \<lparr>lb_block_id = b, lb_root = gb_boc info,
           lb_signatures = map_option (map legacy_signature) (gb_signatures info)\<rparr>)))"

text \<open>\<open>let Some(x) = self.get_block(by).await? else { bail!(msg) }\<close>\<close>

definition require_block ::
  "('c, 's, 'u, 'h, 'g, 'b) legacy_api_env \<Rightarrow> block_query \<Rightarrow> string \<Rightarrow> any_error + 'c loaded_block" where
  "require_block E qry msg = bindR (load_gql_block E qry) (ok_or (Msg msg))"

section \<open>The validator set\<close>

definition key_block_vset ::
  "('c, 's, 'u, 'h, 'g, 'b) legacy_api_env \<Rightarrow> u32 \<Rightarrow> any_error + validator_set" where
  "key_block_vset E n =
     (let L = la_cells E; M = legacy_models L in
      bindR (require_block E (BySeqno \<lparr>shard = MASTERCHAIN, seqno = n\<rparr>) ''prev key block not found'') (\<lambda>key_block.
      bindR (map_err Lib (run_io (bnd (parse L (m_load_block M) (lb_root key_block)) (\<lambda>block.
               bnd (m_load_extra M block) (m_load_custom M))) (usage_new L))) (\<lambda>custom.
      bindR (ok_or (Msg ''got key block without McBlockExtra'') custom) (\<lambda>custom.
      bindR (ok_or (Msg ''got key block without config'') (m_config M custom)) (\<lambda>config.
      map_err Lib (la_current_vset E config))))))"

definition require_signatures ::
  "('c, 's, 'u, 'h, 'g, 'b) legacy_api_env \<Rightarrow> validator_set \<Rightarrow> 'c loaded_block \<Rightarrow> any_error + 'c" where
  "require_signatures E vset loaded =
     bindR (ok_or (Msg ''masterchain block must contain signatures'') (lb_signatures loaded)) (\<lambda>sigs.
     map_err Lib (prepare_signatures (la_builder E) (la_key_hash E) (map Inr sigs) vset))"

section \<open>The shard blocks in between\<close>

fun legacy_pivots ::
  "('c, 's, 'u, 'h, 'g, 'b) legacy_api_env \<Rightarrow> shard_ident \<Rightarrow> u32 list \<Rightarrow> any_error + 'c list" where
  "legacy_pivots E sh [] = Inr []"
| "legacy_pivots E sh (n # ns) =
     bindR (require_block E (BySeqno \<lparr>shard = sh, seqno = n\<rparr>) ''intermediate shard block not found'') (\<lambda>loaded.
     bindR (map_err Lib (make_pivot_block_proof (la_cells E) (legacy_models (la_cells E)) False (lb_root loaded)))
       (\<lambda>pivot.
     bindR (legacy_pivots E sh ns) (\<lambda>pivots. Inr (pivot # pivots))))"

text \<open>\<open>(a + 1..=b).rev()\<close>, where the addition wraps around.\<close>

definition seqnos_down :: "u32 \<Rightarrow> u32 \<Rightarrow> u32 list" where
  "seqnos_down a b = map word_of_nat (rev [unat (a + 1)..<Suc (unat b)])"

section \<open>Building the proof\<close>

definition legacy_mc_side ::
  "('c, 's, 'u, 'h, 'g, 'b) legacy_api_env \<Rightarrow> validator_set \<Rightarrow> 'c loaded_block \<Rightarrow> 'c \<Rightarrow>
   any_error + hash_bytes \<times> 'c \<times> 'c \<times> 'c list" where
  "legacy_mc_side E vset loaded tx_proof =
     bindR (require_signatures E vset loaded) (\<lambda>signatures.
     Inr (file_hash (lb_block_id loaded), tx_proof, signatures, []))"

definition legacy_shard_side ::
  "('c, 's, 'u, 'h, 'g, 'b) legacy_api_env \<Rightarrow> validator_set \<Rightarrow> u32 \<Rightarrow> 'c loaded_block \<Rightarrow> 'c \<Rightarrow>
   any_error + hash_bytes \<times> 'c \<times> 'c \<times> 'c list" where
  "legacy_shard_side E vset master_seq_no loaded tx_proof =
     bindR (require_block E (BySeqno \<lparr>shard = MASTERCHAIN, seqno = master_seq_no\<rparr>) ''transaction block not found'')
       (\<lambda>loaded_mc.
     bindR (require_signatures E vset loaded_mc) (\<lambda>signatures.
     bindR (map_err Lib (make_mc_proof (la_cells E) (legacy_models (la_cells E)) (lb_root loaded_mc)
              (shard (lb_block_id loaded)))) (\<lambda>mc.
     bindR (legacy_pivots E (shard (lb_block_id loaded))
              (seqnos_down (seqno (lb_block_id loaded)) (latest_shard_seqno mc))) (\<lambda>pivots.
     Inr (file_hash (lb_block_id loaded_mc), mc_root mc, signatures, pivots @ [tx_proof])))))"

definition legacy_build_proof ::
  "('c, 's, 'u, 'h, 'g, 'b) legacy_api_env \<Rightarrow> std_addr \<Rightarrow> u64 \<Rightarrow> hash_bytes \<Rightarrow> any_error + 'c" where
  "legacy_build_proof E account lt h =
     (let L = la_cells E; M = legacy_models L; is_masterchain = addr_workchain account = -1 in
      bindR (la_tx_info E h) (\<lambda>tx_info.
      bindR (ok_or (Msg ''transaction not found'') tx_info) (\<lambda>tx_info.
      bindR (ensure (ti_lt tx_info = lt) (Msg ''transaction lt mismatch'')) (\<lambda>_.
      bindR (ensure (ti_account_addr tx_info = account) (Msg ''transaction account mismatch'')) (\<lambda>_.
      bindR (require_block E (ByHash (ti_block_id tx_info)) ''transaction block not found'') (\<lambda>loaded.
      bindR (map_err Lib (run_io (bnd (parse L (m_load_block M) (lb_root loaded)) (m_load_info M)) (usage_new L)))
        (\<lambda>info.
      bindR (map_err Lib (make_tx_proof L M (lb_root loaded) (address account) lt is_masterchain)) (\<lambda>found.
      bindR (ok_or (Msg ''tx not found in block'') found) (\<lambda>tx_proof.
      bindR (key_block_vset E (legacy_prev_key_block_seqno info)) (\<lambda>vset.
      bindR (if is_masterchain then legacy_mc_side E vset loaded tx_proof
             else legacy_shard_side E vset (ti_master_seq_no tx_info) loaded tx_proof)
        (\<lambda>(fh, root, signatures, shard_proofs).
      map_err Lib (make_proof_chain (la_builder E) fh root shard_proofs (utime_since vset) signatures))))))))))))"

text \<open>\<open>get_proof_chain_v1\<close> of \<open>proof-api-legacy/src/api.rs\<close>\<close>

definition legacy_get_proof_chain ::
  "('ip \<Rightarrow> 'q \<Rightarrow> bool \<times> 'q) \<Rightarrow> ('c, 's, 'u, 'h, 'g, 'b) legacy_api_env \<Rightarrow> ('ip, 'q) app_state \<Rightarrow> 'ip \<Rightarrow>
   std_addr \<Rightarrow> u64 \<Rightarrow> hash_bytes \<Rightarrow> (('c, any_error) response \<times> ('ip, 'q) app_state) option" where
  "legacy_get_proof_chain check E st ip account lt h =
     limited_response check st ip (Some (legacy_build_proof E account lt h))"

section \<open>What a block that was loaded is\<close>

text \<open>
  A block asked for by hash has that hash; one asked for by its place has that place, and its
  id holds the hash of its root.
\<close>

lemma load_gql_block_ok:
  assumes "require_block E qry msg = Inr loaded"
  shows "root_hash (lb_block_id loaded) = la_repr_hash E (lb_root loaded) \<and>
    (case qry of
       ByHash h \<Rightarrow> root_hash (lb_block_id loaded) = h
     | BySeqno b \<Rightarrow> shard (lb_block_id loaded) = shard b \<and> seqno (lb_block_id loaded) = seqno b)"
  using assms unfolding require_block_def load_gql_block_def block_id_of_def
  by (auto split: option.splits block_query.splits)

text \<open>The pivot proofs are those of the blocks the server has at the seqnos, in the same order.\<close>

lemma legacy_pivots_ok:
  assumes "legacy_pivots E sh ns = Inr pivots"
  shows "list_all2 (\<lambda>n p. \<exists>loaded.
      require_block E (BySeqno \<lparr>shard = sh, seqno = n\<rparr>) ''intermediate shard block not found'' = Inr loaded \<and>
      shard (lb_block_id loaded) = sh \<and> seqno (lb_block_id loaded) = n \<and>
      hash0 (la_cells E) p = hash0 (la_cells E) (lb_root loaded)) ns pivots"
  using assms
proof (induction ns arbitrary: pivots)
  case (Cons n ns)
  then obtain loaded p ps where
    loaded: "require_block E (BySeqno \<lparr>shard = sh, seqno = n\<rparr>) ''intermediate shard block not found'' = Inr loaded"
    and "make_pivot_block_proof (la_cells E) (legacy_models (la_cells E)) False (lb_root loaded) = Inr p"
    and "legacy_pivots E sh ns = Inr ps" and "pivots = p # ps" by auto
  with Cons.IH make_pivot_block_proof_hash load_gql_block_ok [OF loaded] show ?case by fastforce
qed simp

text \<open>The seqnos go down by one from the newest to the one after the block of the transaction.\<close>

lemma length_seqnos_down:
  assumes "a < b"
  shows "length (seqnos_down a b) = unat b - unat a"
proof -
  have "unat (a + 1) = Suc (unat a)"
    using assms unat_less_pow [of b] by (simp add: unat_word_ariths word_less_nat_alt)
  then show ?thesis using assms by (simp add: seqnos_down_def word_less_nat_alt del: upt_Suc)
qed

lemma seqnos_down_nth:
  assumes "i < length (seqnos_down a b)"
  shows "seqnos_down a b ! i = b - word_of_nat i"
proof -
  let ?n = "unat (a + 1)"
  have i: "i < Suc (unat b) - ?n" using assms by (simp add: seqnos_down_def del: upt_Suc)
  then have "rev [?n..<Suc (unat b)] ! i = unat b - i"
    by (simp add: rev_nth del: upt_Suc)
  with i have "seqnos_down a b ! i = word_of_nat (unat b - i)"
    by (simp add: seqnos_down_def del: upt_Suc)
  also have "\<dots> = b - word_of_nat i"
    using i by (simp add: of_nat_diff)
  finally show ?thesis .
qed


section \<open>How the proofs hang together\<close>

text \<open>
  \<open>signed_as\<close>: the block is the one of the masterchain at that seqno or the given one, and \<open>sigs\<close>
  are its signatures, sorted into the validator set.
\<close>

definition signed_as ::
  "('c, 's, 'u, 'h, 'g, 'b) legacy_api_env \<Rightarrow> validator_set \<Rightarrow> 'c loaded_block \<Rightarrow> 'c \<Rightarrow> bool" where
  "signed_as E vset loaded c \<longleftrightarrow>
     (\<exists>sigs. lb_signatures loaded = Some sigs \<and>
        prepare_signatures (la_builder E) (la_key_hash E) (map Inr sigs) vset = Inr c)"

lemma require_signatures_ok: "require_signatures E vset loaded = Inr c \<Longrightarrow> signed_as E vset loaded c"
  unfolding require_signatures_def signed_as_def by auto

lemma legacy_shard_side_ok:
  assumes "legacy_shard_side E vset n loaded tx_proof = Inr (fh, root, c, proofs)"
  shows "\<exists>loaded_mc mc pivots.
    require_block E (BySeqno \<lparr>shard = MASTERCHAIN, seqno = n\<rparr>) ''transaction block not found'' = Inr loaded_mc \<and>
    fh = file_hash (lb_block_id loaded_mc) \<and> signed_as E vset loaded_mc c \<and>
    make_mc_proof (la_cells E) (legacy_models (la_cells E)) (lb_root loaded_mc) (shard (lb_block_id loaded)) = Inr mc \<and>
    root = mc_root mc \<and> hash0 (la_cells E) root = hash0 (la_cells E) (lb_root loaded_mc) \<and>
    proofs = pivots @ [tx_proof] \<and>
    legacy_pivots E (shard (lb_block_id loaded))
      (seqnos_down (seqno (lb_block_id loaded)) (latest_shard_seqno mc)) = Inr pivots"
  using assms unfolding legacy_shard_side_def
  by (fastforce dest: require_signatures_ok make_mc_proof_hash)

lemma legacy_build_proof_ok:
  assumes "legacy_build_proof E account lt h = Inr answer"
  shows "\<exists>tx_info loaded tx_proof n vset fh root c proofs.
    la_tx_info E h = Inr (Some tx_info) \<and> ti_lt tx_info = lt \<and> ti_account_addr tx_info = account \<and>
    require_block E (ByHash (ti_block_id tx_info)) ''transaction block not found'' = Inr loaded \<and>
    make_tx_proof (la_cells E) (legacy_models (la_cells E)) (lb_root loaded) (address account) lt
      (addr_workchain account = -1) = Inr (Some tx_proof) \<and>
    key_block_vset E n = Inr vset \<and>
    (if addr_workchain account = -1 then legacy_mc_side E vset loaded tx_proof
     else legacy_shard_side E vset (ti_master_seq_no tx_info) loaded tx_proof) = Inr (fh, root, c, proofs) \<and>
    make_proof_chain (la_builder E) fh root proofs (utime_since vset) c = Inr answer"
  using assms unfolding legacy_build_proof_def Let_def by (fastforce split: prod.splits)

interpretation legacy_api: proof_api "la_cells E" "legacy_models (la_cells E)" "la_builder E"
    "\<lambda>account lt answer. \<exists>h. legacy_build_proof E account lt h = Inr answer"
  for E :: "('c, 's, 'u, 'h, 'g, 'b) legacy_api_env"
proof
  fix account lt answer
  assume "\<exists>h. legacy_build_proof E account lt h = Inr answer"
  then obtain h where "legacy_build_proof E account lt h = Inr answer" ..
  from legacy_build_proof_ok [OF this] obtain tx_info loaded tx_proof n vset fh root c proofs where
    info: "la_tx_info E h = Inr (Some tx_info)" "key_block_vset E n = Inr vset"
      "require_block E (ByHash (ti_block_id tx_info)) ''transaction block not found'' = Inr loaded" and
    tx: "make_tx_proof (la_cells E) (legacy_models (la_cells E)) (lb_root loaded) (address account) lt
      (addr_workchain account = -1) = Inr (Some tx_proof)" and
    side: "(if addr_workchain account = -1 then legacy_mc_side E vset loaded tx_proof
     else legacy_shard_side E vset (ti_master_seq_no tx_info) loaded tx_proof) = Inr (fh, root, c, proofs)" and
    built: "make_proof_chain (la_builder E) fh root proofs (utime_since vset) c = Inr answer"
    by blast
  have "(proofs = [] \<longleftrightarrow> addr_workchain account = -1) \<and> last (root # proofs) = tx_proof"
    using side legacy_shard_side_ok
    by (cases "addr_workchain account = -1") (fastforce simp: legacy_mc_side_def)+
  with built proves_txI [OF tx] show "\<exists>fh root blocks since sigs.
      make_proof_chain (la_builder E) fh root blocks since sigs = Inr answer \<and>
      (blocks = [] \<longleftrightarrow> addr_workchain account = -1) \<and>
      proves_tx (la_cells E) (legacy_models (la_cells E)) account lt (last (root # blocks))"
    by blast
qed

end
