(* ===== verification/Demo_Api.thy ===== *)
theory Demo_Api
  imports Proof_Api_Ton Proof_Api_Legacy Demo_Cells
begin

text \<open>
  A liteserver and a GraphQL server with a few fixed answers: the transaction 11 of account 5
  is in block 7 of the right shard of workchain 0, and masterchain block 5 knows that shard at
  block 9. Values on the wire are single bytes. It models no code of the repository.
\<close>

section \<open>The TON API\<close>

fun w_get :: "(u8 \<Rightarrow> 'a) \<Rightarrow> 'a tl_rd" where
  "w_get f [] = (Inl UnexpectedEof, [])"
| "w_get f (b # bs) = (Inr (f b), bs)"

text \<open>The root hash of both demo blocks is written as 1.\<close>

definition w_hash :: "u8 \<Rightarrow> hash_bytes" where
  "w_hash b = (if b = 1 then 0x11ef55aa else ucast b)"

definition w_tl :: tl_lib where
  "w_tl =
     \<lparr>put_u32 = (\<lambda>w. [ucast w]), get_u32 = w_get scast,
      put_u64 = (\<lambda>w. [ucast (drop_bit 56 w)]), get_u64 = w_get (\<lambda>b. push_bit 56 (ucast b)),
      put_hash = (\<lambda>h. [ucast h]), get_hash = w_get w_hash,
      put_bytes = (\<lambda>bs. word_of_nat (length bs) # bs),
      get_bytes = bnd (w_get unat) (\<lambda>n bs. (Inr (take n bs), drop n bs)),
      get_bool = w_get (\<lambda>b. b = 1), tl_id = (\<lambda>s. word_of_nat (length s)),
      utf8_lossy = (\<lambda>bs. []), tl_shard_new = (\<lambda>w p. Some \<lparr>workchain = w, prefix = p\<rparr>)\<rparr>"

definition w_tx_block :: bytes where "w_tx_block = [0, 0xc0, 7, 1, 8]"
definition w_shard_block :: bytes where "w_shard_block = [0, 0xc0, 8, 1, 6]"
definition w_mc_block :: bytes where "w_mc_block = [255, 0x80, 5, 1, 9]"

text \<open>The answer to a request, by the first byte: the length of the name of the method.\<close>

definition w_answer :: "bytes \<Rightarrow> bytes" where
  "w_answer request =
     (if hd request = 26 then [26, 1] @ w_tx_block @ [0]
      else if hd request = 19 then [20] @ w_tx_block @ [1, 1]
      else if hd request = 29 then [26] @ w_mc_block @ [2] @ w_shard_block @ [1, 2] @ w_tx_block @ [1, 1]
      else if hd request = 22 then [22] @ w_mc_block @ [0, 0]
      else [28, 1] @ w_mc_block @ w_mc_block @ [1, 27, 1] @ w_mc_block @ w_mc_block @ [1, 2, 1, 2] @
        [23, 0, 0, 1, 2, 64] @ replicate 63 0 @ [5])"

definition w_lite :: lite_env where
  "w_lite = \<lparr>le_tl = w_tl, le_attempt = (\<lambda>request n i. Completed (AnsweredFirst (Some (w_answer request)))),
     le_connections = 1, le_counter = 0\<rparr>"

definition w_vset :: validator_set where
  "w_vset = \<lparr>utime_since = 10, utime_until = 20, main_count = 1, total_weight = 3,
     validators = [\<lparr>public_key = 2, weight = 3\<rparr>]\<rparr>"

definition w_chain_lib :: "(dcell, dslice, dcell list, (int \<times> dcell) list) chain_lib" where
  "w_chain_lib =
     \<lparr>cl_current_vset = (\<lambda>g. Inr w_vset), cl_previous_vset = (\<lambda>g. Inr None),
      cl_merkle_cell = Inr, cl_signature_values = (\<lambda>c. Inr []),
      cl_boc_decode = (\<lambda>bs. Inr (demo_block (bs = [2]))), cl_boc_encode = (\<lambda>c. []), cl_boc_roots = (\<lambda>n bs. Inr []),
      cl_repr_hash = (\<lambda>c. of_int (sum_list (toks c))), cl_load_currency = ret (),
      cl_parse_account = (\<lambda>c. Inr None), cl_shard_accounts = (\<lambda>c. Inr None),
      cl_account_get = (\<lambda>d a. Inr None)\<rparr>"

definition demo_ton_env :: "(dcell, dslice, dcell list, dcell, (int \<times> dcell) list, dbuilder) ton_api_env" where
  "demo_ton_env =
     \<lparr>te_cells = demo_lib,
      te_api = \<lparr>ta_chain = w_chain_lib, ta_is_pruned = (\<lambda>c. False), ta_current_vset = (\<lambda>g. Inr (Some w_vset)),
        ta_load_block_ref = ret (0, 0, 0), ta_build_block = (\<lambda>c (ts, rs). Inr (DC ts (c # rs)))\<rparr>,
      te_builder = demo_builder, te_key_hash = (\<lambda>k. k), te_lite = w_lite\<rparr>"

lemma d_ref_toks: "d_ref ((ts, rs), u) = (Inr c, ((ts1, rs1), u1)) \<Longrightarrow> ts1 = ts"
  by (cases rs) auto

lemma demo_rebuild: "rebuild_law demo_ton_env"
  by (auto simp: rebuild_law_def demo_ton_env_def demo_lib_def d_open_def on_slice_def bnd_def
      split: prod.splits sum.splits dest: d_ref_toks)

definition demo_tx_block_id :: block_id where
  "demo_tx_block_id = \<lparr>shard = \<lparr>workchain = 0, prefix = 0xc000000000000000\<rparr>, seqno = 7,
     root_hash = 0x11ef55aa, file_hash = 8\<rparr>"

definition demo_account :: std_addr where
  "demo_account = \<lparr>addr_workchain = 0, address = 5\<rparr>"

lemma demo_ton_find: "find_transaction_block_id demo_ton_env demo_account 11 3 = Some (Inr demo_tx_block_id)"
  by code_simp

lemma demo_ton_fetch: "fetch_block demo_ton_env demo_tx_block_id = Some (Inr (demo_block False))"
  by code_simp

lemma demo_ton_side:
  "shard_side demo_ton_env demo_tx_block_id (demo_block False) =
     Some (Inr (9, demo_block True, \<lparr>mp_header_proof = [2], mp_vset_utime_since = 10, mp_signatures = DC [0, 5] []\<rparr>,
       [demo_block False, demo_block False]))"
  by code_simp


lemma demo_ton_tx:
  "make_tx_proof demo_lib (ton_models demo_lib) (demo_block False) (address demo_account) 11 False =
     Inr (Some (demo_block False))"
  by code_simp

lemma demo_depth: "dcell_depth (demo_block b) \<le> 9"
  by (simp add: demo_simps)

lemma demo_ton_env_simps [simp]:
  "te_cells demo_ton_env = demo_lib" "te_builder demo_ton_env = demo_builder"
  by (simp_all add: demo_ton_env_def)

lemma demo_account_shard: "addr_workchain demo_account \<noteq> -1" by (simp add: demo_account_def)

lemma demo_ton_run: "\<exists>answer. ton_build_proof demo_ton_env demo_account 11 3 = Some (Inr answer)"
proof -
  have "\<exists>root p. make_proof_chain demo_builder 9 (demo_block True) [demo_block False, demo_block False] 10 (DC [0, 5] []) = Inr p \<and>
      refs p = [root] \<and> chain_layout refs (demo_block True) [demo_block False, demo_block False] (DC [0, 5] []) root"
    by (rule make_proof_chain_ok [OF demo_builder_laws, of _ _ _ 9]) (auto simp: packs_def demo_depth)
  then obtain p where "make_proof_chain demo_builder 9 (demo_block True) [demo_block False, demo_block False] 10 (DC [0, 5] []) = Inr p"
    by blast
  then show ?thesis
    using demo_account_shard
    by (simp add: ton_build_proof_def Let_def call_bind_def demo_ton_find demo_ton_fetch demo_ton_tx demo_ton_side pure_any_def)
qed

section \<open>The legacy API\<close>

definition demo_gql :: "block_query \<Rightarrow> dcell gql_block" where
  "demo_gql qry =
     (let sigs = Some [\<lparr>gs_node_id = 2, gs_r = 0, gs_s = 5\<rparr>] in
      case qry of
        ByHash h \<Rightarrow> \<lparr>gb_workchain_id = 0, gb_shard = 0xc000000000000000, gb_seq_no = 7, gb_file_hash = 8,
          gb_boc = demo_block False, gb_signatures = sigs\<rparr>
      | BySeqno b \<Rightarrow> \<lparr>gb_workchain_id = workchain (shard b), gb_shard = prefix (shard b), gb_seq_no = seqno b,
          gb_file_hash = 9, gb_boc = demo_block (workchain (shard b) = -1), gb_signatures = sigs\<rparr>)"

definition demo_legacy_env :: "(dcell, dslice, dcell list, dcell, (int \<times> dcell) list, dbuilder) legacy_api_env" where
  "demo_legacy_env =
     \<lparr>la_cells = demo_lib, la_builder = demo_builder, la_key_hash = (\<lambda>k. k),
      la_repr_hash = (\<lambda>c. of_int (sum_list (toks c))), la_shard_new = (\<lambda>w p. Some \<lparr>workchain = w, prefix = p\<rparr>),
      la_current_vset = (\<lambda>g. Inr w_vset),
      la_tx_info = (\<lambda>h. Inr (Some \<lparr>ti_master_seq_no = 5, ti_block_id = 0x11ef55aa, ti_lt = 11,
        ti_account_addr = demo_account\<rparr>)),
      la_post = (\<lambda>qry. Inr (Some (demo_gql qry)))\<rparr>"

definition demo_loaded :: "dcell loaded_block" where
  "demo_loaded = \<lparr>lb_block_id = demo_tx_block_id, lb_root = demo_block False,
     lb_signatures = Some [\<lparr>node_id_short = 2, signature = 5\<rparr>]\<rparr>"

lemma demo_legacy_tx_block:
  "require_block demo_legacy_env (ByHash 0x11ef55aa) ''transaction block not found'' = Inr demo_loaded"
  by code_simp

lemma demo_legacy_info:
  "map_option legacy_prev_key_block_seqno
     (case run_io (bnd (parse demo_lib (m_load_block (legacy_models demo_lib)) (demo_block False))
        (m_load_info (legacy_models demo_lib))) (usage_new demo_lib) of Inl e \<Rightarrow> None | Inr i \<Rightarrow> Some i) = Some 0"
  by code_simp

lemma demo_legacy_tx:
  "make_tx_proof demo_lib (legacy_models demo_lib) (demo_block False) (address demo_account) 11 False =
     Inr (Some (demo_block False))"
  by code_simp

lemma demo_legacy_vset: "key_block_vset demo_legacy_env 0 = Inr w_vset"
  by code_simp

lemma demo_legacy_side:
  "legacy_shard_side demo_legacy_env w_vset 5 demo_loaded (demo_block False) =
     Inr (9, demo_block True, DC [0, 5] [], [demo_block False, demo_block False, demo_block False])"
  by code_simp


lemma demo_legacy_env_simps [simp]:
  "la_cells demo_legacy_env = demo_lib" "la_builder demo_legacy_env = demo_builder"
  "la_tx_info demo_legacy_env h =
     Inr (Some \<lparr>ti_master_seq_no = 5, ti_block_id = 0x11ef55aa, ti_lt = 11, ti_account_addr = demo_account\<rparr>)"
  by (simp_all add: demo_legacy_env_def)

lemma demo_legacy_run: "\<exists>answer. legacy_build_proof demo_legacy_env demo_account 11 3 = Inr answer"
proof -
  let ?blocks = "[demo_block False, demo_block False, demo_block False]"
  have "\<exists>root p. make_proof_chain demo_builder 9 (demo_block True) ?blocks 10 (DC [0, 5] []) = Inr p \<and>
      refs p = [root] \<and> chain_layout refs (demo_block True) ?blocks (DC [0, 5] []) root"
    by (rule make_proof_chain_ok [OF demo_builder_laws, of _ _ _ 9]) (auto simp: packs_def demo_depth)
  then obtain p where "make_proof_chain demo_builder 9 (demo_block True) ?blocks 10 (DC [0, 5] []) = Inr p"
    by blast
  moreover obtain i where
    "run_io (bnd (parse demo_lib (m_load_block (legacy_models demo_lib)) (demo_block False))
        (m_load_info (legacy_models demo_lib))) (usage_new demo_lib) = Inr i" "legacy_prev_key_block_seqno i = 0"
    using demo_legacy_info by (auto split: sum.splits)
  ultimately show ?thesis
    using demo_account_shard
    by (simp add: legacy_build_proof_def Let_def demo_legacy_tx_block demo_legacy_tx demo_legacy_vset
        demo_legacy_side demo_loaded_def [THEN arg_cong [of _ _ lb_root], simplified] w_vset_def [THEN arg_cong [of _ _ utime_since], simplified])
qed

end
