(* ===== verification/Proof_Api_L2.thy ===== *)
theory Proof_Api_L2
  imports Proof_Api Proof_Storage Http_Api
begin

text \<open>
  The API of \<open>proof-api-l2\<close>: its answers are what the proof storage builds
  (\<open>proof-api-l2/src/api.rs\<close>), and they keep the contract of a proof API.
\<close>

definition l2_get_proof_chain ::
  "('c, 's, 'u, 'h, 'g, 'b, 'db) storage_env \<Rightarrow> polls \<Rightarrow> 'db proof_storage \<Rightarrow> std_addr \<Rightarrow> u64 \<Rightarrow>
   ('c, any_error) response" where
  "l2_get_proof_chain E cancelled st account lt = l2_response (build_proof E cancelled st account lt)"

lemma of_result_InrE:
  assumes "of_result r s = (Inr a, t)"
  obtains "r = Inr a" and "t = s"
  using assms by (auto simp: rs_apply)

lemma shard_chain_last:
  assumes "shard_chain E cancelled db key n ref sh tx_proof m = (Inr (fh, root, blocks), m1)"
  shows "blocks \<noteq> [] \<and> last blocks = tx_proof"
  using assms unfolding shard_chain_def by (auto elim!: rs_elims)

lemma build_from_snapshot_chain:
  assumes "build_from_snapshot E cancelled db account lt key n ref sh m = (Inr (Some answer), m1)"
  shows "\<exists>fh root blocks since sigs.
    make_proof_chain (env_builder E) fh root blocks since sigs = Inr answer \<and>
    (blocks = [] \<longleftrightarrow> addr_workchain account = -1) \<and>
    proves_tx (env_cells E) (tycho_models (env_cells E)) account lt (last (root # blocks))"
proof -
  let ?mc = "addr_workchain account = -1"
  from assms obtain block tx_proof since sigs fh0 fh root blocks m2 m3 where
    tx: "make_tx_proof (env_cells E) (tycho_models (env_cells E)) block (address account) lt ?mc = Inr (Some tx_proof)" and
    side: "(if ?mc then ret (fh0, tx_proof, []) else shard_chain E cancelled db key n ref sh tx_proof) m2 =
      (Inr (fh, root, blocks), m3)" and
    built: "make_proof_chain (env_builder E) fh root blocks since sigs = Inr answer"
    unfolding build_from_snapshot_def Let_def by (auto elim!: rs_elims of_result_InrE)
  have "(blocks = [] \<longleftrightarrow> ?mc) \<and> last (root # blocks) = tx_proof"
    using side shard_chain_last by (cases ?mc) (fastforce simp: rs_apply)+
  with built proves_txI [OF tx] show ?thesis by blast
qed

interpretation l2_api: proof_api "env_cells E" "tycho_models (env_cells E)" "env_builder E"
    "\<lambda>account lt answer. \<exists>cancelled st. build_proof E cancelled st account lt = Inr (Some answer)"
  for E :: "('c, 's, 'u, 'h, 'g, 'b, 'db) storage_env"
proof
  fix account lt answer
  assume "\<exists>cancelled st. build_proof E cancelled st account lt = Inr (Some answer)"
  then obtain cancelled st where "build_proof E cancelled st account lt = Inr (Some answer)" by blast
  then obtain db key n ref sh m1 where
    "build_from_snapshot E cancelled db account lt key n ref sh 0 = (Inr (Some answer), m1)"
    unfolding build_proof_def by (auto split: option.splits prod.splits simp: prod_eq_iff)
  then show "\<exists>fh root blocks since sigs.
      make_proof_chain (env_builder E) fh root blocks since sigs = Inr answer \<and>
      (blocks = [] \<longleftrightarrow> addr_workchain account = -1) \<and>
      proves_tx (env_cells E) (tycho_models (env_cells E)) account lt (last (root # blocks))"
    by (rule build_from_snapshot_chain)
qed

end
