(* ===== verification/Serde_Helpers.thy ===== *)
theory Serde_Helpers
  imports Bytes
begin

text \<open>
  Reading the answers of servers: the hexadecimal numbers of GraphQL (\<open>gql_shard_prefix\<close> and
  \<open>gql_u64\<close> of \<open>util/src/serde_helpers.rs\<close>), the response object of JSON-RPC
  (\<open>sync-service/src/util/jrpc_client.rs\<close>) and the liteservers of a TON configuration
  (\<open>ton-lite-client/src/config.rs\<close>). Parsing the JSON text itself is left to the parser.
\<close>

section \<open>Hexadecimal numbers\<close>

text \<open>\<open>char::to_digit(16)\<close>\<close>

definition hex_digit :: "char \<Rightarrow> u64 option" where
  "hex_digit c =
     (let n = of_char c :: nat in
      if 48 \<le> n \<and> n \<le> 57 then Some (word_of_nat (n - 48))
      else if 97 \<le> n \<and> n \<le> 102 then Some (word_of_nat (n - 87))
      else if 65 \<le> n \<and> n \<le> 70 then Some (word_of_nat (n - 55))
      else None)"

text \<open>The loop of \<open>u64::from_str_radix\<close> with radix 16: a number that does not fit is an error.\<close>

fun hex_loop :: "u64 \<Rightarrow> string \<Rightarrow> u64 option" where
  "hex_loop acc [] = Some acc"
| "hex_loop acc (c # cs) =
     (case hex_digit c of
        None \<Rightarrow> None
      | Some d \<Rightarrow>
          (case checked_mul acc 16 of
             None \<Rightarrow> None
           | Some m \<Rightarrow> (case checked_add m d of None \<Rightarrow> None | Some acc \<Rightarrow> hex_loop acc cs)))"

text \<open>An empty string and a lone sign are errors, a leading plus is skipped.\<close>

definition from_str_radix16 :: "string \<Rightarrow> u64 option" where
  "from_str_radix16 s =
     (if s = [] \<or> s = ''+'' \<or> s = ''-'' then None
      else hex_loop 0 (if hd s = CHR ''+'' then tl s else s))"

definition gql_shard_prefix :: "string \<Rightarrow> u64 option" where
  "gql_shard_prefix s = from_str_radix16 s"

definition gql_u64 :: "string \<Rightarrow> u64 option" where
  "gql_u64 s = (if take 2 s = ''0x'' then from_str_radix16 (drop 2 s) else None)"

text \<open>\<open>format!("{:016x}", n)\<close>, as the queries write a shard prefix.\<close>

definition hex_char :: "nat \<Rightarrow> char" where
  "hex_char d = char_of (if d < 10 then 48 + d else 87 + d)"

fun hex_digits :: "nat \<Rightarrow> nat \<Rightarrow> string" where
  "hex_digits 0 n = []"
| "hex_digits (Suc k) n = hex_char (n div 16 ^ k mod 16) # hex_digits k n"

definition format_016x :: "u64 \<Rightarrow> string" where
  "format_016x w = hex_digits 16 (unat w)"

lemma hex_digit_char:
  assumes "d < 16"
  shows "hex_digit (hex_char d) = Some (word_of_nat d)"
proof -
  have "of_char (hex_char d) = (if d < 10 then 48 + d else 87 + d)"
    using assms by (simp add: hex_char_def)
  with assms show ?thesis by (auto simp: hex_digit_def Let_def)
qed

lemma unat_u64: "m < 2 ^ 64 \<Longrightarrow> unat (word_of_nat m :: u64) = m"
  by (simp add: unat_of_nat take_bit_nat_eq_self)

lemma hex_loop_digits:
  assumes "n < 16 ^ 16" and "k \<le> 16"
  shows "hex_loop (word_of_nat (n div 16 ^ k)) (hex_digits k n) = Some (word_of_nat n)"
  using assms(2)
proof (induction k)
  case (Suc k)
  let ?hi = "n div 16 ^ Suc k" and ?d = "n div 16 ^ k mod 16"
  have split: "n div 16 ^ k = ?hi * 16 + ?d"
  proof -
    have "?hi = n div 16 ^ k div 16" by (simp only: power_Suc2 div_mult2_eq)
    then show ?thesis by simp
  qed
  have small: "n div 16 ^ k < 2 ^ 64"
    using assms(1) by (intro le_less_trans [OF div_le_dividend]) simp
  have "?hi * 16 < 2 ^ 64" using small split by linarith
  then have hi: "unat (word_of_nat ?hi :: u64) = ?hi" by (intro unat_u64) linarith
  have mul: "checked_mul (word_of_nat ?hi :: u64) 16 = Some (word_of_nat (?hi * 16))"
    using \<open>?hi * 16 < 2 ^ 64\<close> unfolding checked_mul_def hi by simp
  have hi16: "unat (word_of_nat (?hi * 16) :: u64) = ?hi * 16"
    using \<open>?hi * 16 < 2 ^ 64\<close> by (rule unat_u64)
  have lo: "unat (word_of_nat ?d :: u64) = ?d"
    by (rule unat_u64) (rule less_trans [OF mod_less_divisor], simp_all)
  have add: "checked_add (word_of_nat (?hi * 16) :: u64) (word_of_nat ?d) = Some (word_of_nat (n div 16 ^ k))"
  proof -
    have "(word_of_nat (n div 16 ^ k) :: u64) = word_of_nat (?hi * 16) + word_of_nat ?d"
      using arg_cong [OF split, of "word_of_nat :: nat \<Rightarrow> u64"] by (simp only: of_nat_add)
    moreover have "?hi * 16 + ?d < 2 ^ 64" using small split by linarith
    ultimately show ?thesis unfolding checked_add_def hi16 lo by simp
  qed
  from Suc mul add show ?case by (simp add: hex_digit_char)
qed simp

text \<open>A shard prefix written into a query is read back as it was.\<close>

lemma gql_shard_prefix_format: "gql_shard_prefix (format_016x w) = Some w"
proof -
  have n: "unat w < 16 ^ 16" using unat_less_pow [of w] by simp
  have digits: "hex_digits 16 (unat w) = hex_char (unat w div 16 ^ 15 mod 16) # hex_digits 15 (unat w)"
    using hex_digits.simps(2) [of 15 "unat w"] by simp
  have sign: "hex_char d \<noteq> CHR ''+'' \<and> hex_char d \<noteq> CHR ''-''" if "d < 16" for d
    using hex_digit_char [OF that] by (auto simp: hex_digit_def)
  have "from_str_radix16 (hex_digits 16 (unat w)) = hex_loop 0 (hex_digits 16 (unat w))"
    unfolding digits from_str_radix16_def using sign [of "unat w div 16 ^ 15 mod 16"] by simp
  also have "\<dots> = Some w" using hex_loop_digits [OF n, of 16] n by (simp del: hex_digits.simps)
  finally show ?thesis by (simp add: gql_shard_prefix_def format_016x_def)
qed

lemma gql_u64_format: "gql_u64 (''0x'' @ format_016x w) = Some w"
  using gql_shard_prefix_format [of w] by (simp add: gql_u64_def gql_shard_prefix_def numeral_2_eq_2)


section \<open>The response object of JSON-RPC\<close>

text \<open>
  The entries of the object in order: the name of the field and the raw value, or the error of
  the parser. \<open>parse_result\<close> reads the value of the type the caller expects.
\<close>

datatype json_field = FieldResult | FieldError | FieldOther

datatype ('v, 'a) response_data = DataResult 'a | DataError 'v

datatype ('e, 'v) jrpc_error = Json 'e | DuplicateField string | MissingField | Rejected 'v

fun visit_map ::
  "('v \<Rightarrow> 'e + 'a) \<Rightarrow> ('e + json_field \<times> 'v) list \<Rightarrow> ('v, 'a) response_data option \<Rightarrow>
   ('e, 'v) jrpc_error + ('v, 'a) response_data" where
  "visit_map parse_result [] result = ok_or MissingField result"
| "visit_map parse_result (Inl e # entries) result = Inl (Json e)"
| "visit_map parse_result (Inr (FieldResult, v) # entries) result =
     (case result of
        None \<Rightarrow> bindR (map_err Json (parse_result v)) (\<lambda>a. visit_map parse_result entries (Some (DataResult a)))
      | Some _ \<Rightarrow> Inl (DuplicateField ''result''))"
| "visit_map parse_result (Inr (FieldError, v) # entries) result =
     (case result of
        None \<Rightarrow> visit_map parse_result entries (Some (DataError v))
      | Some _ \<Rightarrow> Inl (DuplicateField ''error''))"
| "visit_map parse_result (Inr (FieldOther, v) # entries) result = visit_map parse_result entries result"

text \<open>\<open>JrpcClient::post\<close>: a response with an error is an error of the call.\<close>

definition jrpc_post ::
  "('v \<Rightarrow> 'e + 'a) \<Rightarrow> ('e + json_field \<times> 'v) list \<Rightarrow> ('e, 'v) jrpc_error + 'a" where
  "jrpc_post parse_result entries =
     bindR (visit_map parse_result entries None) (\<lambda>d.
     case d of DataResult a \<Rightarrow> Inr a | DataError v \<Rightarrow> Inl (Rejected v))"

text \<open>The entries that matter: errors of the parser, and results or errors of the call.\<close>

fun matters :: "'e + json_field \<times> 'v \<Rightarrow> bool" where
  "matters (Inr (FieldOther, v)) = False"
| "matters entry = True"

lemma visit_map_Some:
  "visit_map parse_result entries (Some d) = Inr x \<longleftrightarrow> x = d \<and> filter matters entries = []"
proof (induction entries)
  case (Cons entry entries)
  then show ?case by (cases entry rule: matters.cases) auto
qed auto

lemma visit_map_None:
  "visit_map parse_result entries None = Inr (DataResult a) \<longleftrightarrow>
   (\<exists>v. filter matters entries = [Inr (FieldResult, v)] \<and> parse_result v = Inr a)"
proof (induction entries)
  case (Cons entry entries)
  then show ?case
    by (cases entry rule: matters.cases) (auto simp: visit_map_Some bindR_def split: sum.splits)
qed simp

text \<open>A call succeeds when the object has one result, no error, and nothing that does not parse.\<close>

lemma jrpc_post_iff:
  "jrpc_post parse_result entries = Inr a \<longleftrightarrow>
   (\<exists>v. filter matters entries = [Inr (FieldResult, v)] \<and> parse_result v = Inr a)"
proof -
  have "jrpc_post parse_result entries = Inr a \<longleftrightarrow> visit_map parse_result entries None = Inr (DataResult a)"
    unfolding jrpc_post_def
    by (cases "visit_map parse_result entries None") (auto split: response_data.splits)
  then show ?thesis unfolding visit_map_None .
qed

section \<open>Liteservers of a TON configuration\<close>

text \<open>The address is written as a signed number whose bits are the four bytes.\<close>

record liteserver =
  ls_ip :: i32
  ls_port :: u16
  ls_key :: hash_bytes

record node_info =
  ni_octets :: "u8 list"
  ni_port :: u16
  ni_pubkey :: hash_bytes

definition liteserver_nodes :: "liteserver list \<Rightarrow> node_info list" where
  "liteserver_nodes items =
     map (\<lambda>item. \<lparr>ni_octets = u32_be (ls_ip item), ni_port = ls_port item, ni_pubkey = ls_key item\<rparr>) items"

end
