(* ===== verification/Getter.thy ===== *)
theory Getter
  imports Prelude
begin

text \<open>
  Running a getter of a contract, \<open>sync-service/src/util/getter.rs\<close>. The virtual machine and the
  checksum are parameters.
\<close>

text \<open>The id of a method given by name: its checksum with bit 16 set.\<close>

definition method_id_of_name :: "(string \<Rightarrow> u16) \<Rightarrow> string \<Rightarrow> u32" where
  "method_id_of_name crc_16 name = ucast (crc_16 name) OR 0x10000"

datatype 'c contract_state = ActiveState "'c option" "'c option" | NotActive

record ('c, 'v, 'm) vm_lib =
  vm_smc_info :: "error + 'm"
  vm_int :: "u32 \<Rightarrow> 'v"
  vm_no_data :: 'c
  vm_run :: "'c \<Rightarrow> 'c \<Rightarrow> 'v list \<Rightarrow> 'm \<Rightarrow> i32 \<times> 'v list"

record 'v vm_getter_output =
  vo_exit_code :: i32
  vo_stack :: "'v list"
  vo_success :: bool

definition call_getter ::
  "('c, 'v, 'm) vm_lib \<Rightarrow> 'c contract_state \<Rightarrow> u32 \<Rightarrow> 'v list \<Rightarrow> any_error + 'v vm_getter_output" where
  "call_getter V state method_id args =
     (case state of
        NotActive \<Rightarrow> Inl (Msg ''account is not active'')
      | ActiveState code data \<Rightarrow>
          bindR (ok_or (Msg ''account has no code'') code) (\<lambda>code.
          bindR (map_err Lib (vm_smc_info V)) (\<lambda>smc.
          case vm_run V code (case data of None \<Rightarrow> vm_no_data V | Some d \<Rightarrow> d) (args @ [vm_int V method_id]) smc of
            (res, stack) \<Rightarrow>
              (let exit_code = NOT res in
               Inr \<lparr>vo_exit_code = exit_code, vo_stack = stack,
                 vo_success = (exit_code = 0 \<or> exit_code = 1)\<rparr>))))"

text \<open>The id of a name has nothing above bit 16.\<close>

lemma method_id_of_name_high: "drop_bit 16 (method_id_of_name crc_16 name) = 1"
proof -
  have "(0x10000 :: u32) = push_bit 16 1" by simp
  moreover have "drop_bit 16 (ucast (crc_16 name) :: u32) = 0"
    by (rule bit_word_eqI) (auto simp: bit_simps dest: bit_imp_le_length)
  ultimately show ?thesis by (simp add: method_id_of_name_def drop_bit_or)
qed

end
