(* ===== verification/Api_Properties.thy ===== *)
theory Api_Properties
  imports Demo_Api Proof_Api_L2 Demo_Storage Serde_Helpers Getter
begin

text \<open>
  The properties of the proof APIs: how the proofs of an answer hang together, what an answer
  unpacks to, what a response means, and how the answers of servers are read.
\<close>

section \<open>The TON API\<close>



section \<open>The legacy API\<close>



section \<open>Responses\<close>


definition demo_served_db :: demo_db where
  "demo_served_db t =
     (case t of
        Transactions \<Rightarrow> [(tx_key 21 (-1) 6, tx_value (-1) HIGH_BIT 7 7)]
      | PrunedBlocks \<Rightarrow> [(block_key (-1) HIGH_BIT 7, encode_block d_enc_cell 9 (demo_tycho_block True))]
      | Signatures \<Rightarrow> [(u32_be 7, encode_signatures d_enc_cell 1 (DC [0, 10, 1, 20] []))]
      | _ \<Rightarrow> [])"

definition demo_served :: "demo_db proof_storage" where
  "demo_served = new_storage demo_kv demo_served_db 1000"

lemma demo_served_simps [simp]: "ps_db demo_served = demo_served_db" "ps_snapshot demo_served = demo_served_db"
  by (simp_all add: demo_served_def new_storage_def)

lemma demo_served_run:
  "\<exists>answer. build_proof demo_env (\<lambda>_. False) demo_served \<lparr>addr_workchain = -1, address = 6\<rparr> 21 = Inr (Some answer)"
proof -
  let ?a = "\<lparr>addr_workchain = -1, address = 6\<rparr>"
  have kv: "kv_laws (env_kv demo_env) d_contents" and rd: "reads_succeed (env_kv demo_env) db" for db
    by (simp_all add: demo_kv_laws demo_reads)
  have row: "d_contents (ps_db demo_served) Transactions (tx_key 21 (addr_workchain ?a) (address ?a)) =
      Some (tx_value (-1) HIGH_BIT 7 7)"
    by (simp add: d_contents_def demo_served_db_def)
  have sh: "shard_new demo_env (of_i8 (-1)) HIGH_BIT = Some \<lparr>workchain = of_i8 (-1), prefix = HIGH_BIT\<rparr>"
    by simp
  have blk: "d_contents demo_served_db PrunedBlocks (block_key (-1) HIGH_BIT 7) =
      Some (encode_block (boc_encode demo_env) 9 (demo_tycho_block True))"
    by (simp add: d_contents_def demo_served_db_def)
  have sig: "d_contents demo_served_db Signatures (u32_be 7) =
      Some (encode_signatures (boc_encode demo_env) 1 (DC [0, 10, 1, 20] []))"
    by (simp add: d_contents_def demo_served_db_def)
  have boc: "boc_decode demo_env (boc_encode demo_env c) = Inr c" for c by (simp add: d_boc_roundtrip)
  have nc: "\<forall>n. \<not> (\<lambda>_::nat. False) n" and mc: "addr_workchain ?a = -1" by simp_all
  have tx: "make_tx_proof demo_lib (tycho_models demo_lib) (demo_tycho_block True) 6 21 True =
      Inr (Some (demo_tycho_block True))"
    by code_simp
  have "is_ok (make_proof_chain demo_builder 9 (demo_tycho_block True) [] 1 (DC [0, 10, 1, 20] []))"
    by code_simp
  then obtain p where "make_proof_chain demo_builder 9 (demo_tycho_block True) [] 1 (DC [0, 10, 1, 20] []) = Inr p"
    by (cases "make_proof_chain demo_builder 9 (demo_tycho_block True) [] 1 (DC [0, 10, 1, 20] [])") auto
  then show ?thesis
    unfolding build_proof_indexed [OF kv rd row sh]
    using build_from_snapshot_mc [OF kv rd nc boc blk sig mc] tx by simp
qed


text \<open>C40. A client of the TON and the legacy API is told to slow down exactly when its address is not on
  the whitelist and the rate limiter refuses it, and no proof is built for it then. Otherwise
  the status is 200 and the response may be cached exactly when a proof was built, and 500
  when it could not be: a missing transaction is no 404. The limiter is not asked about
  addresses on the whitelist.\<close>

theorem limited_api_responses:
  assumes "ton_get_proof_chain rl E st ip account lt h = Some (r, st1)"
    and "legacy_get_proof_chain rl F st ip account lt h = Some (q, st2)"
  shows "(rp_status r = 429 \<longleftrightarrow> ip \<notin> set (as_whitelist st) \<and> \<not> fst (rl ip (as_governor st))) \<and>
    (rp_status q = 429 \<longleftrightarrow> rp_status r = 429) \<and>
    (rp_status r = 200 \<longleftrightarrow> rp_status r \<noteq> 429 \<and> (\<exists>c. ton_build_proof E account lt h = Some (Inr c) \<and> r = res_proof c)) \<and>
    (rp_status q = 200 \<longleftrightarrow> rp_status q \<noteq> 429 \<and> (\<exists>c. legacy_build_proof F account lt h = Inr c \<and> q = res_proof c)) \<and>
    rp_status r \<in> {200, 429, 500} \<and> rp_status q \<in> {200, 429, 500} \<and>
    (rp_headers r = JSON_HEADERS_CACHE_1W \<longleftrightarrow> rp_status r = 200) \<and>
    (rp_headers q = JSON_HEADERS_CACHE_1W \<longleftrightarrow> rp_status q = 200) \<and>
    st1 = st2 \<and> as_whitelist st1 = as_whitelist st \<and>
    as_governor st1 = (if ip \<in> set (as_whitelist st) then as_governor st else snd (rl ip (as_governor st)))"
  using limited_response_cases [OF assms(1) [unfolded ton_get_proof_chain_def]]
    limited_response_cases [OF assms(2) [unfolded legacy_get_proof_chain_def]]
  by (auto simp: admits_def res_error_def split: prod.splits if_splits option.splits sum.splits)

lemma limited_api_responses_witness:
  "\<exists>r q. rp_status r = 200 \<and> rp_status q = 200 \<and> rp_headers r = JSON_HEADERS_CACHE_1W \<and>
     ton_get_proof_chain (\<lambda>ip q. (True, q + 1)) demo_ton_env \<lparr>as_whitelist = [1 :: nat], as_governor = 0 :: nat\<rparr> 2 demo_account 11 3 =
       Some (r, \<lparr>as_whitelist = [1], as_governor = 1\<rparr>) \<and>
     legacy_get_proof_chain (\<lambda>ip q. (True, q + 1)) demo_legacy_env \<lparr>as_whitelist = [1 :: nat], as_governor = 0 :: nat\<rparr> 2 demo_account 11 3 =
       Some (q, \<lparr>as_whitelist = [1], as_governor = 1\<rparr>)"
proof -
  obtain c where "ton_build_proof demo_ton_env demo_account 11 3 = Some (Inr c)" using demo_ton_run by blast
  then have ton: "ton_get_proof_chain (\<lambda>ip q. (True, q + 1)) demo_ton_env \<lparr>as_whitelist = [1 :: nat], as_governor = 0 :: nat\<rparr> 2 demo_account 11 3 =
       Some (res_proof c, \<lparr>as_whitelist = [1], as_governor = 1\<rparr>)"
    by (simp add: ton_get_proof_chain_def limited_response_def admits_def)
  obtain d where "legacy_build_proof demo_legacy_env demo_account 11 3 = Inr d" using demo_legacy_run by blast
  then have legacy: "legacy_get_proof_chain (\<lambda>ip q. (True, q + 1)) demo_legacy_env \<lparr>as_whitelist = [1 :: nat], as_governor = 0 :: nat\<rparr> 2 demo_account 11 3 =
       Some (res_proof d, \<lparr>as_whitelist = [1], as_governor = 1\<rparr>)"
    by (simp add: legacy_get_proof_chain_def limited_response_def admits_def)
  from limited_api_responses [OF ton legacy] ton legacy show ?thesis by (intro exI conjI) auto
qed

section \<open>Reading answers\<close>

text \<open>A call over JSON-RPC succeeds with a value exactly when the response object has one entry
  \<open>result\<close> that reads as that value, no entry \<open>error\<close>, and nothing the parser rejects; other
  entries are skipped wherever they stand.\<close>

lemma jrpc_post_succeeds:
  "jrpc_post parse_result entries = Inr a \<longleftrightarrow>
   (\<exists>v. filter matters entries = [Inr (FieldResult, v)] \<and> parse_result v = Inr a)"
  by (rule jrpc_post_iff)

text \<open>The shard prefix of a query, written with sixteen hexadecimal digits, is read back from an
  answer as the same number, and so is any 64-bit number written after \<open>0x\<close>.\<close>

lemma hex_roundtrips:
  "gql_shard_prefix (format_016x w) = Some w \<and> gql_u64 (''0x'' @ format_016x w) = Some w"
  by (rule conjI [OF gql_shard_prefix_format gql_u64_format])

end
