(* ===== verification/Light_Node.thy ===== *)
theory Light_Node
  imports Storage_Node
begin

text \<open>
  The whole block subscriber of the node, \<open>LightSubscriber\<close> in \<open>proof-api-l2/src/cmd/run.rs\<close>: the
  block data, the connections between blocks and the archive in the storages of the node core,
  and the proof storage. The state is a pair of the core's and the proof storage. The
  operations of the node core are parameters; \<open>'n\<close> is the state of its storages, \<open>'hd\<close> a block handle,
  \<open>'x\<close> a masterchain extra and \<open>'cfg\<close> a blockchain config.
\<close>

section \<open>The node core\<close>

datatype connection = Prev1 | Prev2 | Next1 | Next2

record new_block_meta =
  nm_is_key_block :: bool
  nm_gen_utime :: u32
  nm_ref_by_mc_seqno :: u32

record ('n, 'hd, 'c) node_core =
  co_is_key_block :: "'c block_stuff \<Rightarrow> bool"
  co_construct_prev_id :: "'c block_stuff \<Rightarrow> any_error + block_id \<times> block_id option"
  co_split :: "shard_ident \<Rightarrow> (shard_ident \<times> shard_ident) option"
  co_store_block_data :: "'c block_stuff \<Rightarrow> new_block_meta \<Rightarrow> ('n, any_error, 'hd) rs"
  co_load_handle :: "block_id \<Rightarrow> 'n \<Rightarrow> 'hd option"
  co_store_connection :: "'hd \<Rightarrow> connection \<Rightarrow> block_id \<Rightarrow> 'n \<Rightarrow> 'n"
  co_proof_signatures :: "'hd \<Rightarrow> ('n, any_error, (error + block_signature) list option) rs"
  co_archives_gc :: bool
  co_move_into_archive :: "'hd \<Rightarrow> bool \<Rightarrow> ('n, any_error, unit) rs"

text \<open>What the subscriber is told about a block.\<close>

record ('c, 'x) block_cx =
  bx_mc_block_id :: block_id
  bx_mc_is_key_block :: bool
  bx_is_key_block :: bool
  bx_block :: "'c block_stuff"
  bx_custom :: "any_error + 'x"

type_synonym ('n, 'db, 'a) node_rs = "('n \<times> 'db proof_storage, any_error, 'a) rs"

definition on_core :: "('n, any_error, 'a) rs \<Rightarrow> ('n, 'db, 'a) node_rs" where
  "on_core m s = (case m (fst s) of (r, n) \<Rightarrow> (r, (n, snd s)))"

definition on_proofs :: "('db proof_storage, any_error, 'a) rs \<Rightarrow> ('n, 'db, 'a) node_rs" where
  "on_proofs m s = (case m (snd s) of (r, st) \<Rightarrow> (r, (fst s, st)))"

section \<open>Preparing a block\<close>

definition get_block_handle ::
  "('n, 'hd, 'c) node_core \<Rightarrow> block_id \<Rightarrow> 'c block_stuff \<Rightarrow> ('n, any_error, 'hd) rs" where
  "get_block_handle N mc_block_id block =
     bnd (of_result (bs_gen_utime block)) (\<lambda>gen_utime.
     co_store_block_data N block
       \<lparr>nm_is_key_block = co_is_key_block N block, nm_gen_utime = gen_utime,
        nm_ref_by_mc_seqno = seqno mc_block_id\<rparr>)"

text \<open>
  A block after a split is the second next block of its predecessor when it is the right child;
  \<open>ShardIdent::split\<close> is unwrapped, which panics for a shard that cannot be split.
\<close>

definition next_direction ::
  "(shard_ident \<Rightarrow> (shard_ident \<times> shard_ident) option) \<Rightarrow> shard_ident \<Rightarrow> shard_ident \<Rightarrow> any_error + connection" where
  "next_direction split_shard prev_shard sh =
     (if sh \<noteq> prev_shard then
        bindR (ok_or (Lib Panic) (split_shard prev_shard)) (\<lambda>(left, right).
        Inr (if right = sh then Next2 else Next1))
      else Inr Next1)"

definition store_next ::
  "('n, 'hd, 'c) node_core \<Rightarrow> 'hd option \<Rightarrow> connection \<Rightarrow> block_id \<Rightarrow> 'n \<Rightarrow> 'n" where
  "store_next N handle direction bid n =
     (case handle of None \<Rightarrow> n | Some h \<Rightarrow> co_store_connection N h direction bid n)"

definition store_connections ::
  "('n, 'hd, 'c) node_core \<Rightarrow> 'hd \<Rightarrow> block_id \<Rightarrow> block_id \<Rightarrow> block_id option \<Rightarrow> ('n, any_error, unit) rs" where
  "store_connections N handle bid prev_id prev_id_alt n =
     (let prev_handle = co_load_handle N prev_id n in
      case prev_id_alt of
        None \<Rightarrow>
          (case (if prev_handle = None then Inr Next1
                 else next_direction (co_split N) (shard prev_id) (shard bid)) of
             Inl e \<Rightarrow> (Inl e, n)
           | Inr direction \<Rightarrow>
               (Inr (), co_store_connection N handle Prev1 prev_id (store_next N prev_handle direction bid n)))
      | Some alt \<Rightarrow>
          (let n1 = store_next N prev_handle Next1 bid n;
               n2 = store_next N (co_load_handle N alt n1) Next1 bid n1 in
           (Inr (), co_store_connection N handle Prev2 alt (co_store_connection N handle Prev1 prev_id n2))))"

definition block_signatures_of ::
  "('n, 'hd, 'c) node_core \<Rightarrow> 'hd \<Rightarrow> block_id \<Rightarrow> ('n, any_error, (error + block_signature) list) rs" where
  "block_signatures_of N handle bid =
     (if is_masterchain bid then
        bnd (co_proof_signatures N handle) (\<lambda>signatures.
        of_result (ok_or (Msg ''masterchain block proof without signatures'') signatures))
      else ret [])"

definition prepare_block_impl ::
  "('c, 's, 'u, 'h, 'g, 'b, 'db) storage_env \<Rightarrow> ('n, 'hd, 'c) node_core \<Rightarrow> polls \<Rightarrow> u32 \<Rightarrow>
   ('c, 'x) block_cx \<Rightarrow> ('n, 'db, 'hd) node_rs" where
  "prepare_block_impl E N cancelled now cx =
     (let block = bx_block cx in
      bnd (on_core (get_block_handle N (bx_mc_block_id cx) block)) (\<lambda>handle.
      bnd (of_result (co_construct_prev_id N block)) (\<lambda>(prev_id, prev_id_alt).
      bnd (on_core (store_connections N handle (bs_id block) prev_id prev_id_alt)) (\<lambda>_.
      bnd (on_core (block_signatures_of N handle (bs_id block))) (\<lambda>signatures.
      bnd (on_proofs (store_block E cancelled now block signatures (seqno (bx_mc_block_id cx)))) (\<lambda>_.
      ret handle))))))"

section \<open>Handling a block\<close>

text \<open>\<open>C\<close> reads the config of the masterchain extra of a key block.\<close>

definition new_vset :: "('z, 'h1, 'pr, 'x, 'cfg) core_lib \<Rightarrow> ('c, 'x) block_cx \<Rightarrow> any_error + validator_set" where
  "new_vset C cx =
     bindR (bx_custom cx) (\<lambda>custom.
     bindR (ok_or (Msg ''key block without config'') (custom_config C custom)) (\<lambda>config.
     current_validator_set C config))"

definition handle_block_impl ::
  "'db kv_lib \<Rightarrow> ('n, 'hd, 'c) node_core \<Rightarrow> ('z, 'h1, 'pr, 'x, 'cfg) core_lib \<Rightarrow> ('c, 'x) block_cx \<Rightarrow> 'hd \<Rightarrow>
   ('n, 'db, unit) node_rs" where
  "handle_block_impl K N C cx handle =
     bnd (if co_archives_gc N then on_core (co_move_into_archive N handle (bx_mc_is_key_block cx)) else ret ()) (\<lambda>_.
     bnd (if is_masterchain (bs_id (bx_block cx)) then on_proofs (\<lambda>st. (Inr (), update_snapshot K st)) else ret ()) (\<lambda>_.
     if bx_is_key_block cx then
       bnd (of_result (new_vset C cx)) (\<lambda>current_vset.
       on_proofs (\<lambda>st. (Inr (), set_current_vset current_vset st)))
     else ret ()))"

section \<open>Runs of the node\<close>

text \<open>The handle a block is handled with may be any.\<close>

inductive light_step ::
  "('c, 's, 'u, 'h, 'g, 'b, 'db) storage_env \<Rightarrow> ('n, 'hd, 'c) node_core \<Rightarrow> ('z, 'h1, 'pr, 'x, 'cfg) core_lib \<Rightarrow>
   'n \<times> 'db proof_storage \<Rightarrow> 'n \<times> 'db proof_storage \<Rightarrow> bool"
  for E N C where
  prepares: "prepare_block_impl E N cancelled now (cx :: ('c, 'x) block_cx) s = (r, s1) \<Longrightarrow> light_step E N C s s1"
| handles: "handle_block_impl (env_kv E) N C cx handle s = (r, s1) \<Longrightarrow> light_step E N C s s1"

inductive_cases light_stepE: "light_step E N C s s1"

inductive light_run ::
  "('c, 's, 'u, 'h, 'g, 'b, 'db) storage_env \<Rightarrow> ('n, 'hd, 'c) node_core \<Rightarrow> ('z, 'h1, 'pr, 'x, 'cfg) core_lib \<Rightarrow>
   'n \<times> 'db proof_storage \<Rightarrow> 'n \<times> 'db proof_storage \<Rightarrow> bool"
  for E N C s0 where
  run_start: "light_run E N C s0 s0"
| run_step: "light_run E N C s0 s \<Longrightarrow> light_step E N C s s1 \<Longrightarrow> light_run E N C s0 s1"

section \<open>The proof storage in a run of the node\<close>

text \<open>
  Seen from the proof storage, the node does what the steps of \<open>Storage_Node\<close> do: the storages of
  the core only decide whether a step gets as far as the proof storage.
\<close>

lemma on_core_snd [simp]: "snd (snd (on_core m s)) = snd s"
  by (simp add: on_core_def split: prod.splits)

lemma block_signatures_of_shard:
  assumes "block_signatures_of N handle bid n = (Inr sigs, n1)" and "\<not> is_masterchain bid"
  shows "sigs = []"
  using assms by (auto simp: block_signatures_of_def rs_apply)

lemma on_core_eq: "on_core m s = (r, s1) \<Longrightarrow> snd s1 = snd s \<and> m (fst s) = (r, fst s1)"
  by (auto simp: on_core_def split: prod.splits)

lemma on_proofs_eq: "on_proofs m s = (r, s1) \<Longrightarrow> fst s1 = fst s \<and> m (snd s) = (r, snd s1)"
  by (auto simp: on_proofs_def split: prod.splits)

lemma prepare_block_impl_proofs:
  assumes "prepare_block_impl E N cancelled now cx s = (r, s1)"
  shows "snd s1 = snd s \<or>
    (\<exists>cx1 r1. prepare_block E cancelled now (cx1 :: 'c subscriber_cx) (snd s) = (r1, snd s1))"
proof -
  let ?block = "bx_block cx"
  have "snd s1 = snd s \<or> (\<exists>handle sigs s2 s3 r1. block_signatures_of N handle (bs_id ?block) (fst s2) = (Inr sigs, fst s3) \<and>
      store_block E cancelled now ?block sigs (seqno (bx_mc_block_id cx)) (snd s) = (r1, snd s1))"
    using assms unfolding prepare_block_impl_def Let_def bnd_def
    by (force simp: rs_apply split: prod.splits sum.splits dest!: on_core_eq on_proofs_eq)
  then show ?thesis
  proof
    assume "\<exists>handle sigs s2 s3 r1. block_signatures_of N handle (bs_id ?block) (fst s2) = (Inr sigs, fst s3) \<and>
      store_block E cancelled now ?block sigs (seqno (bx_mc_block_id cx)) (snd s) = (r1, snd s1)"
    then obtain handle sigs n1 n2 r1 where sigs: "block_signatures_of N handle (bs_id ?block) n1 = (Inr sigs, n2)"
      and run: "store_block E cancelled now ?block sigs (seqno (bx_mc_block_id cx)) (snd s) = (r1, snd s1)" by blast
    let ?cx = "\<lparr>cx_mc_seqno = seqno (bx_mc_block_id cx), cx_block = ?block, cx_is_key_block = bx_is_key_block cx,
      cx_signatures = Inr (Some sigs), cx_vset = Inl (Lib Panic)\<rparr> :: 'c subscriber_cx"
    have "prepare_block E cancelled now ?cx (snd s) = (r1, snd s1)"
      using run block_signatures_of_shard [OF sigs]
      by (cases "is_masterchain (bs_id ?block)") (simp_all add: prepare_block_def Let_def rs_simps)
    then show ?thesis by blast
  qed simp
qed

lemma handle_block_impl_proofs:
  fixes cx :: "('c, 'x) block_cx"
  assumes "handle_block_impl K N C cx handle s = (r, s1)"
  shows "snd s1 = snd s \<or>
    (\<exists>cx1 r1. handle_block K (cx1 :: 'c subscriber_cx) (snd s) = (r1, snd s1))"
proof -
  let ?cx = "\<lparr>cx_mc_seqno = 0, cx_block = bx_block cx, cx_is_key_block = bx_is_key_block cx,
    cx_signatures = Inr None, cx_vset = new_vset C cx\<rparr> :: 'c subscriber_cx"
  have "snd s1 = snd s \<or> (\<exists>r1. handle_block K ?cx (snd s) = (r1, snd s1))"
    using assms unfolding handle_block_impl_def handle_block_def Let_def bnd_def
    by (auto simp: rs_apply split: prod.splits sum.splits if_splits dest!: on_core_eq on_proofs_eq)
  then show ?thesis by blast
qed

text \<open>Every step of the node is a step of the proof storage or leaves it as it was.\<close>

lemma light_step_refines:
  assumes "light_step E N C s s1"
  shows "snd s1 = snd s \<or> node_step E (snd s) (snd s1)"
  using assms
proof (rule light_stepE)
  fix cancelled now cx r
  assume "prepare_block_impl E N cancelled now cx s = (r, s1)"
  from prepare_block_impl_proofs [OF this] show ?thesis by (blast intro: node_step.prepare)
next
  fix cx handle r
  assume "handle_block_impl (env_kv E) N C cx handle s = (r, s1)"
  from handle_block_impl_proofs [OF this] show ?thesis by (blast intro: node_step.handle)
qed

lemma light_run_refines:
  assumes "light_run E N C s0 s"
  shows "reachable E (snd s0) (snd s)"
  using assms
proof (induction rule: light_run.induct)
  case run_start
  show ?case by (rule reachable.start)
next
  case (run_step s s1)
  from light_step_refines [OF run_step(2)] run_step(3) show ?case by (metis reachable.step)
qed

section \<open>The connections between blocks\<close>

text \<open>
  What is relied on of the node core: \<open>conn n\<close> is the table of connections, by block and
  direction; a handle belongs to one block, and only \<open>store_connection\<close> writes to the table.
\<close>

definition connection_laws ::
  "('n, 'hd, 'c) node_core \<Rightarrow> ('hd \<Rightarrow> block_id) \<Rightarrow> ('n \<Rightarrow> block_id \<Rightarrow> connection \<Rightarrow> block_id option) \<Rightarrow> bool" where
  "connection_laws N hid conn \<longleftrightarrow>
     (\<forall>b n h. co_load_handle N b n = Some h \<longrightarrow> hid h = b) \<and>
     (\<forall>h d b n. conn (co_store_connection N h d b n) = (conn n)(hid h := (conn n (hid h))(d \<mapsto> b)) \<and>
        (\<forall>x. co_load_handle N x (co_store_connection N h d b n) = co_load_handle N x n)) \<and>
     (\<forall>block m n h n1. co_store_block_data N block m n = (Inr h, n1) \<longrightarrow>
        hid h = bs_id block \<and> conn n1 = conn n \<and>
        (\<forall>x. co_load_handle N x n \<noteq> None \<longrightarrow> co_load_handle N x n1 \<noteq> None)) \<and>
     (\<forall>h n r n1. co_proof_signatures N h n = (r, n1) \<longrightarrow> conn n1 = conn n)"

lemma connection_lawsD:
  assumes "connection_laws N hid conn"
  shows "co_load_handle N b n = Some h \<Longrightarrow> hid h = b"
    and "conn (co_store_connection N h d b n) = (conn n)(hid h := (conn n (hid h))(d \<mapsto> b))"
    and "co_load_handle N x (co_store_connection N h d b n) = co_load_handle N x n"
    and "co_store_block_data N block m n = (Inr h, n1) \<Longrightarrow> hid h = bs_id block \<and> conn n1 = conn n"
    and "co_store_block_data N block m n = (Inr h, n1) \<Longrightarrow> co_load_handle N x n \<noteq> None \<Longrightarrow>
      co_load_handle N x n1 \<noteq> None"
    and "co_proof_signatures N h n = (r, n1) \<Longrightarrow> conn n1 = conn n"
  using assms unfolding connection_laws_def by blast+

text \<open>The direction in which a block follows its predecessor.\<close>

definition follows_by ::
  "('n, 'hd, 'c) node_core \<Rightarrow> block_id \<Rightarrow> block_id option \<Rightarrow> block_id \<Rightarrow> connection" where
  "follows_by N prev_id alt bid =
     (if alt = None \<and> shard bid \<noteq> shard prev_id \<and> map_option snd (co_split N (shard prev_id)) = Some (shard bid)
      then Next2 else Next1)"

text \<open>The table after the connections of a block were stored; \<open>known\<close> are the blocks with a handle.\<close>

definition linked_table ::
  "(block_id \<Rightarrow> bool) \<Rightarrow> connection \<Rightarrow> block_id \<Rightarrow> block_id \<Rightarrow> block_id option \<Rightarrow>
   (block_id \<Rightarrow> connection \<Rightarrow> block_id option) \<Rightarrow> block_id \<Rightarrow> connection \<Rightarrow> block_id option" where
  "linked_table known direction bid prev_id alt tab x d =
     (if x = bid \<and> d = Prev1 then Some prev_id
      else if x = bid \<and> d = Prev2 \<and> alt \<noteq> None then alt
      else if known x \<and> (x = prev_id \<and> d = direction \<or> Some x = alt \<and> d = Next1) then Some bid
      else tab x d)"

lemma linked_table_None:
  assumes "f \<noteq> Prev1" and "f \<noteq> Prev2"
  shows "(let t = (if known prev_id then tab(prev_id := (tab prev_id)(f \<mapsto> bid)) else tab)
      in t(bid := (t bid)(Prev1 \<mapsto> prev_id))) x d = linked_table known f bid prev_id None tab x d"
proof (cases "known prev_id \<and> x = prev_id \<and> d = f")
  case True
  with assms show ?thesis by (simp add: linked_table_def Let_def)
next
  case False
  then show ?thesis by (simp add: linked_table_def Let_def)
qed

lemma linked_table_Some:
  "(let t = (if known prev_id then tab(prev_id := (tab prev_id)(Next1 \<mapsto> bid)) else tab);
        t = (if known a then t(a := (t a)(Next1 \<mapsto> bid)) else t);
        t = t(bid := (t bid)(Prev1 \<mapsto> prev_id))
      in t(bid := (t bid)(Prev2 \<mapsto> a))) x d = linked_table known Next1 bid prev_id (Some a) tab x d"
proof -
  have "x = bid \<Longrightarrow> ?thesis" by (cases d) (auto simp: linked_table_def Let_def)
  moreover have "x \<noteq> bid \<Longrightarrow> ?thesis" by (auto simp: linked_table_def Let_def)
  ultimately show ?thesis by blast
qed

lemma store_next_conn:
  assumes "connection_laws N hid conn" and "handle = co_load_handle N x n0"
  shows "conn (store_next N handle d b n) =
      (if handle = None then conn n else (conn n)(x := (conn n x)(d \<mapsto> b)))"
    and "co_load_handle N y (store_next N handle d b n) = co_load_handle N y n"
proof -
  have "hid h = x" if "handle = Some h" for h
    using connection_lawsD(1) [OF assms(1)] assms(2) that by metis
  then show "conn (store_next N handle d b n) =
      (if handle = None then conn n else (conn n)(x := (conn n x)(d \<mapsto> b)))"
    by (cases handle) (simp_all add: store_next_def connection_lawsD(2) [OF assms(1)])
  show "co_load_handle N y (store_next N handle d b n) = co_load_handle N y n"
    by (cases handle) (simp_all add: store_next_def connection_lawsD(3) [OF assms(1)])
qed

lemma next_direction_ok:
  "next_direction (co_split N) (shard prev_id) (shard bid) = Inr d \<Longrightarrow> d = follows_by N prev_id None bid"
  by (auto simp: next_direction_def follows_by_def split: if_splits)

lemma store_connections_conn:
  assumes laws: "connection_laws N hid conn" and "hid handle = bid"
    and "store_connections N handle bid prev_id alt n = (Inr (), n1)"
  shows "conn n1 = linked_table (\<lambda>x. co_load_handle N x n \<noteq> None) (follows_by N prev_id alt bid) bid prev_id alt (conn n)"
proof (cases alt)
  case None
  from assms(3) None obtain d where n1: "n1 = co_store_connection N handle Prev1 prev_id
      (store_next N (co_load_handle N prev_id n) d bid n)"
    and d: "co_load_handle N prev_id n \<noteq> None \<longrightarrow> d = follows_by N prev_id alt bid"
    by (auto simp: store_connections_def Let_def dest: next_direction_ok split: sum.splits if_splits)
  let ?f = "follows_by N prev_id alt bid" and ?known = "\<lambda>x. co_load_handle N x n \<noteq> None"
  have dirs: "?f \<noteq> Prev1" "?f \<noteq> Prev2" by (simp_all add: follows_by_def)
  have tab: "conn n1 = (let t = (if ?known prev_id then (conn n)(prev_id := (conn n prev_id)(?f \<mapsto> bid)) else conn n)
      in t(bid := (t bid)(Prev1 \<mapsto> prev_id)))"
    unfolding n1 connection_lawsD(2) [OF laws] assms(2) store_next_conn(1) [OF laws refl]
    using d by (cases "co_load_handle N prev_id n") (simp_all add: Let_def)
  show ?thesis
  proof (intro ext)
    fix x e
    show "conn n1 x e = linked_table ?known ?f bid prev_id alt (conn n) x e"
      unfolding tab None by (rule linked_table_None [OF dirs [unfolded None]])
  qed
next
  case (Some a)
  let ?n1 = "store_next N (co_load_handle N prev_id n) Next1 bid n"
  let ?n2 = "store_next N (co_load_handle N a ?n1) Next1 bid ?n1"
  from assms(3) Some have n1: "n1 = co_store_connection N handle Prev2 a (co_store_connection N handle Prev1 prev_id ?n2)"
    by (simp add: store_connections_def Let_def)
  have a: "co_load_handle N a ?n1 = co_load_handle N a n" by (rule store_next_conn(2) [OF laws refl])
  have dir: "follows_by N prev_id alt bid = Next1" using Some by (simp add: follows_by_def)
  let ?known = "\<lambda>x. co_load_handle N x n \<noteq> None"
  have tab: "conn n1 = (let t = (if ?known prev_id then (conn n)(prev_id := (conn n prev_id)(Next1 \<mapsto> bid)) else conn n);
        t = (if ?known a then t(a := (t a)(Next1 \<mapsto> bid)) else t);
        t = t(bid := (t bid)(Prev1 \<mapsto> prev_id))
      in t(bid := (t bid)(Prev2 \<mapsto> a)))"
    unfolding n1 connection_lawsD(2) [OF laws] store_next_conn(1) [OF laws refl] assms(2) a Let_def
    by (cases "co_load_handle N prev_id n"; cases "co_load_handle N a n"; simp)
  show ?thesis
    unfolding dir tab unfolding Some by (intro ext) (rule linked_table_Some)
qed

lemma prepare_block_impl_links:
  assumes laws: "connection_laws N hid conn"
    and run: "prepare_block_impl E N cancelled now cx (n, st) = (Inr handle, (n1, st1))"
  shows "\<exists>prev_id alt known. co_construct_prev_id N (bx_block cx) = Inr (prev_id, alt) \<and>
    hid handle = bs_id (bx_block cx) \<and> (\<forall>x. co_load_handle N x n \<noteq> None \<longrightarrow> known x) \<and>
    conn n1 = linked_table known (follows_by N prev_id alt (bs_id (bx_block cx))) (bs_id (bx_block cx)) prev_id alt (conn n)"
proof -
  let ?block = "bx_block cx"
  from run obtain s2 prev_id alt s3 s4 sigs where
    data: "on_core (get_block_handle N (bx_mc_block_id cx) ?block) (n, st) = (Inr handle, s2)" and
    prev: "co_construct_prev_id N ?block = Inr (prev_id, alt)" and
    links: "on_core (store_connections N handle (bs_id ?block) prev_id alt) s2 = (Inr (), s3)" and
    sigs: "on_core (block_signatures_of N handle (bs_id ?block)) s3 = (Inr sigs, s4)" and
    store: "on_proofs (store_block E cancelled now ?block sigs (seqno (bx_mc_block_id cx))) s4 = (Inr (), (n1, st1))"
    unfolding prepare_block_impl_def Let_def
    by (auto simp: rs_apply elim!: bnd_InrE ret_InrE split: prod.splits)
  obtain m where stored: "co_store_block_data N ?block m n = (Inr handle, fst s2)"
    using on_core_eq [OF data] unfolding get_block_handle_def
    by (auto simp: rs_apply elim!: bnd_InrE)
  note linked = on_core_eq [OF links, THEN conjunct2] and signed = on_core_eq [OF sigs, THEN conjunct2]
  have n1: "n1 = fst s4" using on_proofs_eq [OF store] by simp
  have "conn (fst s4) = conn (fst s3)"
    using signed by (auto simp: block_signatures_of_def rs_apply elim!: bnd_InrE
        dest: connection_lawsD(6) [OF laws] split: if_splits)
  then show ?thesis
    using connection_lawsD(4) [OF laws stored] store_connections_conn [OF laws _ linked] n1
    by (intro exI [of _ prev_id] exI [of _ alt] exI [of _ "\<lambda>x. co_load_handle N x (fst s2) \<noteq> None"])
      (simp add: prev connection_lawsD(5) [OF laws stored])
qed

end
