(* ===== verification/Node_Properties.thy ===== *)
theory Node_Properties
  imports Light_Node Demo_Storage
begin

text \<open>
  The properties of the node as a whole, and a small node core to try them on: its state is the
  list of the blocks it has and the table of connections.
\<close>

section \<open>A small node core\<close>

type_synonym demo_n = "block_id list \<times> (block_id \<Rightarrow> connection \<Rightarrow> block_id option)"

definition demo_prev :: block_id where
  "demo_prev = \<lparr>shard = MASTERCHAIN, seqno = 6, root_hash = 1, file_hash = 8\<rparr>"

definition demo_core :: "(demo_n, block_id, dcell) node_core" where
  "demo_core =
     \<lparr>co_is_key_block = (\<lambda>block. False), co_construct_prev_id = (\<lambda>block. Inr (demo_prev, None)),
      co_split = (\<lambda>s. None),
      co_store_block_data = (\<lambda>block m (hs, c). (Inr (bs_id block), (bs_id block # hs, c))),
      co_load_handle = (\<lambda>b (hs, c). if b \<in> set hs then Some b else None),
      co_store_connection = (\<lambda>h d b (hs, c). (hs, c(h := (c h)(d \<mapsto> b)))),
      co_proof_signatures = (\<lambda>h n. (Inr (Some demo_signed), n)),
      co_archives_gc = True, co_move_into_archive = (\<lambda>h key n. (Inr (), n))\<rparr>"

lemma demo_core_laws: "connection_laws demo_core (\<lambda>h. h) snd"
  by (auto simp: connection_laws_def demo_core_def split: if_splits)

definition demo_cx :: "(dcell, unit) block_cx" where
  "demo_cx = \<lparr>bx_mc_block_id = bs_id (demo_stuff 7), bx_mc_is_key_block = False, bx_is_key_block = False,
     bx_block = demo_stuff 7, bx_custom = Inr ()\<rparr>"

definition demo_n :: demo_n where
  "demo_n = ([demo_prev], \<lambda>b d. None)"

lemma demo_prepare:
  "\<exists>n1 st1. prepare_block_impl demo_env demo_core (\<lambda>_. False) 2500 demo_cx (demo_n, demo_storage) =
     (Inr (bs_id (demo_stuff 7)), (n1, st1))"
proof -
  obtain st1 where store: "store_block demo_env (\<lambda>_. False) 2500 (demo_stuff 7) demo_signed 7 demo_storage = (Inr (), st1)"
    using demo_store by (cases "store_block demo_env (\<lambda>_. False) 2500 (demo_stuff 7) demo_signed 7 demo_storage") auto
  have ids: "seqno (bs_id (demo_stuff 7)) = 7" "bs_gen_utime (demo_stuff 7) = Inr 2000"
    "shard (bs_id (demo_stuff 7)) = MASTERCHAIN"
    by (simp_all add: demo_stuff_def)
  show ?thesis
    by (simp add: prepare_block_impl_def Let_def demo_cx_def bnd_def on_core_def on_proofs_def get_block_handle_def
        rs_apply store_connections_def next_direction_def store_next_def block_signatures_of_def demo_mc
        demo_core_def demo_n_def ids store demo_prev_def)
qed

section \<open>What the subscriber stores\<close>

text \<open>C10. Once the node has prepared a block, its connections lead to its predecessors, and those of
  the predecessors it had before lead back: after a merge both to the block, after a split the
  second next block of the predecessor is its right child. No other connection has changed.\<close>

theorem subscriber_links_blocks:
  assumes laws: "connection_laws N hid conn"
    and run: "prepare_block_impl E N cancelled now cx (n, st) = (Inr handle, (n1, st1))"
    and bid: "bid = bs_id (bx_block cx)"
  shows "\<exists>prev_id alt. co_construct_prev_id N (bx_block cx) = Inr (prev_id, alt) \<and> hid handle = bid \<and>
    conn n1 bid Prev1 = Some prev_id \<and>
    conn n1 bid Prev2 = (case alt of None \<Rightarrow> conn n bid Prev2 | Some a \<Rightarrow> Some a) \<and>
    (co_load_handle N prev_id n \<noteq> None \<longrightarrow> conn n1 prev_id (follows_by N prev_id alt bid) = Some bid) \<and>
    (\<forall>a. alt = Some a \<and> co_load_handle N a n \<noteq> None \<longrightarrow> conn n1 a Next1 = Some bid) \<and>
    (\<forall>x d. conn n1 x d \<noteq> conn n x d \<longrightarrow>
       x = bid \<and> d \<in> {Prev1, Prev2} \<or>
       conn n1 x d = Some bid \<and> (x = prev_id \<and> d = follows_by N prev_id alt bid \<or> Some x = alt \<and> d = Next1))"
proof -
  from prepare_block_impl_links [OF laws run] bid obtain prev_id alt known where
    prev: "co_construct_prev_id N (bx_block cx) = Inr (prev_id, alt)" "hid handle = bid" and
    known: "\<And>x. co_load_handle N x n \<noteq> None \<Longrightarrow> known x" and
    tab: "conn n1 = linked_table known (follows_by N prev_id alt bid) bid prev_id alt (conn n)"
    by blast
  have dir: "follows_by N prev_id alt bid = Next1 \<or> follows_by N prev_id alt bid = Next2 \<and> alt = None"
    by (auto simp: follows_by_def)
  have "conn n1 bid Prev1 = Some prev_id" by (simp add: tab linked_table_def)
  moreover have "conn n1 bid Prev2 = (case alt of None \<Rightarrow> conn n bid Prev2 | Some a \<Rightarrow> Some a)"
    using dir by (cases alt) (auto simp: tab linked_table_def)
  moreover have "co_load_handle N prev_id n \<noteq> None \<longrightarrow> conn n1 prev_id (follows_by N prev_id alt bid) = Some bid"
    using dir known [of prev_id] by (auto simp: tab linked_table_def)
  moreover have "\<forall>a. alt = Some a \<and> co_load_handle N a n \<noteq> None \<longrightarrow> conn n1 a Next1 = Some bid"
    using known by (auto simp: tab linked_table_def)
  moreover have "\<forall>x d. conn n1 x d \<noteq> conn n x d \<longrightarrow>
       x = bid \<and> d \<in> {Prev1, Prev2} \<or>
       conn n1 x d = Some bid \<and> (x = prev_id \<and> d = follows_by N prev_id alt bid \<or> Some x = alt \<and> d = Next1)"
    by (auto simp: tab linked_table_def)
  ultimately show ?thesis using prev by blast
qed

lemma subscriber_links_blocks_witness:
  "\<exists>n1 :: demo_n. snd n1 (bs_id (demo_stuff 7)) Prev1 = Some demo_prev \<and>
     snd n1 demo_prev Next1 = Some (bs_id (demo_stuff 7))"
proof -
  from demo_prepare obtain n1 st1 where
    run: "prepare_block_impl demo_env demo_core (\<lambda>_. False) 2500 demo_cx (demo_n, demo_storage) =
      (Inr (bs_id (demo_stuff 7)), (n1, st1))" by blast
  have "bx_block demo_cx = demo_stuff 7" by (simp add: demo_cx_def)
  moreover have "co_load_handle demo_core demo_prev demo_n \<noteq> None" by (simp add: demo_core_def demo_n_def)
  moreover have "follows_by demo_core demo_prev None (bs_id (demo_stuff 7)) = Next1"
    by (simp add: follows_by_def demo_prev_def demo_stuff_def)
  ultimately show ?thesis
    using subscriber_links_blocks [OF demo_core_laws run refl] by (auto simp: demo_core_def)
qed



end
