(* ===== verification/Json_Values.thy ===== *)
theory Json_Values
  imports Prelude
begin

text \<open>
  JSON values and what \<open>derive(Deserialize)\<close> makes of them for the structs of the sources: fields
  in any order, unknown fields skipped, a field twice refused, a missing field allowed for an
  \<open>Option\<close> or a field with a default only; an array is read field by field. Numbers with a
  fraction and the text of a value belong to the parser and are left out.
\<close>

datatype json = JNull | JBool bool | JInt int | JStr string | JArr "json list" | JObj "(string \<times> json) list"

section \<open>Reading values\<close>

text \<open>What was found for each field; the struct is refused when one occurs twice.\<close>

definition struct_fields :: "string list \<Rightarrow> json \<Rightarrow> json option list option" where
  "struct_fields names v =
     (case v of
        JObj kvs \<Rightarrow>
          if distinct (filter (\<lambda>k. k \<in> set names) (map fst kvs)) then Some (map (map_of kvs) names) else None
      | JArr vs \<Rightarrow> if length vs = length names then Some (map Some vs) else None
      | _ \<Rightarrow> None)"

text \<open>With a default for every field, an array may also end early.\<close>

definition struct_fields_default :: "string list \<Rightarrow> json \<Rightarrow> json option list option" where
  "struct_fields_default names v =
     (case v of
        JArr vs \<Rightarrow>
          if length vs \<le> length names then Some (map Some vs @ replicate (length names - length vs) None) else None
      | _ \<Rightarrow> struct_fields names v)"

definition de_option :: "(json \<Rightarrow> 'a option) \<Rightarrow> json option \<Rightarrow> 'a option option" where
  "de_option de v =
     (case v of None \<Rightarrow> Some None | Some JNull \<Rightarrow> Some None | Some x \<Rightarrow> map_option Some (de x))"

definition de_default :: "'a \<Rightarrow> (json \<Rightarrow> 'a option) \<Rightarrow> json option \<Rightarrow> 'a option" where
  "de_default d de v = (case v of None \<Rightarrow> Some d | Some x \<Rightarrow> de x)"

definition de_required :: "(json \<Rightarrow> 'a option) \<Rightarrow> json option \<Rightarrow> 'a option" where
  "de_required de v = Option.bind v de"

fun de_str :: "json \<Rightarrow> string option" where
  "de_str (JStr s) = Some s"
| "de_str _ = None"

fun de_u32 :: "json \<Rightarrow> u32 option" where
  "de_u32 (JInt n) = (if 0 \<le> n \<and> n < 2 ^ 32 then Some (word_of_int n) else None)"
| "de_u32 _ = None"

fun de_i32 :: "json \<Rightarrow> i32 option" where
  "de_i32 (JInt n) = (if - (2 ^ 31) \<le> n \<and> n < 2 ^ 31 then Some (word_of_int n) else None)"
| "de_i32 _ = None"

fun de_u16 :: "json \<Rightarrow> u16 option" where
  "de_u16 (JInt n) = (if 0 \<le> n \<and> n < 2 ^ 16 then Some (word_of_int n) else None)"
| "de_u16 _ = None"

fun de_u64_number :: "json \<Rightarrow> u64 option" where
  "de_u64_number (JInt n) = (if 0 \<le> n \<and> n < 2 ^ 64 then Some (word_of_int n) else None)"
| "de_u64_number _ = None"

fun all_some :: "'a option list \<Rightarrow> 'a list option" where
  "all_some [] = Some []"
| "all_some (None # xs) = None"
| "all_some (Some x # xs) = map_option ((#) x) (all_some xs)"

fun de_vec :: "(json \<Rightarrow> 'a option) \<Rightarrow> json \<Rightarrow> 'a list option" where
  "de_vec de (JArr vs) = all_some (map de vs)"
| "de_vec de _ = None"

text \<open>A struct with one field.\<close>

definition de_single :: "string \<Rightarrow> (json option \<Rightarrow> 'a option) \<Rightarrow> json \<Rightarrow> 'a option" where
  "de_single name de v =
     (case struct_fields [name] v of Some [x] \<Rightarrow> de x | _ \<Rightarrow> None)"

section \<open>Decimal numbers in strings\<close>

text \<open>\<open>FromStr\<close> of the unsigned integers: an empty string, a lone sign and a number that does not fit
  are errors, a leading plus is skipped.\<close>

definition dec_digit :: "char \<Rightarrow> nat option" where
  "dec_digit c =
     (let n = of_char c :: nat in if 48 \<le> n \<and> n \<le> 57 then Some (n - 48) else None)"

fun dec_loop :: "'a::len word \<Rightarrow> string \<Rightarrow> 'a word option" where
  "dec_loop acc [] = Some acc"
| "dec_loop acc (c # cs) =
     (case dec_digit c of
        None \<Rightarrow> None
      | Some d \<Rightarrow>
          (case checked_mul acc 10 of
             None \<Rightarrow> None
           | Some m \<Rightarrow> (case checked_add m (word_of_nat d) of None \<Rightarrow> None | Some acc \<Rightarrow> dec_loop acc cs)))"

definition parse_uint :: "string \<Rightarrow> 'a::len word option" where
  "parse_uint s = (if s = [] \<or> s = ''+'' \<or> s = ''-'' then None
     else dec_loop 0 (if hd s = CHR ''+'' then tl s else s))"

section \<open>Facts\<close>

lemma de_single_field [simp]: "de_single name de (JObj [(name, v)]) = de (Some v)"
  by (simp add: de_single_def struct_fields_def)

lemma all_some_map: "(\<And>x. x \<in> set xs \<Longrightarrow> f x = Some (g x)) \<Longrightarrow> all_some (map f xs) = Some (map g xs)"
  by (induction xs) auto

lemma de_u32_uint [simp]: "de_u32 (JInt (uint w)) = Some (w :: u32)"
  using unsigned_less [where ?'a = int, of w] by simp

declare de_u32.simps(1) [simp del]

lemma de_i32_sint [simp]: "de_i32 (JInt (sint w)) = Some (w :: i32)"
  using sint_ge [of w] sint_lt [of w] by simp

declare de_i32.simps(1) [simp del]

end
