(* ===== verification/Jrpc_Client.thy ===== *)
theory Jrpc_Client
  imports Json_Values Serde_Helpers Chain_Clients
begin

text \<open>
  The JSON-RPC client \<open>JrpcClient\<close> of \<open>sync-service/src/util/jrpc_client.rs\<close>: the request object of each
  call and what is read from the response, and over it the client of a Tycho network,
  \<open>sync-service/src/client/tycho.rs\<close>. Sending a request and taking the text of the response apart
  into entries is the argument \<open>jl_post\<close>; serialising addresses, hashes and cells and reading a
  typed value are arguments too.
\<close>

section \<open>Requests\<close>

definition jrpc_request :: "string \<Rightarrow> json \<Rightarrow> json" where
  "jrpc_request method params =
     JObj [(''jsonrpc'', JStr ''2.0''), (''id'', JInt 1), (''method'', JStr method), (''params'', params)]"

record 'g latest_blockchain_config =
  lc_global_id :: i32
  lc_seqno :: u32
  lc_config :: 'g

record block_proof_response =
  bp_block_id :: "block_id option"
  bp_proof :: "string option"

text \<open>\<open>'v\<close> is a raw value of the response and \<open>'e\<close> an error of its parser.\<close>

record ('w, 'v, 'e, 'c, 'i, 'g) jrpc_lib =
  jl_post :: "json \<Rightarrow> ('w, any_error, ('e + json_field \<times> 'v) list) rs"
  jl_raw_text :: "'v \<Rightarrow> string"
  jl_addr :: "std_addr \<Rightarrow> json"
  jl_hash :: "hash_bytes \<Rightarrow> json"
  jl_boc :: "'c \<Rightarrow> json"
  jl_string_u64 :: "u64 \<Rightarrow> json"
  jl_option_string_u64 :: "u64 option \<Rightarrow> json"
  jl_read_unit :: "'v \<Rightarrow> 'e + unit"
  jl_read_library :: "'v \<Rightarrow> 'e + 'c option"
  jl_read_strings :: "'v \<Rightarrow> 'e + string list"
  jl_read_option_string :: "'v \<Rightarrow> 'e + string option"
  jl_read_config :: "'v \<Rightarrow> 'e + 'g latest_blockchain_config"
  jl_read_block_proof :: "'v \<Rightarrow> 'e + block_proof_response"
  jl_read_account_state :: "'v \<Rightarrow> 'e + 'i account_state_response"

text \<open>The error of a call: the error the server sent, as its text, or one of reading the response.\<close>

fun jrpc_failure :: "('v \<Rightarrow> string) \<Rightarrow> ('e, 'v) jrpc_error \<Rightarrow> any_error" where
  "jrpc_failure raw_text (Rejected v) = Msg (raw_text v)"
| "jrpc_failure raw_text _ = Msg ''invalid JRPC response''"

definition rpc_call ::
  "('w, 'v, 'e, 'c, 'i, 'g) jrpc_lib \<Rightarrow> ('v \<Rightarrow> 'e + 'a) \<Rightarrow> string \<Rightarrow> json \<Rightarrow> ('w, 'a) call" where
  "rpc_call J read_result method params =
     bnd (jl_post J (jrpc_request method params)) (\<lambda>entries.
     of_result (map_err (jrpc_failure (jl_raw_text J)) (jrpc_post read_result entries)))"

definition rpc_send_message :: "('w, 'v, 'e, 'c, 'i, 'g) jrpc_lib \<Rightarrow> 'c \<Rightarrow> ('w, unit) call" where
  "rpc_send_message J message =
     rpc_call J (jl_read_unit J) ''sendMessage'' (JObj [(''message'', jl_boc J message)])"

definition rpc_get_library_cell :: "('w, 'v, 'e, 'c, 'i, 'g) jrpc_lib \<Rightarrow> hash_bytes \<Rightarrow> ('w, 'c option) call" where
  "rpc_get_library_cell J h = rpc_call J (jl_read_library J) ''getLibraryCell'' (JObj [(''hash'', jl_hash J h)])"

text \<open>Without a logical time the newest transactions are asked for.\<close>

definition rpc_get_transactions ::
  "('w, 'v, 'e, 'c, 'i, 'g) jrpc_lib \<Rightarrow> std_addr \<Rightarrow> u64 option \<Rightarrow> u8 \<Rightarrow> ('w, string list) call" where
  "rpc_get_transactions J account last_transaction_lt limit =
     rpc_call J (jl_read_strings J) ''getTransactionsList''
       (JObj [(''account'', jl_addr J account),
              (''lastTransactionLt'', jl_string_u64 J (case last_transaction_lt of None \<Rightarrow> -1 | Some lt \<Rightarrow> lt)),
              (''limit'', JInt (uint limit))])"

definition rpc_get_dst_transaction ::
  "('w, 'v, 'e, 'c, 'i, 'g) jrpc_lib \<Rightarrow> hash_bytes \<Rightarrow> ('w, string option) call" where
  "rpc_get_dst_transaction J message_hash =
     rpc_call J (jl_read_option_string J) ''getDstTransaction'' (JObj [(''messageHash'', jl_hash J message_hash)])"

definition rpc_get_latest_config :: "('w, 'v, 'e, 'c, 'i, 'g) jrpc_lib \<Rightarrow> ('w, 'g latest_blockchain_config) call" where
  "rpc_get_latest_config J = rpc_call J (jl_read_config J) ''getBlockchainConfig'' JNull"

definition rpc_get_key_block_proof ::
  "('w, 'v, 'e, 'c, 'i, 'g) jrpc_lib \<Rightarrow> u32 \<Rightarrow> ('w, block_proof_response) call" where
  "rpc_get_key_block_proof J n =
     rpc_call J (jl_read_block_proof J) ''getKeyBlockProof'' (JObj [(''seqno'', JInt (uint n))])"

definition rpc_get_account_state ::
  "('w, 'v, 'e, 'c, 'i, 'g) jrpc_lib \<Rightarrow> std_addr \<Rightarrow> u64 option \<Rightarrow> ('w, 'i account_state_response) call" where
  "rpc_get_account_state J addr last_transaction_lt =
     rpc_call J (jl_read_account_state J) ''getContractState''
       (JObj [(''address'', jl_addr J addr),
              (''last_transaction_lt'', jl_option_string_u64 J last_transaction_lt)])"

section \<open>The client of a Tycho network\<close>

record signature_context =
  sc_global_id :: i32
  sc_capabilities :: u64

record ('c, 't, 'g) boc64_lib =
  b64_cell :: "string \<Rightarrow> error + 'c"
  b64_lazy_tx :: "string \<Rightarrow> error + 't"
  b64_capabilities :: "'g \<Rightarrow> error + u64"

text \<open>A call of the RPC whose result is handed on through a function that may fail.\<close>

definition then_result :: "('w, 'a) call \<Rightarrow> ('a \<Rightarrow> any_error + 'b) \<Rightarrow> ('w, 'b) call" where
  "then_result m f = bnd m (\<lambda>a. of_result (f a))"

definition tycho_signature_context ::
  "('w, 'v, 'e, 'c, 'i, 'g) jrpc_lib \<Rightarrow> ('c, 't, 'g) boc64_lib \<Rightarrow> ('w, signature_context) call" where
  "tycho_signature_context J D =
     then_result (rpc_get_latest_config J) (\<lambda>current.
       bindR (map_err Lib (b64_capabilities D (lc_config current))) (\<lambda>capabilities.
       Inr \<lparr>sc_global_id = lc_global_id current, sc_capabilities = capabilities\<rparr>))"

definition tycho_latest_key_block_seqno :: "('w, 'v, 'e, 'c, 'i, 'g) jrpc_lib \<Rightarrow> ('w, u32) call" where
  "tycho_latest_key_block_seqno J = then_result (rpc_get_latest_config J) (\<lambda>current. Inr (lc_seqno current))"

definition tycho_blockchain_config :: "('w, 'v, 'e, 'c, 'i, 'g) jrpc_lib \<Rightarrow> ('w, 'g) call" where
  "tycho_blockchain_config J = then_result (rpc_get_latest_config J) (\<lambda>current. Inr (lc_config current))"

definition tycho_key_block ::
  "('c, 's, 'u, 'h, 'g) cell_lib \<Rightarrow> ('c, 's, 'u, 'g) chain_lib \<Rightarrow> ('w, 'v, 'e, 'c, 'i, 'g) jrpc_lib \<Rightarrow>
   ('c, 't, 'g) boc64_lib \<Rightarrow> u32 \<Rightarrow> ('w, 'c key_block_data) call" where
  "tycho_key_block L H J D n =
     then_result (rpc_get_key_block_proof J n) (\<lambda>res.
       tycho_get_key_block L H (\<lambda>_. Inr \<lparr>ta_block_id = bp_block_id res,
         ta_proof = map_option (b64_cell D) (bp_proof res)\<rparr>) n)"

definition tycho_transactions ::
  "('w, 'v, 'e, 'c, 'i, 'g) jrpc_lib \<Rightarrow> ('c, 't, 'g) boc64_lib \<Rightarrow> ('t \<Rightarrow> hash_bytes) \<Rightarrow>
   std_addr \<Rightarrow> u64 \<Rightarrow> hash_bytes \<Rightarrow> u8 \<Rightarrow> ('w, 't list) call" where
  "tycho_transactions J D hash_of account lt h n =
     then_result (rpc_get_transactions J account (Some lt) n) (\<lambda>transactions.
       tycho_check_transactions hash_of h (map (b64_lazy_tx D) transactions))"

definition tycho_client ::
  "('c, 's, 'u, 'h, 'g) cell_lib \<Rightarrow> ('c, 's, 'u, 'g) chain_lib \<Rightarrow> ('w, 'v, 'e, 'c, 'i, 'g) jrpc_lib \<Rightarrow>
   ('c, 't, 'g) boc64_lib \<Rightarrow> ('t \<Rightarrow> hash_bytes) \<Rightarrow> ('w, 'c, 'i, 't, signature_context) network_client" where
  "tycho_client L H J D hash_of =
     \<lparr>nc_signature_context = tycho_signature_context J D,
      nc_latest_key_block_seqno = tycho_latest_key_block_seqno J,
      nc_key_block = tycho_key_block L H J D,
      nc_library_cell = rpc_get_library_cell J,
      nc_account_state = rpc_get_account_state J,
      nc_transactions = tycho_transactions J D hash_of,
      nc_send_message = rpc_send_message J,
      nc_key_block_proof = make_key_block_proof_to_sync L (tycho_models L)\<rparr>"

section \<open>The client of an older network\<close>

text \<open>
  \<open>sync-service/src/client/legacy.rs\<close>: over GraphQL only key blocks can be had. The answers to its
  three queries are arguments.
\<close>

record ('w, 'c) gql_lib =
  gl_key_block_seqnos :: "('w, u32 list) call"
  gl_key_block_bocs :: "('w, 'c list) call"
  gl_block_by_seqno :: "u32 \<Rightarrow> ('w, 'c gql_block option) call"

definition first_edge :: "'a list \<Rightarrow> any_error + 'a" where
  "first_edge edges = (case edges of [] \<Rightarrow> Inl (Msg ''no keyblocks found'') | item # _ \<Rightarrow> Inr item)"

definition unimplemented :: "('w, 'a) call" where
  "unimplemented = fail (Msg ''unimplemented'')"

definition legacy_latest_key_block_seqno :: "('w, 'c) gql_lib \<Rightarrow> ('w, u32) call" where
  "legacy_latest_key_block_seqno G = then_result (gl_key_block_seqnos G) first_edge"

definition legacy_config_of ::
  "('c, 's, 'u, 'h, 'g) cell_lib \<Rightarrow> 'c \<Rightarrow> any_error + 'g" where
  "legacy_config_of L boc =
     (let M = legacy_models L in
      bindR (map_err Lib (run_io (bnd (parse L (m_load_block M) boc) (\<lambda>block.
               bnd (m_load_extra M block) (m_load_custom M))) (usage_new L))) (\<lambda>extra.
      bindR (ok_or (Msg ''mc extra expected for masterchain block'') extra) (\<lambda>extra.
      ok_or (Msg ''keyblock must contain config'') (m_config M extra))))"

definition legacy_blockchain_config ::
  "('c, 's, 'u, 'h, 'g) cell_lib \<Rightarrow> ('w, 'c) gql_lib \<Rightarrow> ('w, 'g) call" where
  "legacy_blockchain_config L G =
     then_result (gl_key_block_bocs G) (\<lambda>edges. bindR (first_edge edges) (legacy_config_of L))"

definition legacy_key_block ::
  "('c, 's, 'u, 'h, 'g) cell_lib \<Rightarrow> ('c, 's, 'u, 'g) chain_lib \<Rightarrow> ('w, 'c) gql_lib \<Rightarrow> u32 \<Rightarrow>
   ('w, 'c key_block_data) call" where
  "legacy_key_block L H G n =
     then_result (gl_block_by_seqno G n) (\<lambda>res. legacy_get_key_block L H (\<lambda>_. Inr res) n)"

definition legacy_client ::
  "('c, 's, 'u, 'h, 'g) cell_lib \<Rightarrow> ('c, 's, 'u, 'g) chain_lib \<Rightarrow> ('w, 'c) gql_lib \<Rightarrow>
   ('w, 'c, 'i, 't, 'x) network_client" where
  "legacy_client L H G =
     \<lparr>nc_signature_context = unimplemented,
      nc_latest_key_block_seqno = legacy_latest_key_block_seqno G,
      nc_key_block = legacy_key_block L H G,
      nc_library_cell = (\<lambda>lib_hash. unimplemented),
      nc_account_state = (\<lambda>addr known_lt. unimplemented),
      nc_transactions = (\<lambda>addr lt h n. unimplemented),
      nc_send_message = (\<lambda>message. unimplemented),
      nc_key_block_proof = make_key_block_proof_to_sync L (legacy_models L)\<rparr>"

lemma then_result_InrE:
  assumes "then_result m f w = (Inr b, w1)"
  obtains a where "m w = (Inr a, w1)" and "f a = Inr b"
  using assms by (auto simp: then_result_def rs_apply elim!: bnd_InrE)

text \<open>A call of the RPC succeeds exactly when the response has the one readable result.\<close>

lemma rpc_call_iff:
  "rpc_call J read_result method params w = (Inr a, w1) \<longleftrightarrow>
   (\<exists>entries v. jl_post J (jrpc_request method params) w = (Inr entries, w1) \<and>
      filter matters entries = [Inr (FieldResult, v)] \<and> read_result v = Inr a)"
  by (auto simp: rpc_call_def bnd_def rs_apply jrpc_post_iff split: prod.splits sum.splits)

end
