(* ===== verification/Sync_Service.thy ===== *)
theory Sync_Service
  imports Uploader Jrpc_Client Getter
begin

text \<open>
  The sync service put together: the locale \<open>described_client\<close> is what the uploader can rely on
  of a source network, which the clients of \<open>Jrpc_Client\<close> interpret; \<open>Uploader::new\<close> of
  \<open>sync-service/src/service/mod.rs\<close> builds the environment of the uploader from a configuration;
  and the epoch of the bridge is read by running a getter of its contract.
\<close>

section \<open>What a source network says of its key blocks\<close>

text \<open>Every key block the client returns is what its root says, and the proof is built from the root.\<close>

definition described_block ::
  "('c, 's, 'u, 'h, 'g) cell_lib \<Rightarrow> ('c \<Rightarrow> any_error + u32 \<times> 'g) \<Rightarrow> ('c, 's, 'u, 'g) chain_lib \<Rightarrow>
   ('c key_block_data \<Rightarrow> any_error + 'c) \<Rightarrow> 'c key_block_data \<Rightarrow> bool" where
  "described_block L reads_root H proof_of d \<longleftrightarrow>
     (\<exists>config. reads_root (kb_root d) = Inr (kb_prev_seqno d, config) \<and>
        cl_current_vset H config = Inr (kb_current_vset d) \<and>
        cl_previous_vset H config = Inr (kb_prev_vset d)) \<and>
     (\<forall>p. proof_of d = Inr p \<longrightarrow> hash0 L p = hash0 L (kb_root d))"

locale described_client =
  fixes C :: "('w, 'c, 'i, 't, 'x) network_client"
    and L :: "('c, 's, 'u, 'h, 'g) cell_lib"
    and reads_root :: "'c \<Rightarrow> any_error + u32 \<times> 'g"
    and H :: "('c, 's, 'u, 'g) chain_lib"
  assumes described: "nc_key_block C n w = (Inr d, w1) \<Longrightarrow>
      described_block L reads_root H (nc_key_block_proof C) d"
begin

text \<open>
  After any rounds, a round that succeeds sent nothing, or a key block newer than the epoch of the
  bridge that is what its root says, and the bridge applied it.
\<close>

lemma sent_described:
  assumes "se_src E = C" and "run_rounds n E (u, w0) = Some s" and "up_cache u = []"
    and "sync_key_blocks E s = Some (Inr (), s1)"
  shows "up_min_bridge_state_lt (fst s1) = up_min_bridge_state_lt (fst s) \<or>
    (\<exists>since d raw_tx tx. bridge_epoch E (up_min_bridge_state_lt (fst s)) since \<and>
      since < utime_since (kb_current_vset d) \<and>
      described_block L reads_root H (nc_key_block_proof C) d \<and>
      applied_tx E d raw_tx tx \<and> up_min_bridge_state_lt (fst s1) = t_lt tx)"
proof -
  have "cache_from (se_src E) (fst (u, w0))" by (simp add: cache_from_def assms(3))
  then have "cache_from (se_src E) (fst s)"
    by (intro run_rounds_keep [OF keeps_cache_from _ assms(2)]) (simp_all add: untouched_def cache_from_def)
  from sync_answered [OF assms(4) this] show ?thesis
    unfolding answered_def assms(1) using described by blast
qed

end

abbreviation reads_tycho :: "('c, 's, 'u, 'h, 'g) cell_lib \<Rightarrow> 'c \<Rightarrow> any_error + u32 \<times> 'g" where
  "reads_tycho L \<equiv> read_key_block L (tycho_models L) tycho_prev_key_block_seqno"

abbreviation reads_legacy :: "('c, 's, 'u, 'h, 'g) cell_lib \<Rightarrow> 'c \<Rightarrow> any_error + u32 \<times> 'g" where
  "reads_legacy L \<equiv> read_key_block L (legacy_models L) legacy_prev_key_block_seqno"

lemma sync_proof_hash:
  "make_key_block_proof_to_sync L M d = Inr p \<Longrightarrow> hash0 L p = hash0 L (kb_root d)"
  using make_key_block_proof_hash by (auto simp: make_key_block_proof_to_sync_def)

interpretation tycho_net: described_client "tycho_client L H J D hash_of" L "reads_tycho L" H
  for L :: "('c, 's, 'u, 'h, 'g) cell_lib" and H and J :: "('w, 'v, 'e, 'c, 'i, 'g) jrpc_lib"
    and D :: "('c, 't, 'g) boc64_lib" and hash_of
proof
  fix n w d w1
  assume "nc_key_block (tycho_client L H J D hash_of) n w = (Inr d, w1)"
  then obtain rpc where "tycho_get_key_block L H rpc n = Inr d"
    by (auto simp: tycho_client_def tycho_key_block_def elim!: then_result_InrE)
  from tycho_source.described [OF this] show "described_block L (reads_tycho L) H
      (nc_key_block_proof (tycho_client L H J D hash_of)) d"
    unfolding described_block_def by (auto simp: tycho_client_def dest: sync_proof_hash)
qed

interpretation legacy_net: described_client "legacy_client L H G" L "reads_legacy L" H
  for L :: "('c, 's, 'u, 'h, 'g) cell_lib" and H and G :: "('w, 'c) gql_lib"
proof
  fix n w d w1
  assume "nc_key_block (legacy_client L H G) n w = (Inr d, w1)"
  then obtain post where "legacy_get_key_block L H post n = Inr d"
    by (auto simp: legacy_client_def legacy_key_block_def elim!: then_result_InrE)
  from legacy_source.described [OF this] show "described_block L (reads_legacy L) H
      (nc_key_block_proof (legacy_client L H G)) d"
    unfolding described_block_def by (auto simp: legacy_client_def dest: sync_proof_hash)
qed

section \<open>Building the uploader\<close>

text \<open>Intervals are in milliseconds, the one between rounds in seconds and nanoseconds.\<close>

record uploader_config =
  uc_bridge_address :: std_addr
  uc_wallet_address :: std_addr
  uc_wallet_secret :: hash_bytes
  uc_lib_store_value :: u128
  uc_store_vset_value :: u128
  uc_min_required_balance :: u128
  uc_poll_interval :: "u64 \<times> u32"
  uc_retry_interval :: u64
  uc_wallet_balance_refresh_interval :: u64

text \<open>
  What the service takes from its libraries: the wallet for a secret key, the virtual machine for
  a blockchain config and an account, code and data of an active account.
\<close>

record ('w, 'c, 'i, 't, 'x, 'b, 'si, 'm, 'v, 'g, 'y) service_lib =
  sv_tx :: "'t tx_lib"
  sv_wallet :: "hash_bytes \<Rightarrow> ('w, 'c, 'b, 'si, 'm, 'x) wallet_lib"
  sv_key_hash :: "hash_bytes \<Rightarrow> hash_bytes"
  sv_vm :: "'g \<Rightarrow> account \<Rightarrow> 'i \<Rightarrow> ('c, 'v, 'y) vm_lib"
  sv_code :: "account \<Rightarrow> 'i \<Rightarrow> 'c option"
  sv_data :: "account \<Rightarrow> 'i \<Rightarrow> 'c option"
  sv_crc_16 :: "string \<Rightarrow> u16"
  sv_stack_u32 :: "'v \<Rightarrow> any_error + u32"
  sv_now_sec :: "'w \<Rightarrow> u64"
  sv_random_id :: "'w \<Rightarrow> u128"

definition wallet_new :: "('w, 'c, 'b, 'si, 'm, 'x) wallet_lib \<Rightarrow> u8 \<Rightarrow> u128 \<Rightarrow> wallet" where
  "wallet_new W wc min_required_balance =
     \<lparr>wa_address = wl_compute_address W wc (wl_wallet_init W), wa_min_required_balance = min_required_balance\<rparr>"

lemma wallet_new_min [simp]: "wa_min_required_balance (wallet_new W wc m) = m"
  by (simp add: wallet_new_def)

definition run_getter ::
  "('w, 'c, 'i, 't, 'x, 'b, 'si, 'm, 'v, 'g, 'y) service_lib \<Rightarrow> 'g \<Rightarrow> string \<Rightarrow> account \<Rightarrow> 'i \<Rightarrow>
   any_error + 'v getter_output" where
  "run_getter S blockchain_config name account i =
     bindR (call_getter (sv_vm S blockchain_config account i)
              (if ac_state account = Active then ActiveState (sv_code S account i) (sv_data S account i) else NotActive)
              (method_id_of_name (sv_crc_16 S) name) [])
       (\<lambda>result. Inr \<lparr>go_success = vo_success result, go_stack = vo_stack result\<rparr>)"

definition uploader_new ::
  "('w, 'c, 'i, 't, 'x, 'b, 'si, 'm, 'v, 'g, 'y) service_lib \<Rightarrow> ('w, 'c, 'i, 't, 'x) network_client \<Rightarrow>
   ('w, 'c, 'i, 't, 'x) network_client \<Rightarrow> ('w, 'g) call \<Rightarrow> uploader_config \<Rightarrow>
   ('w, ('w, 'c, 'i, 't, 'x, 'b, 'si, 'm, 'v) sync_env \<times> 'c uploader) call" where
  "uploader_new S src dst dst_blockchain_config cfg =
     bnd dst_blockchain_config (\<lambda>blockchain_config.
     let W = sv_wallet S (uc_wallet_secret cfg);
         wa = wallet_new W (addr_workchain (uc_wallet_address cfg)) (uc_min_required_balance cfg) in
     bnd (guard (wa_address wa = uc_wallet_address cfg) (Msg ''wallet address mismatch'')) (\<lambda>_.
     ret (\<lparr>se_src = src, se_dst = dst, se_tx = sv_tx S, se_wallet_lib = W, se_wallet = wa,
            se_key_hash = sv_key_hash S, se_bridge_address = uc_bridge_address cfg,
            se_lib_store_value = uc_lib_store_value cfg, se_store_vset_value = uc_store_vset_value cfg,
            se_refresh_interval = uc_wallet_balance_refresh_interval cfg,
            se_getter = run_getter S blockchain_config ''get_state_short'',
            se_stack_u32 = sv_stack_u32 S, se_now_sec = sv_now_sec S, se_random_id = sv_random_id S\<rparr>,
          update_metrics (\<lambda>m. m\<lparr>um_wallet_min_required_balance := wa_min_required_balance wa\<rparr>) new_uploader)))"

text \<open>The state \<open>Uploader::new\<close> starts from.\<close>

definition started :: "uploader_config \<Rightarrow> 'c uploader" where
  "started cfg =
     update_metrics (\<lambda>m. m\<lparr>um_wallet_min_required_balance := uc_min_required_balance cfg\<rparr>) new_uploader"

lemma started_simps [simp]:
  "up_cache (started cfg) = []" "up_min_bridge_state_lt (started cfg) = 0"
  by (simp_all add: started_def new_uploader_def)

lemma uploader_new_InrE:
  assumes "uploader_new S src dst config_call cfg w = (Inr (E, u), w1)"
  obtains blockchain_config where "config_call w = (Inr blockchain_config, w1)" and "u = started cfg"
    and "se_src E = src" and "se_dst E = dst" and "se_bridge_address E = uc_bridge_address cfg"
    and "wa_address (se_wallet E) = uc_wallet_address cfg"
    and "se_getter E = run_getter S blockchain_config ''get_state_short''" and "se_stack_u32 E = sv_stack_u32 S"
  using assms by (auto simp: uploader_new_def Let_def started_def elim!: rs_elims)

section \<open>The epoch of the bridge\<close>

text \<open>
  The getter only ever runs on an active account, so a failure is one of the virtual machine or
  an account without code.
\<close>

lemma epoch_from_getter:
  assumes "se_getter E = run_getter S blockchain_config name" and "bridge_epoch E min_lt since"
  shows "\<exists>account i timings last_id w w1 code smc exit_code first rest.
    nc_account_state (se_dst E) (se_bridge_address E) None w = (Inr (Exists account i timings last_id), w1) \<and>
    min_lt \<le> gt_lt timings \<and> ac_state account = Active \<and> sv_code S account i = Some code \<and>
    vm_smc_info (sv_vm S blockchain_config account i) = Inr smc \<and>
    vm_run (sv_vm S blockchain_config account i) code
      (case sv_data S account i of None \<Rightarrow> vm_no_data (sv_vm S blockchain_config account i) | Some d \<Rightarrow> d)
      [vm_int (sv_vm S blockchain_config account i) (method_id_of_name (sv_crc_16 S) name)] smc = (exit_code, first # rest) \<and>
    (NOT exit_code = 0 \<or> NOT exit_code = 1) \<and> se_stack_u32 E first = Inr since"
  using assms unfolding bridge_epoch_def run_getter_def call_getter_def epoch_of_output_def Let_def
  by (fastforce split: prod.splits list.splits if_splits)

section \<open>A network that cannot be a destination\<close>

lemma no_answer_no_return:
  assumes "\<And>w r w1. nc_account_state C addr known_lt w \<noteq> (Inr r, w1)"
  shows "account_state_with_retries C addr known_lt w = None"
  using retries_reports [of C addr known_lt w] assms by (cases "account_state_with_retries C addr known_lt w") auto

lemma legacy_no_account: "account_state_with_retries (legacy_client L H G) addr known_lt w = None"
  by (rule no_answer_no_return) (simp add: legacy_client_def unimplemented_def fail_def)

text \<open>
  Rounds whose destination is an older network do not return: the wallet balance and the bridge
  are polled for ever.
\<close>

lemma legacy_destination_round:
  assumes "se_dst E = legacy_client L H G"
  shows "sync_key_blocks E s = None"
proof -
  have balance: "refresh_wallet_balance E s1 = None" for s1
    by (simp add: refresh_wallet_balance_def act_bind_def on_net_def act_loop_def current_balance_def
        assms legacy_no_account)
  have bridge: "bridge_account (se_dst E) addr min_lt w = None" for addr min_lt w
    by (subst bridge_account.simps) (simp add: assms legacy_no_account)
  have epoch: "get_current_epoch_since E s1 = None" for s1
    by (simp add: get_current_epoch_since_def act_bind_def reads_def on_net_def act_loop_def bridge)
  have "refresh_wallet_balance_if_needed E s = None \<or>
      (\<exists>s1. refresh_wallet_balance_if_needed E s = Some (Inr (), s1))"
    by (auto simp: refresh_wallet_balance_if_needed_def balance split: option.splits)
  then show ?thesis
    by (auto simp: sync_key_blocks_def act_bind_def epoch)
qed

end
