(* ===== verification/Service_Properties.thy ===== *)
theory Service_Properties
  imports Sync_Service Demo_Sync
begin

text \<open>
  The properties of the sync service put together, and a small service to try them on: the source
  is an older network with the key blocks 5 and 7, whose epochs start at 10 and 30.
\<close>

section \<open>A small service\<close>

text \<open>The root of a key block: what it says of the one before, and its epoch in the entry 99 of the config.\<close>

definition demo_key_root :: "int \<Rightarrow> int \<Rightarrow> dcell" where
  "demo_key_root prev since =
     DC [0x11ef55aa, 0]
       [DC [0x9bc7a987, 0, 0, 1, 0, 0xffffffff, 0x8000000000000000, 1000, 10, 30, 0, 0, 0, prev] [DC [77] []],
        DC [] [], DC [] [],
        DC [0x4a33f6fd, 100, 200, 1] [DC [] [], DC [] [], demo_accounts,
          DC [0xcca5, 1] [demo_shards, DC [32, 34, 99] [DC [1] [], DC [2] [], DC [since] []]]]]"

definition demo_key_gql :: "u32 \<Rightarrow> dcell gql_block" where
  "demo_key_gql n =
     \<lparr>gb_workchain_id = -1, gb_shard = prefix MASTERCHAIN, gb_seq_no = n, gb_file_hash = 9,
      gb_boc = (if n = 7 then demo_key_root 5 30 else demo_key_root 3 10),
      gb_signatures = Some [\<lparr>gs_node_id = 1, gs_r = 0, gs_s = 5\<rparr>]\<rparr>"

definition demo_gl :: "(u64, dcell) gql_lib" where
  "demo_gl = \<lparr>gl_key_block_seqnos = (\<lambda>w. (Inr [7], w)), gl_key_block_bocs = (\<lambda>w. (Inr [demo_key_root 5 30], w)),
     gl_block_by_seqno = (\<lambda>n w. (Inr (Some (demo_key_gql n)), w))\<rparr>"

definition demo_since :: "(int \<times> dcell) list \<Rightarrow> u32" where
  "demo_since g = (case map_of g 99 of Some (DC [n] rs) \<Rightarrow> of_int n | _ \<Rightarrow> 0)"

definition key_chain :: "(dcell, dslice, dcell list, (int \<times> dcell) list) chain_lib" where
  "key_chain =
     \<lparr>cl_current_vset = (\<lambda>g. Inr (demo_epoch_set (demo_since g))),
      cl_previous_vset = (\<lambda>g. Inr (Some (demo_epoch_set (demo_since g - 20)))),
      cl_merkle_cell = Inr, cl_signature_values = (\<lambda>c. Inr []),
      cl_boc_decode = (\<lambda>bs. Inr (DC [] [])), cl_boc_encode = (\<lambda>c. []), cl_boc_roots = (\<lambda>n bs. Inr []),
      cl_repr_hash = (\<lambda>c. of_int (sum_list (toks c))), cl_load_currency = ret (),
      cl_parse_account = (\<lambda>c. Inr None), cl_shard_accounts = (\<lambda>c. Inr None),
      cl_account_get = (\<lambda>d a. Inr None)\<rparr>"

definition demo_dst :: "(u64, dcell, unit, hash_bytes, signature_context) network_client" where
  "demo_dst =
     \<lparr>nc_signature_context = (\<lambda>w. (Inr \<lparr>sc_global_id = 0, sc_capabilities = 0\<rparr>, w)),
      nc_latest_key_block_seqno = nc_latest_key_block_seqno demo_net,
      nc_key_block = (\<lambda>n w. (Inl (Msg ''key block proof not found''), w)),
      nc_library_cell = nc_library_cell demo_net, nc_account_state = nc_account_state demo_net,
      nc_transactions = nc_transactions demo_net, nc_send_message = nc_send_message demo_net,
      nc_key_block_proof = make_key_block_proof_to_sync demo_lib (ton_models demo_lib)\<rparr>"

text \<open>The wallet is at address 5, the library of the epoch at 77.\<close>

definition demo_service_wallet :: "(u64, dcell, int list \<times> dcell list, unit, unit, signature_context) wallet_lib" where
  "demo_service_wallet =
     \<lparr>wl_builder = sync_builder, wl_repr_hash = (\<lambda>c. 1), wl_lib_store_init = (\<lambda>a n. ()),
      wl_wallet_init = (),
      wl_compute_address = (\<lambda>wc si. \<lparr>addr_workchain = wc, address = if wc = -1 then 77 else 5\<rparr>),
      wl_internal_message = (\<lambda>a b v si body. Inr ()), wl_message_value = (\<lambda>m. Inr 5),
      wl_external_message = (\<lambda>x a f m now e si. Inr (DC [1] [])), wl_tokens_add = (+),
      wl_now_millis = (\<lambda>w. 1000 * w)\<rparr>"

definition demo_vm :: "(dcell, u32, unit) vm_lib" where
  "demo_vm = \<lparr>vm_smc_info = Inr (), vm_int = (\<lambda>n. n), vm_no_data = DC [] [], vm_run = (\<lambda>code data args smc. (-1, [10]))\<rparr>"

definition demo_service ::
  "(u64, dcell, unit, hash_bytes, signature_context, int list \<times> dcell list, unit, unit, u32, (int \<times> dcell) list, unit) service_lib" where
  "demo_service =
     \<lparr>sv_tx = demo_tx, sv_wallet = (\<lambda>key. demo_service_wallet), sv_key_hash = (\<lambda>k. k), sv_vm = (\<lambda>g a i. demo_vm),
      sv_code = (\<lambda>a i. Some (DC [] [])), sv_data = (\<lambda>a i. None), sv_crc_16 = (\<lambda>s. 0), sv_stack_u32 = Inr,
      sv_now_sec = (\<lambda>w. 100 + w), sv_random_id = (\<lambda>w. 4)\<rparr>"

definition demo_cfg :: uploader_config where
  "demo_cfg = \<lparr>uc_bridge_address = demo_addr 6, uc_wallet_address = demo_addr 5, uc_wallet_secret = 0,
     uc_lib_store_value = 20, uc_store_vset_value = 30, uc_min_required_balance = 10,
     uc_poll_interval = (2, 0), uc_retry_interval = 1000,
     uc_wallet_balance_refresh_interval = 60000\<rparr>"

definition demo_src :: "(u64, dcell, unit, hash_bytes, signature_context) network_client" where
  "demo_src = legacy_client demo_lib key_chain demo_gl"

definition demo_up where
  "demo_up = uploader_new demo_service demo_src demo_dst (\<lambda>w. (Inr [], w)) demo_cfg 0"

definition demo_up_round :: "((any_error + unit) \<times> (dcell uploader \<times> u64)) option" where
  "demo_up_round = (case demo_up of (Inr (E, u), w) \<Rightarrow> sync_key_blocks E (u, w) | _ \<Rightarrow> None)"

lemma demo_up_round_result:
  "map_option (\<lambda>(r, u, w). (r, up_min_bridge_state_lt u, w)) demo_up_round = Some (Inr (), 30, 2)"
  by code_simp

lemma demo_wallet_address: "wa_address (wallet_new demo_service_wallet 0 10) = \<lparr>addr_workchain = 0, address = 5\<rparr>"
  by (simp add: wallet_new_def demo_service_wallet_def)

lemma demo_up_created:
  obtains E where "uploader_new demo_service demo_src demo_dst (\<lambda>w. (Inr [], w)) demo_cfg 0 = (Inr (E, started demo_cfg), 0)"
    and "demo_up_round = sync_key_blocks E (started demo_cfg, 0)"
proof -
  have "\<exists>E. uploader_new demo_service demo_src demo_dst (\<lambda>w. (Inr [], w)) demo_cfg 0 = (Inr (E, started demo_cfg), 0)"
    by (simp add: uploader_new_def Let_def bnd_def rs_simps rs_apply demo_service_def demo_cfg_def demo_addr_def
        guard_def demo_wallet_address started_def)
  then show thesis using that by (auto simp: demo_up_round_def demo_up_def)
qed

section \<open>The properties\<close>

text \<open>An uploader between real clients, after any rounds: a round that succeeds sent nothing, or
  it sent a key block the source answered with, newer than the epoch of the bridge and what its
  own root says, and the bridge applied it. The proof that was sent has the hash of that root.
  Nothing is assumed of the source: it may give different answers each time.\<close>

lemma sent_block_is_described:
  assumes "uploader_new S src dst config_call cfg w = (Inr (E, u), w0)"
    and "src = tycho_client L H J D hash_of \<and> reads_root = reads_tycho L \<or>
      src = legacy_client L H G \<and> reads_root = reads_legacy L"
    and "run_rounds n E (u, w1) = Some s" and "sync_key_blocks E s = Some (Inr (), s1)"
  shows "up_min_bridge_state_lt (fst s1) = up_min_bridge_state_lt (fst s) \<or>
    (\<exists>since d raw_tx tx. bridge_epoch E (up_min_bridge_state_lt (fst s)) since \<and>
      since < utime_since (kb_current_vset d) \<and>
      described_block L reads_root H (nc_key_block_proof src) d \<and>
      applied_tx E d raw_tx tx \<and> up_min_bridge_state_lt (fst s1) = t_lt tx)"
proof -
  have E: "se_src E = src" and u: "u = started cfg" using assms(1) by (auto elim: uploader_new_InrE)
  then have "up_cache u = []" by simp
  note rounds = assms(3) this assms(4)
  from assms(2) show ?thesis
  proof
    assume src: "src = tycho_client L H J D hash_of \<and> reads_root = reads_tycho L"
    with tycho_net.sent_described [of E L H J D hash_of, OF _ rounds] E show ?thesis by simp
  next
    assume src: "src = legacy_client L H G \<and> reads_root = reads_legacy L"
    with legacy_net.sent_described [of E L H G, OF _ rounds] E show ?thesis by simp
  qed
qed

lemma sent_block_is_described_witness:
  "\<exists>d. described_block demo_lib (reads_legacy demo_lib) key_chain (nc_key_block_proof demo_src) d"
proof -
  obtain E where new: "uploader_new demo_service demo_src demo_dst (\<lambda>w. (Inr [], w)) demo_cfg 0 = (Inr (E, started demo_cfg), 0)"
    and round: "demo_up_round = sync_key_blocks E (started demo_cfg, 0)" by (rule demo_up_created)
  from demo_up_round_result obtain u1 where run: "sync_key_blocks E (started demo_cfg, 0) = Some (Inr (), (u1, 2))"
    and "up_min_bridge_state_lt u1 = 30" unfolding round by auto
  moreover have "up_min_bridge_state_lt (started demo_cfg :: dcell uploader) = 0" by simp
  moreover have "run_rounds 0 E (started demo_cfg, 0) = Some (started demo_cfg, 0)" by simp
  ultimately show ?thesis
    using sent_block_is_described [OF new disjI2 _ run, of demo_lib key_chain demo_gl "reads_legacy demo_lib" 0 0]
    by (auto simp: demo_src_def)
qed

text \<open>C31. The epoch the uploader takes for the one of the bridge is the first entry of the stack that
  the getter \<open>get_state_short\<close> left, run with no arguments but its method id on the code of the
  bridge account: an active account, in a state not older than the last transaction the
  uploader saw there. The getter ended with exit code 0 or 1.\<close>

theorem epoch_comes_from_getter:
  assumes "uploader_new S src dst config_call cfg w = (Inr (E, u), w0)"
    and "get_current_epoch_since E s = Some (Inr since, s1)"
  shows "\<exists>blockchain_config account i timings last_id w1 w2 code smc exit_code first rest.
    config_call w = (Inr blockchain_config, w0) \<and>
    nc_account_state dst (uc_bridge_address cfg) None w1 = (Inr (Exists account i timings last_id), w2) \<and>
    up_min_bridge_state_lt (fst s) \<le> gt_lt timings \<and> ac_state account = Active \<and> sv_code S account i = Some code \<and>
    vm_smc_info (sv_vm S blockchain_config account i) = Inr smc \<and>
    vm_run (sv_vm S blockchain_config account i) code
      (case sv_data S account i of None \<Rightarrow> vm_no_data (sv_vm S blockchain_config account i) | Some d \<Rightarrow> d)
      [vm_int (sv_vm S blockchain_config account i) (method_id_of_name (sv_crc_16 S) ''get_state_short'')] smc =
      (exit_code, first # rest) \<and>
    (NOT exit_code = 0 \<or> NOT exit_code = 1) \<and> sv_stack_u32 S first = Inr since"
proof -
  from assms(1) obtain blockchain_config where
    conf: "config_call w = (Inr blockchain_config, w0)" and dst: "se_dst E = dst"
      "se_bridge_address E = uc_bridge_address cfg" "se_stack_u32 E = sv_stack_u32 S" and
    getter: "se_getter E = run_getter S blockchain_config ''get_state_short''"
    by (rule uploader_new_InrE)
  from epoch_from_getter [OF getter get_epoch_ok [OF assms(2)]] conf show ?thesis
    unfolding dst by blast
qed

lemma demo_epoch_result:
  "(case demo_up of (Inr (E, u), w) \<Rightarrow> map_option fst (get_current_epoch_since E (u, w)) | _ \<Rightarrow> None) = Some (Inr 10)"
  by code_simp

lemma epoch_comes_from_getter_witness:
  "\<exists>first rest. vm_run demo_vm (DC [] []) (DC [] []) [method_id_of_name (\<lambda>s. 0) ''get_state_short''] () = (-1, first # rest) \<and>
     first = 10"
proof -
  obtain E where new: "uploader_new demo_service demo_src demo_dst (\<lambda>w. (Inr [], w)) demo_cfg 0 = (Inr (E, started demo_cfg), 0)"
    by (rule demo_up_created)
  with demo_epoch_result obtain s1 where "get_current_epoch_since E (started demo_cfg, 0) = Some (Inr 10, s1)"
    by (auto simp: demo_up_def)
  from epoch_comes_from_getter [OF new this] show ?thesis by (auto simp: demo_service_def demo_vm_def)
qed

text \<open>C33. An uploader can be created for a destination that is reached over GraphQL, but none of its
  rounds ever returns: that client answers every request for an account with an error, and the
  balance of the wallet and the bridge are asked for again and again.\<close>

theorem legacy_destination_hangs:
  assumes "uploader_new S src (legacy_client L H G) (legacy_blockchain_config L G) cfg w = (Inr (E, u), w0)"
  shows "sync_key_blocks E s = None \<and> run_rounds (Suc n) E (u, w0) = None"
proof -
  have "se_dst E = legacy_client L H G" using assms by (auto elim: uploader_new_InrE)
  from legacy_destination_round [OF this] show ?thesis by simp
qed

lemma demo_legacy_config: "\<exists>g w. legacy_blockchain_config demo_lib demo_gl 0 = (Inr g, 0)"
proof -
  have "is_ok (fst (legacy_blockchain_config demo_lib demo_gl 0)) \<and> snd (legacy_blockchain_config demo_lib demo_gl 0) = 0"
    by code_simp
  then show ?thesis by (cases "legacy_blockchain_config demo_lib demo_gl 0"; cases "fst (legacy_blockchain_config demo_lib demo_gl 0)") auto
qed

lemma legacy_destination_hangs_witness:
  "\<exists>E. fst (uploader_new demo_service demo_src (legacy_client demo_lib key_chain demo_gl)
       (legacy_blockchain_config demo_lib demo_gl) demo_cfg 0) = Inr (E, started demo_cfg) \<and>
     sync_key_blocks E (started demo_cfg, 0) = None"
proof -
  from demo_legacy_config obtain E where
    new: "uploader_new demo_service demo_src (legacy_client demo_lib key_chain demo_gl)
       (legacy_blockchain_config demo_lib demo_gl) demo_cfg 0 = (Inr (E, started demo_cfg), 0)"
    by (auto simp: uploader_new_def Let_def bnd_def rs_simps rs_apply demo_service_def demo_cfg_def demo_addr_def
        guard_def demo_wallet_address started_def)
  from legacy_destination_hangs [OF new] new show ?thesis by auto
qed

section \<open>The metrics\<close>

lemma min_balance_steps [simp]:
  "um_wallet_min_required_balance (up_metrics (refreshed b t u)) = um_wallet_min_required_balance (up_metrics u)"
  "um_wallet_min_required_balance (up_metrics (checked v u)) = um_wallet_min_required_balance (up_metrics u)"
  "um_wallet_min_required_balance (up_metrics (noted r t u)) = um_wallet_min_required_balance (up_metrics u)"
  "um_wallet_min_required_balance (up_metrics (sent_metrics d t u)) = um_wallet_min_required_balance (up_metrics u)"
  "um_wallet_min_required_balance (up_metrics (new_cache n u)) = um_wallet_min_required_balance (up_metrics u)"
  "um_wallet_min_required_balance (up_metrics (seen d u)) = um_wallet_min_required_balance (up_metrics u)"
  by (cases r; simp add: refreshed_def checked_def noted_def sent_metrics_def new_cache_def Let_def seen_def)+

lemma keeps_min_balance:
  "keeps (\<lambda>u. um_wallet_min_required_balance (up_metrics u) = b) (sync_key_blocks E)"
  by (intro keeps_sync_any keeps_find_any)
    (auto simp: untouched_def keeps_def fetch_key_block_def split: option.splits prod.splits sum.splits)

text \<open>C32. After any number of rounds, whether they succeed or fail and wherever they fail, the metrics
  the service exports agree with its state: the number of cached key blocks, the logical time of
  the bridge and the epoch checked last are those of the state, the required balance is that of
  the configuration, and the status tells how the last round ended.\<close>

theorem metrics_match_state:
  assumes "uploader_new S src dst config_call cfg w = (Inr (E, u), w0)" and "run_rounds n E (u, w1) = Some s"
  shows "metrics_exact (fst s) \<and>
    um_wallet_min_required_balance (up_metrics (fst s)) = uc_min_required_balance cfg \<and>
    (case n of
       0 \<Rightarrow> um_status (up_metrics (fst s)) = Initializing
     | Suc m \<Rightarrow> \<exists>s2 r s3. run_rounds m E (u, w1) = Some s2 \<and> sync_key_blocks E s2 = Some (r, s3) \<and>
         um_status (up_metrics (fst s)) = (if is_ok r then Running else Retrying))"
proof -
  from assms(1) have u: "u = started cfg" by (auto elim: uploader_new_InrE)
  have start: "metrics_exact u" "um_wallet_min_required_balance (up_metrics u) = uc_min_required_balance cfg"
    "um_status (up_metrics u) = Initializing"
    by (simp_all add: u started_def new_uploader_def new_metrics_def metrics_exact_def)
  have "metrics_exact (fst s)"
    by (rule run_rounds_keep [OF keeps_metrics _ assms(2)]) (simp_all add: untouched_def metrics_exact_steps start)
  moreover have "um_wallet_min_required_balance (up_metrics (fst s)) = uc_min_required_balance cfg"
    by (rule run_rounds_keep [OF keeps_min_balance _ assms(2)]) (simp_all add: untouched_def start)
  moreover have "case n of
       0 \<Rightarrow> um_status (up_metrics (fst s)) = Initializing
     | Suc m \<Rightarrow> \<exists>s2 r s3. run_rounds m E (u, w1) = Some s2 \<and> sync_key_blocks E s2 = Some (r, s3) \<and>
         um_status (up_metrics (fst s)) = (if is_ok r then Running else Retrying)"
  proof (cases n)
    case 0
    with assms(2) start(3) show ?thesis by auto
  next
    case (Suc m)
    from run_rounds_last [OF assms(2) [unfolded Suc]] obtain s2 r s3 where
      "run_rounds m E (u, w1) = Some s2" "sync_key_blocks E s2 = Some (r, s3)"
      "s = (noted r (se_now_sec E (snd s3)) (fst s3), snd s3)" by blast
    moreover from this(3) have "um_status (up_metrics (fst s)) = (if is_ok r then Running else Retrying)"
      by (cases r) simp_all
    ultimately show ?thesis using Suc by auto
  qed
  ultimately show ?thesis by blast
qed

lemma metrics_match_state_witness:
  "\<exists>u1 :: dcell uploader. um_min_bridge_state_lt (up_metrics u1) = 30 \<and> um_status (up_metrics u1) = Running \<and>
     um_cached_key_blocks (up_metrics u1) = length (up_cache u1)"
proof -
  obtain E where new: "uploader_new demo_service demo_src demo_dst (\<lambda>w. (Inr [], w)) demo_cfg 0 = (Inr (E, started demo_cfg), 0)"
    and round: "demo_up_round = sync_key_blocks E (started demo_cfg, 0)" by (rule demo_up_created)
  from demo_up_round_result obtain u1 where run: "sync_key_blocks E (started demo_cfg, 0) = Some (Inr (), (u1, 2))"
    and lt: "up_min_bridge_state_lt u1 = 30" unfolding round by auto
  let ?u2 = "noted (Inr ()) (se_now_sec E 2) u1"
  have "run_rounds (Suc 0) E (started demo_cfg, 0) = Some (?u2, 2)" using run by simp
  from metrics_match_state [OF new this] have "metrics_exact ?u2" by simp
  with lt show ?thesis by (intro exI [of _ ?u2]) (simp add: metrics_exact_def)
qed

text \<open>
  The time of the last success is set before the outcome of the transaction is looked at: here the
  bridge rejects the key block, the round fails, and the metrics count a success.
\<close>

definition demo_rejecting :: "hash_bytes tx_lib" where
  "demo_rejecting = demo_tx\<lparr>tx_load := (\<lambda>t. bindR (tx_load demo_tx t) (\<lambda>tx. Inr (tx\<lparr>t_outcome := Executed False\<rparr>)))\<rparr>"

lemma rejected_counts_as_success:
  "map_option (\<lambda>(r, u, w). (r, um_last_sent_key_block_seqno (up_metrics u), um_last_success_unix_time (up_metrics u)))
     (sync_key_blocks ((demo_sync 10)\<lparr>se_tx := demo_rejecting\<rparr>) (new_uploader, 0)) =
   Some (Inl (Msg ''key block was rejected''), 3, 102)"
  by code_simp

end
