(* ===== verification/Adnl_Sending.thy ===== *)
theory Adnl_Sending
  imports Adnl
begin

text \<open>
  The sending side of a connection, \<open>TcpAdnl::connect\<close> and \<open>TcpAdnl::query\<close> of
  \<open>ton-lite-client/src/tcp_adnl/mod.rs\<close>. A query spawns a task that takes the lock of the sender,
  encrypts and writes its packet; the query itself may be dropped at any moment, which sets the
  cancellation flag of its task. Queries, their tasks and the socket reader take their steps in
  any order: a run is a list of events. A task looks at the flag before and after it waits for
  the lock; \<open>write_all\<close> hands the socket a few bytes at a time.
\<close>

section \<open>State\<close>

datatype send_pc = CheckFirst | AwaitLock | CheckLocked | WriteAll bytes | SendSkipped | SendWritten | SendBroken

record send_task =
  sd_data :: bytes
  sd_chan :: nat
  sd_pc :: send_pc
  sd_cancelled :: bool

text \<open>
  The locked \<open>Sender\<close>: its cipher, the bytes written to the socket so far, the task that holds
  the lock, and whether a write has ever failed.
\<close>

record 'k sender =
  sn_cipher :: 'k
  sn_socket :: bytes
  sn_owner :: "nat option"
  sn_failed :: bool

record 'k adnl_conn =
  cn_shared :: adnl_shared
  cn_sender :: "'k sender"
  cn_tasks :: "send_task list"

text \<open>\<open>connect\<close>, once the socket is open and the handshake is written.\<close>

definition connected :: "'k adnl_lib \<Rightarrow> bytes \<Rightarrow> bytes \<Rightarrow> bytes \<Rightarrow> 'k adnl_conn" where
  "connected A server_pubkey client_secret initial_buffer =
     \<lparr>cn_shared = \<lparr>sh_query_id = 0, sh_cache = empty_cache\<rparr>,
      cn_sender = \<lparr>sn_cipher = snd (connect_ciphers A initial_buffer),
        sn_socket = build_handshake_packet A server_pubkey client_secret initial_buffer,
        sn_owner = None, sn_failed = False\<rparr>,
      cn_tasks = []\<rparr>"

section \<open>Steps\<close>

definition set_task :: "nat \<Rightarrow> send_task \<Rightarrow> 'k adnl_conn \<Rightarrow> 'k adnl_conn" where
  "set_task i t st = st\<lparr>cn_tasks := (cn_tasks st)[i := t]\<rparr>"

definition set_sender :: "'k sender \<Rightarrow> 'k adnl_conn \<Rightarrow> 'k adnl_conn" where
  "set_sender s st = st\<lparr>cn_sender := s\<rparr>"

definition set_cache :: "answers \<Rightarrow> 'k adnl_conn \<Rightarrow> 'k adnl_conn" where
  "set_cache c st = st\<lparr>cn_shared := (cn_shared st)\<lparr>sh_cache := c\<rparr>\<rparr>"

definition query_begins :: "tl_lib \<Rightarrow> bytes \<Rightarrow> 'k adnl_conn \<Rightarrow> 'k adnl_conn" where
  "query_begins T request st =
     (case start_query T request (cn_shared st) of ((c, data), sh) \<Rightarrow>
        st\<lparr>cn_shared := sh,
           cn_tasks := cn_tasks st @ [\<lparr>sd_data = data, sd_chan = c, sd_pc = CheckFirst, sd_cancelled = False\<rparr>]\<rparr>)"

text \<open>The end of the query's future, by its result or by a drop: the flag of the task is set.\<close>

definition cancel :: "nat \<Rightarrow> send_task \<Rightarrow> answers \<Rightarrow> 'k adnl_conn \<Rightarrow> 'k adnl_conn" where
  "cancel i t cache st = set_cache cache (set_task i (t\<lparr>sd_cancelled := True\<rparr>) st)"

text \<open>A query ends with the error of its task, which is looked at first, or when its channel has an outcome.\<close>

definition query_ends :: "nat \<Rightarrow> send_task \<Rightarrow> 'k adnl_conn \<Rightarrow> 'k adnl_conn" where
  "query_ends i t st =
     (if sd_cancelled t then st
      else if sd_pc t = SendBroken then cancel i t (drop_pending (sd_chan t) (sh_cache (cn_shared st))) st
      else case wait (sd_chan t) (sh_cache (cn_shared st)) of
        Some (res, cache) \<Rightarrow> cancel i t cache st
      | None \<Rightarrow> st)"

definition query_dropped :: "nat \<Rightarrow> send_task \<Rightarrow> 'k adnl_conn \<Rightarrow> 'k adnl_conn" where
  "query_dropped i t st =
     (if sd_cancelled t then st
      else cancel i t (drop_pending (sd_chan t) (sh_cache (cn_shared st))) st)"

text \<open>One step of the spawned task; \<open>n\<close> is how many bytes the socket takes.\<close>

definition task_runs :: "'k adnl_lib \<Rightarrow> nat \<Rightarrow> send_task \<Rightarrow> nat \<Rightarrow> 'k adnl_conn \<Rightarrow> 'k adnl_conn" where
  "task_runs A i t n st =
     (let s = cn_sender st; goto = (\<lambda>pc. set_task i (t\<lparr>sd_pc := pc\<rparr>)) in
      case sd_pc t of
        CheckFirst \<Rightarrow> goto (if sd_cancelled t then SendSkipped else AwaitLock) st
      | AwaitLock \<Rightarrow>
          if sn_owner s = None then goto CheckLocked (set_sender (s\<lparr>sn_owner := Some i\<rparr>) st) else st
      | CheckLocked \<Rightarrow>
          if sd_cancelled t then goto SendSkipped (set_sender (s\<lparr>sn_owner := None\<rparr>) st)
          else (case encrypt_data A (sn_cipher s) (sd_data t) of
            (packet, cipher) \<Rightarrow> goto (WriteAll packet) (set_sender (s\<lparr>sn_cipher := cipher\<rparr>) st))
      | WriteAll bs \<Rightarrow>
          if bs = [] then goto SendWritten (set_sender (s\<lparr>sn_owner := None\<rparr>) st)
          else goto (WriteAll (drop n bs)) (set_sender (s\<lparr>sn_socket := sn_socket s @ take n bs\<rparr>) st)
      | _ \<Rightarrow> st)"

text \<open>The socket refuses the rest of a packet.\<close>

definition write_fails :: "nat \<Rightarrow> send_task \<Rightarrow> 'k adnl_conn \<Rightarrow> 'k adnl_conn" where
  "write_fails i t st =
     (case sd_pc t of
        WriteAll bs \<Rightarrow>
          if bs = [] then st
          else set_task i (t\<lparr>sd_pc := SendBroken\<rparr>)
                 (set_sender ((cn_sender st)\<lparr>sn_owner := None, sn_failed := True\<rparr>) st)
      | _ \<Rightarrow> st)"

datatype conn_event =
    QueryBegins bytes | QueryEnds nat | QueryDropped nat | TaskRuns nat nat | WriteFails nat | Answered adnl_answer

definition on_task :: "nat \<Rightarrow> (send_task \<Rightarrow> 'k adnl_conn \<Rightarrow> 'k adnl_conn) \<Rightarrow> 'k adnl_conn \<Rightarrow> 'k adnl_conn" where
  "on_task i f st = (if i < length (cn_tasks st) then f (cn_tasks st ! i) st else st)"

fun happens :: "'k adnl_lib \<Rightarrow> tl_lib \<Rightarrow> conn_event \<Rightarrow> 'k adnl_conn \<Rightarrow> 'k adnl_conn" where
  "happens A T (QueryBegins request) st = query_begins T request st"
| "happens A T (QueryEnds i) st = on_task i (query_ends i) st"
| "happens A T (QueryDropped i) st = on_task i (query_dropped i) st"
| "happens A T (TaskRuns i n) st = on_task i (\<lambda>t. task_runs A i t n) st"
| "happens A T (WriteFails i) st = on_task i (write_fails i) st"
| "happens A T (Answered a) st = set_cache (deliver (Some a) (sh_cache (cn_shared st))) st"

definition run_conn :: "'k adnl_lib \<Rightarrow> tl_lib \<Rightarrow> conn_event list \<Rightarrow> 'k adnl_conn \<Rightarrow> 'k adnl_conn" where
  "run_conn A T evs st = fold (happens A T) evs st"

lemma run_conn_simps [simp]:
  "run_conn A T [] st = st"
  "run_conn A T (e # es) st = run_conn A T es (happens A T e st)"
  "run_conn A T (es @ fs) st = run_conn A T fs (run_conn A T es st)"
  by (simp_all add: run_conn_def)

section \<open>Steps on the list of tasks\<close>

lemma set_task_simps [simp]:
  "cn_tasks (set_task i t st) = (cn_tasks st)[i := t]"
  "cn_sender (set_task i t st) = cn_sender st"
  "cn_tasks (set_sender s st) = cn_tasks st"
  "cn_sender (set_sender s st) = s"
  "cn_tasks (set_cache c st) = cn_tasks st"
  "cn_sender (set_cache c st) = cn_sender st"
  by (simp_all add: set_task_def set_sender_def set_cache_def)

text \<open>A task that took the lock and was not cancelled is on the wire.\<close>

fun on_wire :: "send_pc \<Rightarrow> bool" where
  "on_wire (WriteAll bs) = True"
| "on_wire SendWritten = True"
| "on_wire SendBroken = True"
| "on_wire _ = False"

fun holds_lock :: "send_pc \<Rightarrow> bool" where
  "holds_lock CheckLocked = True"
| "holds_lock (WriteAll bs) = True"
| "holds_lock _ = False"

fun unwritten :: "send_pc \<Rightarrow> bytes" where
  "unwritten (WriteAll bs) = bs"
| "unwritten _ = []"

abbreviation pc_of :: "'k adnl_conn \<Rightarrow> nat \<Rightarrow> send_pc" where
  "pc_of st i \<equiv> sd_pc (cn_tasks st ! i)"

abbreviation data_of :: "'k adnl_conn \<Rightarrow> nat \<Rightarrow> bytes" where
  "data_of st i \<equiv> sd_data (cn_tasks st ! i)"

section \<open>What is on the wire\<close>

text \<open>
  The lock is held by the task that is at a step between taking and releasing it, and by no
  other. \<open>order\<close> lists the tasks that encrypted their packet, as they did; as long as no write
  failed, the bytes written with those the holder still has to write are their packets,
  encrypted one after the other.
\<close>

definition lock_ok :: "'k adnl_conn \<Rightarrow> bool" where
  "lock_ok st \<longleftrightarrow>
     (\<forall>i. sn_owner (cn_sender st) = Some i \<longleftrightarrow> i < length (cn_tasks st) \<and> holds_lock (pc_of st i))"

definition rest_of :: "'k adnl_conn \<Rightarrow> bytes" where
  "rest_of st = (case sn_owner (cn_sender st) of None \<Rightarrow> [] | Some i \<Rightarrow> unwritten (pc_of st i))"

definition wire_ok :: "'k adnl_lib \<Rightarrow> bytes \<Rightarrow> 'k \<Rightarrow> nat list \<Rightarrow> 'k adnl_conn \<Rightarrow> bool" where
  "wire_ok A handshake k order st \<longleftrightarrow>
     lock_ok st \<and> distinct order \<and> set order = {i. i < length (cn_tasks st) \<and> on_wire (pc_of st i)} \<and>
     (\<not> sn_failed (cn_sender st) \<longrightarrow>
        sn_socket (cn_sender st) @ rest_of st = handshake @ fst (encrypt_all A k (map (data_of st) order)) \<and>
        sn_cipher (cn_sender st) = snd (encrypt_all A k (map (data_of st) order)))"

lemma encrypt_all_snoc:
  "encrypt_all A k (ds @ [d]) =
     (fst (encrypt_all A k ds) @ fst (encrypt_data A (snd (encrypt_all A k ds)) d),
      snd (encrypt_data A (snd (encrypt_all A k ds)) d))"
  by (induction ds arbitrary: k) (simp_all add: split_beta Let_def)

lemma wire_ok_connected:
  "wire_ok A (build_handshake_packet A p s b) (snd (connect_ciphers A b)) [] (connected A p s b)"
  by (simp add: wire_ok_def lock_ok_def connected_def rest_of_def)

text \<open>Steps that leave the program counters and the sender alone.\<close>

lemma wire_ok_same:
  assumes "wire_ok A h k order st" and "cn_sender st1 = cn_sender st"
    and "length (cn_tasks st1) = length (cn_tasks st)"
    and "\<And>i. i < length (cn_tasks st) \<Longrightarrow> pc_of st1 i = pc_of st i \<and> data_of st1 i = data_of st i"
  shows "wire_ok A h k order st1"
proof -
  have data: "map (data_of st1) order = map (data_of st) order"
    using assms(1,4) by (auto simp: wire_ok_def)
  have rest: "rest_of st1 = rest_of st"
  proof (cases "sn_owner (cn_sender st)")
    case (Some j)
    then have "j < length (cn_tasks st)" using assms(1) unfolding wire_ok_def lock_ok_def by blast
    from assms(4) [OF this] Some show ?thesis by (simp add: rest_of_def assms(2))
  qed (simp add: rest_of_def assms(2))
  show ?thesis
    using assms(1,4) unfolding wire_ok_def lock_ok_def data rest assms(2,3) by auto
qed


text \<open>One task moves: the lock and the wire change as its program counter says.\<close>

lemma wire_ok_move:
  assumes ok: "wire_ok A h k order st" and i: "i < length (cn_tasks st)"
    and st1: "st1 = set_task i ((cn_tasks st ! i)\<lparr>sd_pc := pc\<rparr>) (set_sender s1 st)"
    and own: "sn_owner s1 = (if holds_lock pc then Some i else if holds_lock (pc_of st i) then None else sn_owner (cn_sender st))"
    and free: "holds_lock pc \<Longrightarrow> \<not> holds_lock (pc_of st i) \<Longrightarrow> sn_owner (cn_sender st) = None"
    and order1: "order1 = (if on_wire pc \<and> \<not> on_wire (pc_of st i) then order @ [i] else order)"
    and mono: "on_wire (pc_of st i) \<Longrightarrow> on_wire pc"
    and wire: "\<not> sn_failed s1 \<Longrightarrow>
        sn_socket s1 @ (if holds_lock pc then unwritten pc else if holds_lock (pc_of st i) then [] else rest_of st) =
        h @ fst (encrypt_all A k (map (data_of st) order1)) \<and>
        sn_cipher s1 = snd (encrypt_all A k (map (data_of st) order1))"
  shows "wire_ok A h k order1 st1"
proof -
  have pc: "pc_of st1 j = (if j = i then pc else pc_of st j)" if "j < length (cn_tasks st)" for j
    using that i by (simp add: st1)
  have data: "data_of st1 = data_of st"
    using i by (auto simp: st1 nth_list_update fun_eq_iff)
  have len: "length (cn_tasks st1) = length (cn_tasks st)" and snd1: "cn_sender st1 = s1" by (simp_all add: st1)
  have lock: "sn_owner (cn_sender st) = Some j \<longleftrightarrow> j < length (cn_tasks st) \<and> holds_lock (pc_of st j)" for j
    using ok by (simp add: wire_ok_def lock_ok_def)
  have owner: "sn_owner (cn_sender st) = Some i \<longleftrightarrow> holds_lock (pc_of st i)" using lock i by simp
  have others: "sn_owner s1 = Some j \<longleftrightarrow> sn_owner (cn_sender st) = Some j" if "j \<noteq> i" for j
    using that own free owner by (auto split: if_splits)
  have here: "sn_owner s1 = Some i \<longleftrightarrow> holds_lock pc"
    using own owner by (auto split: if_splits)
  have lock1: "lock_ok st1"
    unfolding lock_ok_def len snd1
  proof
    fix j
    show "sn_owner s1 = Some j \<longleftrightarrow> j < length (cn_tasks st) \<and> holds_lock (pc_of st1 j)"
    proof (cases "j = i")
      case True
      then show ?thesis using here i pc [OF i] by simp
    next
      case False
      then show ?thesis using others [OF False] lock [of j] pc [of j] by auto
    qed
  qed
  have rest: "rest_of st1 = (if holds_lock pc then unwritten pc else if holds_lock (pc_of st i) then [] else rest_of st)"
  proof (cases "holds_lock pc")
    case True
    with own pc [OF i] show ?thesis by (simp add: rest_of_def snd1)
  next
    case no: False
    show ?thesis
    proof (cases "holds_lock (pc_of st i)")
      case True
      with own no show ?thesis by (simp add: rest_of_def snd1)
    next
      case False
      with own no have same: "sn_owner s1 = sn_owner (cn_sender st)" by simp
      show ?thesis
      proof (cases "sn_owner (cn_sender st)")
        case (Some j)
        then have "j \<noteq> i" "j < length (cn_tasks st)" using lock owner False by auto
        with pc [of j] Some same no False show ?thesis by (simp add: rest_of_def snd1)
      qed (use same no False in \<open>simp add: rest_of_def snd1\<close>)
    qed
  qed
  have set1: "distinct order1 \<and> set order1 = {j. j < length (cn_tasks st) \<and> on_wire (pc_of st1 j)}"
  proof -
    have old: "distinct order" "set order = {j. j < length (cn_tasks st) \<and> on_wire (pc_of st j)}"
      using ok by (simp_all add: wire_ok_def)
    have new: "{j. j < length (cn_tasks st) \<and> on_wire (pc_of st1 j)} =
        (if on_wire pc then insert i (set order) else set order - {i})"
      unfolding old(2) using i pc by (auto split: if_splits)
    have "i \<in> set order \<longleftrightarrow> on_wire (pc_of st i)" using i by (simp add: old(2))
    then show ?thesis
      using old(1) mono by (cases "on_wire pc"; cases "on_wire (pc_of st i)") (auto simp: new order1)
  qed
  show ?thesis
    unfolding wire_ok_def len snd1 data rest by (intro conjI impI lock1 conjunct1 [OF set1] conjunct2 [OF set1] wire)
qed

lemma wire_ok_moves:
  assumes "wire_ok A h k order st" and "i < length (cn_tasks st)"
    and "st1 = set_task i ((cn_tasks st ! i)\<lparr>sd_pc := pc\<rparr>) (set_sender s1 st)"
    and "sn_owner s1 = (if holds_lock pc then Some i else if holds_lock (pc_of st i) then None else sn_owner (cn_sender st))"
    and "holds_lock pc \<Longrightarrow> \<not> holds_lock (pc_of st i) \<Longrightarrow> sn_owner (cn_sender st) = None"
    and "on_wire (pc_of st i) \<Longrightarrow> on_wire pc"
    and "\<not> sn_failed s1 \<Longrightarrow>
        sn_socket s1 @ (if holds_lock pc then unwritten pc else if holds_lock (pc_of st i) then [] else rest_of st) =
        h @ fst (encrypt_all A k (map (data_of st) (if on_wire pc \<and> \<not> on_wire (pc_of st i) then order @ [i] else order))) \<and>
        sn_cipher s1 = snd (encrypt_all A k (map (data_of st) (if on_wire pc \<and> \<not> on_wire (pc_of st i) then order @ [i] else order)))"
  shows "\<exists>order1. wire_ok A h k order1 st1"
  using wire_ok_move [OF assms(1-5) refl assms(6,7)] by blast

lemma set_sender_same: "set_sender (cn_sender st) st = st"
  by (simp add: set_sender_def)

lemma set_task_same_sender: "set_task i t st = set_task i t (set_sender (cn_sender st) st)"
  by (simp add: set_sender_same)

lemma wire_okD:
  assumes "wire_ok A h k order st" and "i < length (cn_tasks st)"
  shows "sn_owner (cn_sender st) = Some i \<longleftrightarrow> holds_lock (pc_of st i)"
    and "holds_lock (pc_of st i) \<Longrightarrow> rest_of st = unwritten (pc_of st i)"
    and "\<not> sn_failed (cn_sender st) \<Longrightarrow>
      sn_socket (cn_sender st) @ rest_of st = h @ fst (encrypt_all A k (map (data_of st) order)) \<and>
      sn_cipher (cn_sender st) = snd (encrypt_all A k (map (data_of st) order))"
proof -
  show own: "sn_owner (cn_sender st) = Some i \<longleftrightarrow> holds_lock (pc_of st i)"
    using assms unfolding wire_ok_def lock_ok_def by blast
  then show "holds_lock (pc_of st i) \<Longrightarrow> rest_of st = unwritten (pc_of st i)"
    by (simp add: rest_of_def)
  show "\<not> sn_failed (cn_sender st) \<Longrightarrow>
      sn_socket (cn_sender st) @ rest_of st = h @ fst (encrypt_all A k (map (data_of st) order)) \<and>
      sn_cipher (cn_sender st) = snd (encrypt_all A k (map (data_of st) order))"
    using assms(1) unfolding wire_ok_def by blast
qed

lemma task_runs_simps:
  "sd_pc t = CheckFirst \<Longrightarrow> task_runs A i t n st =
     set_task i (t\<lparr>sd_pc := if sd_cancelled t then SendSkipped else AwaitLock\<rparr>) (set_sender (cn_sender st) st)"
  "sd_pc t = AwaitLock \<Longrightarrow> sn_owner (cn_sender st) = None \<Longrightarrow> task_runs A i t n st =
     set_task i (t\<lparr>sd_pc := CheckLocked\<rparr>) (set_sender ((cn_sender st)\<lparr>sn_owner := Some i\<rparr>) st)"
  "sd_pc t = CheckLocked \<Longrightarrow> sd_cancelled t \<Longrightarrow> task_runs A i t n st =
     set_task i (t\<lparr>sd_pc := SendSkipped\<rparr>) (set_sender ((cn_sender st)\<lparr>sn_owner := None\<rparr>) st)"
  "sd_pc t = CheckLocked \<Longrightarrow> \<not> sd_cancelled t \<Longrightarrow> task_runs A i t n st =
     set_task i (t\<lparr>sd_pc := WriteAll (fst (encrypt_data A (sn_cipher (cn_sender st)) (sd_data t)))\<rparr>)
       (set_sender ((cn_sender st)\<lparr>sn_cipher := snd (encrypt_data A (sn_cipher (cn_sender st)) (sd_data t))\<rparr>) st)"
  "sd_pc t = WriteAll [] \<Longrightarrow> task_runs A i t n st =
     set_task i (t\<lparr>sd_pc := SendWritten\<rparr>) (set_sender ((cn_sender st)\<lparr>sn_owner := None\<rparr>) st)"
  "sd_pc t = WriteAll bs \<Longrightarrow> bs \<noteq> [] \<Longrightarrow> task_runs A i t n st =
     set_task i (t\<lparr>sd_pc := WriteAll (drop n bs)\<rparr>)
       (set_sender ((cn_sender st)\<lparr>sn_socket := sn_socket (cn_sender st) @ take n bs\<rparr>) st)"
  by (simp_all add: task_runs_def Let_def set_sender_same split_beta)

lemma task_runs_stays:
  "sd_pc t = AwaitLock \<Longrightarrow> sn_owner (cn_sender st) \<noteq> None \<Longrightarrow> task_runs A i t n st = st"
  "sd_pc t \<in> {SendSkipped, SendWritten, SendBroken} \<Longrightarrow> task_runs A i t n st = st"
  by (auto simp: task_runs_def Let_def)

lemma wire_ok_task_runs:
  assumes ok: "wire_ok A h k order st" and i: "i < length (cn_tasks st)"
  shows "\<exists>order1. wire_ok A h k order1 (task_runs A i (cn_tasks st ! i) n st)"
proof -
  note D = wire_okD [OF ok i]
  show ?thesis
  proof (cases "pc_of st i")
    case CheckFirst
    show ?thesis unfolding task_runs_simps(1) [OF CheckFirst]
      by (rule wire_ok_moves [OF ok i refl]) (use D(3) CheckFirst in \<open>simp_all split: if_splits\<close>)
  next
    case AwaitLock
    show ?thesis
    proof (cases "sn_owner (cn_sender st) = None")
      case True
      show ?thesis unfolding task_runs_simps(2) [OF AwaitLock True]
        by (rule wire_ok_moves [OF ok i refl]) (use D(3) AwaitLock True in \<open>simp_all add: rest_of_def\<close>)
    next
      case False
      show ?thesis unfolding task_runs_stays(1) [OF AwaitLock False] using ok by blast
    qed
  next
    case CheckLocked
    then have lock: "sn_owner (cn_sender st) = Some i" "rest_of st = []" using D(1,2) by simp_all
    show ?thesis
    proof (cases "sd_cancelled (cn_tasks st ! i)")
      case True
      show ?thesis unfolding task_runs_simps(3) [OF CheckLocked True]
        by (rule wire_ok_moves [OF ok i refl]) (use D(3) CheckLocked lock in simp_all)
    next
      case False
      show ?thesis unfolding task_runs_simps(4) [OF CheckLocked False]
        by (rule wire_ok_moves [OF ok i refl]) (use D(3) CheckLocked lock in \<open>simp_all add: encrypt_all_snoc\<close>)
    qed
  next
    case (WriteAll bs)
    then have lock: "sn_owner (cn_sender st) = Some i" "rest_of st = bs" using D(1,2) by simp_all
    show ?thesis
    proof (cases "bs = []")
      case True
      with WriteAll have w: "pc_of st i = WriteAll []" by simp
      show ?thesis unfolding task_runs_simps(5) [OF w]
        by (rule wire_ok_moves [OF ok i refl]) (use D(3) w lock True in simp_all)
    next
      case False
      show ?thesis unfolding task_runs_simps(6) [OF WriteAll False]
        by (rule wire_ok_moves [OF ok i refl]) (use D(3) WriteAll lock in simp_all)
    qed
  qed (metis ok task_runs_stays(2) insertCI)+
qed

lemma wire_ok_write_fails:
  assumes ok: "wire_ok A h k order st" and i: "i < length (cn_tasks st)"
  shows "wire_ok A h k order (write_fails i (cn_tasks st ! i) st)"
proof (cases "pc_of st i")
  case (WriteAll bs)
  show ?thesis
  proof (cases "bs = []")
    case False
    have "wire_ok A h k order (set_task i ((cn_tasks st ! i)\<lparr>sd_pc := SendBroken\<rparr>)
        (set_sender ((cn_sender st)\<lparr>sn_owner := None, sn_failed := True\<rparr>) st))"
      by (rule wire_ok_move [OF ok i refl]) (use WriteAll in simp_all)
    with WriteAll False show ?thesis by (simp add: write_fails_def)
  qed (use ok WriteAll in \<open>simp add: write_fails_def\<close>)
qed (use ok in \<open>simp_all add: write_fails_def\<close>)

lemma wire_ok_cancel:
  assumes "wire_ok A h k order st" and "i < length (cn_tasks st)"
  shows "wire_ok A h k order (cancel i (cn_tasks st ! i) cache st)"
  using assms(2) by (intro wire_ok_same [OF assms(1)]) (auto simp: cancel_def nth_list_update)

lemma wire_ok_begins:
  assumes ok: "wire_ok A h k order st"
  shows "wire_ok A h k order (query_begins T request st)"
proof -
  obtain c data sh where q: "start_query T request (cn_shared st) = ((c, data), sh)"
    by (metis prod.exhaust)
  let ?t = "\<lparr>sd_data = data, sd_chan = c, sd_pc = CheckFirst, sd_cancelled = False\<rparr>"
  let ?st1 = "query_begins T request st"
  have tasks: "cn_tasks ?st1 = cn_tasks st @ [?t]" and snd1: "cn_sender ?st1 = cn_sender st"
    by (simp_all add: query_begins_def q)
  have at: "cn_tasks ?st1 ! j = (if j < length (cn_tasks st) then cn_tasks st ! j else ?t)"
    if "j < Suc (length (cn_tasks st))" for j
    using that by (auto simp: tasks nth_append)
  have lt: "\<And>j. j \<in> set order \<Longrightarrow> j < length (cn_tasks st)"
    and own: "\<And>j. sn_owner (cn_sender st) = Some j \<Longrightarrow> j < length (cn_tasks st)"
    using ok by (auto simp: wire_ok_def lock_ok_def)
  have data: "map (data_of ?st1) order = map (data_of st) order" using lt by (auto simp: at less_SucI)
  have rest: "rest_of ?st1 = rest_of st" using own by (auto simp: rest_of_def snd1 at less_SucI split: option.splits)
  have "lock_ok ?st1"
    using ok unfolding wire_ok_def lock_ok_def snd1 by (auto simp: tasks nth_append less_Suc_eq)
  moreover have "{j. j < length (cn_tasks ?st1) \<and> on_wire (pc_of ?st1 j)} = {j. j < length (cn_tasks st) \<and> on_wire (pc_of st j)}"
    by (auto simp: tasks nth_append less_Suc_eq)
  ultimately show ?thesis
    using ok unfolding wire_ok_def data rest snd1 by simp
qed

lemma wire_ok_step:
  assumes "wire_ok A h k order st"
  shows "\<exists>order1. wire_ok A h k order1 (happens A T ev st)"
proof (cases ev)
  case (TaskRuns i n)
  with wire_ok_task_runs [OF assms] assms show ?thesis by (auto simp: on_task_def)
next
  case (Answered a)
  have "wire_ok A h k order (happens A T ev st)"
    by (intro wire_ok_same [OF assms]) (simp_all add: Answered)
  then show ?thesis ..
next
  case (QueryBegins request)
  with wire_ok_begins [OF assms] show ?thesis by auto
next
  case (QueryEnds i)
  with wire_ok_cancel [OF assms] assms show ?thesis
    by (auto simp: on_task_def query_ends_def split: option.splits)
next
  case (QueryDropped i)
  with wire_ok_cancel [OF assms] assms show ?thesis by (auto simp: on_task_def query_dropped_def)
next
  case (WriteFails i)
  with wire_ok_write_fails [OF assms] assms show ?thesis by (auto simp: on_task_def)
qed

lemma wire_ok_run:
  assumes "wire_ok A h k order st"
  shows "\<exists>order1. wire_ok A h k order1 (run_conn A T evs st)"
  using assms
proof (induction evs arbitrary: order st)
  case (Cons ev evs)
  from wire_ok_step [OF Cons.prems] obtain order1 where "wire_ok A h k order1 (happens A T ev st)" by blast
  from Cons.IH [OF this] show ?case by simp
qed auto

section \<open>What the server decrypts\<close>

definition starts_with :: "'a list \<Rightarrow> 'a list \<Rightarrow> bool" where
  "starts_with xs ys \<longleftrightarrow> (\<exists>zs. ys = xs @ zs)"

lemma starts_with_simps [simp]: "starts_with xs xs" "starts_with xs (xs @ ys)"
  by (simp_all add: starts_with_def)

lemma starts_with_trans: "starts_with xs ys \<Longrightarrow> starts_with ys zs \<Longrightarrow> starts_with xs zs"
  by (auto simp: starts_with_def)

lemma decrypt_all:
  assumes A: "adnl_laws A"
  shows "apply_keystream A k (fst (encrypt_all A k ds)) =
    (concat (map (frame_data A) ds), snd (encrypt_all A k ds))"
proof (induction ds arbitrary: k)
  case (Cons d ds)
  have one: "apply_keystream A k (fst (encrypt_data A k d)) = (frame_data A d, snd (encrypt_data A k d))"
    by (simp add: encrypt_data_def adnl_lawsD(5) [OF A])
  have "encrypt_all A k (d # ds) =
      (fst (encrypt_data A k d) @ fst (encrypt_all A (snd (encrypt_data A k d)) ds),
       snd (encrypt_all A (snd (encrypt_data A k d)) ds))"
    by (simp add: split_beta Let_def)
  then show ?case using Cons.IH [of "snd (encrypt_data A k d)"] one by (simp add: adnl_lawsD(3) [OF A])
qed (simp add: adnl_lawsD(2) [OF A])

lemma decrypt_prefix:
  assumes A: "adnl_laws A" and "wire @ rest = fst (encrypt_all A k ds)"
  shows "starts_with (fst (apply_keystream A k wire)) (concat (map (frame_data A) ds))"
proof -
  have "fst (apply_keystream A k (wire @ rest)) = concat (map (frame_data A) ds)"
    unfolding assms(2) by (simp add: decrypt_all [OF A])
  then have "concat (map (frame_data A) ds) = fst (apply_keystream A k wire) @
      fst (apply_keystream A (snd (apply_keystream A k wire)) rest)"
    unfolding adnl_lawsD(3) [OF A] by simp
  then show ?thesis unfolding starts_with_def ..
qed

section \<open>What a step leaves as it was\<close>

text \<open>Bytes that were written stay, and a task keeps its data; once cancelled before it took the
  lock it stays off the wire.\<close>

definition task_after :: "send_task \<Rightarrow> send_task \<Rightarrow> bool" where
  "task_after t t1 \<longleftrightarrow>
     sd_data t1 = sd_data t \<and> sd_chan t1 = sd_chan t \<and> (sd_cancelled t \<longrightarrow> sd_cancelled t1) \<and>
     (on_wire (sd_pc t) \<longrightarrow> on_wire (sd_pc t1)) \<and>
     (sd_cancelled t \<and> \<not> on_wire (sd_pc t) \<longrightarrow> \<not> on_wire (sd_pc t1))"

definition conn_after :: "'k adnl_conn \<Rightarrow> 'k adnl_conn \<Rightarrow> bool" where
  "conn_after st st1 \<longleftrightarrow>
     starts_with (sn_socket (cn_sender st)) (sn_socket (cn_sender st1)) \<and>
     length (cn_tasks st) \<le> length (cn_tasks st1) \<and>
     (\<forall>i<length (cn_tasks st). task_after (cn_tasks st ! i) (cn_tasks st1 ! i))"

lemma task_after_refl [simp]: "task_after t t"
  by (simp add: task_after_def)

lemma task_after_trans: "task_after t u \<Longrightarrow> task_after u v \<Longrightarrow> task_after t v"
  by (auto simp: task_after_def)

lemma conn_after_refl [simp]: "conn_after st st"
  by (simp add: conn_after_def)

lemma conn_after_trans: "conn_after s t \<Longrightarrow> conn_after t u \<Longrightarrow> conn_after s u"
  unfolding conn_after_def by (meson less_le_trans order_trans starts_with_trans task_after_trans)

lemma conn_after_tasks:
  assumes "starts_with (sn_socket (cn_sender st)) (sn_socket (cn_sender st1))"
    and "cn_tasks st1 = (cn_tasks st)[i := t]" and "task_after (cn_tasks st ! i) t"
  shows "conn_after st st1"
proof -
  have "task_after (cn_tasks st ! j) ((cn_tasks st)[i := t] ! j)" if "j < length (cn_tasks st)" for j
    using that assms(3) by (cases "j = i") simp_all
  with assms(1,2) show ?thesis by (simp add: conn_after_def)
qed

lemma conn_after_set:
  assumes "starts_with (sn_socket (cn_sender st)) (sn_socket s)" and "task_after (cn_tasks st ! i) t"
  shows "conn_after st (set_task i t (set_sender s st))"
  by (rule conn_after_tasks [OF _ _ assms(2)]) (simp_all add: assms(1))

lemma conn_after_cancel: "conn_after st (cancel i (cn_tasks st ! i) cache st)"
  by (rule conn_after_tasks [of _ _ i "(cn_tasks st ! i)\<lparr>sd_cancelled := True\<rparr>"])
    (simp_all add: cancel_def task_after_def)

lemma task_runs_after: "conn_after st (task_runs A i (cn_tasks st ! i) n st)"
proof (cases "pc_of st i")
  case CheckFirst
  show ?thesis unfolding task_runs_simps(1) [OF CheckFirst]
    by (rule conn_after_set) (use CheckFirst in \<open>simp_all add: task_after_def\<close>)
next
  case AwaitLock
  show ?thesis
  proof (cases "sn_owner (cn_sender st) = None")
    case True
    show ?thesis unfolding task_runs_simps(2) [OF AwaitLock True]
      by (rule conn_after_set) (use AwaitLock in \<open>simp_all add: task_after_def\<close>)
  qed (simp add: task_runs_stays(1) [OF AwaitLock])
next
  case CheckLocked
  show ?thesis
  proof (cases "sd_cancelled (cn_tasks st ! i)")
    case True
    show ?thesis unfolding task_runs_simps(3) [OF CheckLocked True]
      by (rule conn_after_set) (use CheckLocked in \<open>simp_all add: task_after_def\<close>)
  next
    case False
    show ?thesis unfolding task_runs_simps(4) [OF CheckLocked False]
      by (rule conn_after_set) (use CheckLocked False in \<open>simp_all add: task_after_def\<close>)
  qed
next
  case (WriteAll bs)
  show ?thesis
  proof (cases "bs = []")
    case True
    with WriteAll have w: "pc_of st i = WriteAll []" by simp
    show ?thesis unfolding task_runs_simps(5) [OF w]
      by (rule conn_after_set) (use w in \<open>simp_all add: task_after_def\<close>)
  next
    case False
    show ?thesis unfolding task_runs_simps(6) [OF WriteAll False]
      by (rule conn_after_set) (use WriteAll in \<open>simp_all add: task_after_def\<close>)
  qed
qed (simp_all add: task_runs_stays(2))

lemma happens_after: "conn_after st (happens A T ev st)"
proof -
  note conn_after_cancel [simp]
  show ?thesis
  proof (cases ev)
    case (QueryBegins request)
    then show ?thesis
      by (auto simp: conn_after_def query_begins_def nth_append split: prod.splits)
  next
    case (QueryEnds i)
    then show ?thesis by (auto simp: on_task_def query_ends_def split: option.splits)
  next
    case (QueryDropped i)
    then show ?thesis by (simp add: on_task_def query_dropped_def)
  next
    case (TaskRuns i n)
    then show ?thesis by (simp add: on_task_def task_runs_after)
  next
    case (WriteFails i)
    have "conn_after st (write_fails i (cn_tasks st ! i) st)"
    proof (cases "pc_of st i")
      case (WriteAll bs)
      then show ?thesis
        by (cases "bs = []")
          (auto simp: write_fails_def task_after_def intro!: conn_after_set)
    qed (simp_all add: write_fails_def)
    with WriteFails show ?thesis by (simp add: on_task_def)
  next
    case (Answered a)
    then show ?thesis by (simp add: conn_after_def)
  qed
qed

lemma run_after: "conn_after st (run_conn A T evs st)"
proof (induction evs arbitrary: st)
  case (Cons ev evs)
  from conn_after_trans [OF happens_after Cons.IH] show ?case by simp
qed simp

section \<open>Every task ends\<close>

fun steps_left :: "send_pc \<Rightarrow> nat" where
  "steps_left CheckFirst = 5"
| "steps_left AwaitLock = 4"
| "steps_left CheckLocked = 3"
| "steps_left (WriteAll bs) = (if bs = [] then 1 else 2)"
| "steps_left _ = 0"

fun ended :: "send_pc \<Rightarrow> bool" where
  "ended SendSkipped = True"
| "ended SendWritten = True"
| "ended SendBroken = True"
| "ended _ = False"

definition work_left :: "'k adnl_conn \<Rightarrow> nat" where
  "work_left st = (\<Sum>t\<leftarrow>cn_tasks st. steps_left (sd_pc t))"

lemma ended_iff: "ended pc \<longleftrightarrow> steps_left pc = 0"
  by (cases pc) auto

lemma work_left_0: "work_left st = 0 \<longleftrightarrow> (\<forall>t\<in>set (cn_tasks st). ended (sd_pc t))"
  by (auto simp: work_left_def ended_iff)

lemma sum_list_update_less:
  fixes f :: "'a \<Rightarrow> nat"
  assumes "i < length xs" and "f x < f (xs ! i)"
  shows "(\<Sum>t\<leftarrow>xs[i := x]. f t) < (\<Sum>t\<leftarrow>xs. f t)"
  using assms
proof (induction xs arbitrary: i)
  case (Cons y ys)
  then show ?case by (cases i) (auto simp: add_less_le_mono)
qed simp

text \<open>The holder of the lock can always go on, and when nobody holds it any task can.\<close>

lemma some_task_proceeds:
  assumes "lock_ok st" and "work_left st \<noteq> 0"
  shows "\<exists>i n. work_left (happens A T (TaskRuns i n) st) < work_left st"
proof -
  have less: "\<exists>n. work_left (happens A T (TaskRuns i n) st) < work_left st"
    if i: "i < length (cn_tasks st)" and run: "\<exists>n pc s1. task_runs A i (cn_tasks st ! i) n st =
        set_task i ((cn_tasks st ! i)\<lparr>sd_pc := pc\<rparr>) (set_sender s1 st) \<and> steps_left pc < steps_left (pc_of st i)"
    for i
  proof -
    from run obtain n pc s1 where r: "task_runs A i (cn_tasks st ! i) n st =
        set_task i ((cn_tasks st ! i)\<lparr>sd_pc := pc\<rparr>) (set_sender s1 st)"
      and down: "steps_left pc < steps_left (pc_of st i)" by blast
    have "work_left (happens A T (TaskRuns i n) st) < work_left st"
      using sum_list_update_less [of i "cn_tasks st" "\<lambda>t. steps_left (sd_pc t)" "(cn_tasks st ! i)\<lparr>sd_pc := pc\<rparr>"] i down
      by (simp add: work_left_def on_task_def r)
    then show ?thesis by blast
  qed
  show ?thesis
  proof (cases "sn_owner (cn_sender st)")
    case (Some i)
    then have i: "i < length (cn_tasks st)" and hold: "holds_lock (pc_of st i)"
      using assms(1) unfolding lock_ok_def by blast+
    have "\<exists>n pc s1. task_runs A i (cn_tasks st ! i) n st =
        set_task i ((cn_tasks st ! i)\<lparr>sd_pc := pc\<rparr>) (set_sender s1 st) \<and> steps_left pc < steps_left (pc_of st i)"
    proof (cases "pc_of st i")
      case CheckLocked
      have "steps_left SendSkipped < steps_left (pc_of st i)"
        "steps_left (WriteAll (fst (encrypt_data A (sn_cipher (cn_sender st)) (data_of st i)))) < steps_left (pc_of st i)"
        by (simp_all add: CheckLocked)
      with task_runs_simps(3,4) [OF CheckLocked] show ?thesis
        by (cases "sd_cancelled (cn_tasks st ! i)") blast+
    next
      case (WriteAll bs)
      show ?thesis
      proof (cases "bs = []")
        case True
        with WriteAll have w: "pc_of st i = WriteAll []" by simp
        have "steps_left SendWritten < steps_left (pc_of st i)" by (simp add: w)
        with task_runs_simps(5) [OF w] show ?thesis by blast
      next
        case False
        have "steps_left (WriteAll (drop (length bs) bs)) < steps_left (pc_of st i)" using False by (simp add: WriteAll)
        with task_runs_simps(6) [OF WriteAll False] show ?thesis by blast
      qed
    qed (use hold in simp_all)
    from less [OF i this] show ?thesis by blast
  next
    case None
    from assms(2) obtain t where "t \<in> set (cn_tasks st)" and "\<not> ended (sd_pc t)" by (auto simp: work_left_0)
    then obtain i where i: "i < length (cn_tasks st)" and left: "\<not> ended (pc_of st i)"
      by (auto simp: in_set_conv_nth)
    have free: "\<not> holds_lock (pc_of st i)" using assms(1) None i unfolding lock_ok_def by auto
    have "\<exists>n pc s1. task_runs A i (cn_tasks st ! i) n st =
        set_task i ((cn_tasks st ! i)\<lparr>sd_pc := pc\<rparr>) (set_sender s1 st) \<and> steps_left pc < steps_left (pc_of st i)"
    proof (cases "pc_of st i")
      case CheckFirst
      have "steps_left (if sd_cancelled (cn_tasks st ! i) then SendSkipped else AwaitLock) < steps_left (pc_of st i)"
        by (simp add: CheckFirst)
      with task_runs_simps(1) [OF CheckFirst] show ?thesis by blast
    next
      case AwaitLock
      have "steps_left CheckLocked < steps_left (pc_of st i)" by (simp add: AwaitLock)
      with task_runs_simps(2) [OF AwaitLock None] show ?thesis by blast
    qed (use free left in simp_all)
    from less [OF i this] show ?thesis by blast
  qed
qed

lemma tasks_can_end:
  assumes "wire_ok A h k order st"
  shows "\<exists>runs. \<forall>t\<in>set (cn_tasks (run_conn A T (map (\<lambda>(i, n). TaskRuns i n) runs) st)). ended (sd_pc t)"
  using assms
proof (induction "work_left st" arbitrary: st order rule: less_induct)
  case less
  show ?case
  proof (cases "work_left st = 0")
    case True
    then show ?thesis by (intro exI [of _ "[]"]) (simp add: work_left_0)
  next
    case False
    have "lock_ok st" using less.prems by (simp add: wire_ok_def)
    from some_task_proceeds [OF this False] obtain i n
      where down: "work_left (happens A T (TaskRuns i n) st) < work_left st" by blast
    from wire_ok_step [OF less.prems] obtain order1 where "wire_ok A h k order1 (happens A T (TaskRuns i n) st)" by blast
    from less.hyps [OF down this] obtain runs where
      "\<forall>t\<in>set (cn_tasks (run_conn A T (map (\<lambda>(i, n). TaskRuns i n) runs) (happens A T (TaskRuns i n) st))). ended (sd_pc t)"
      by blast
    then show ?thesis by (intro exI [of _ "(i, n) # runs"]) simp
  qed
qed

text \<open>The stream of a run from the start of the connection.\<close>

lemma stream_of_run:
  assumes A: "adnl_laws A" and "st = run_conn A T evs (connected A pk sk buf)"
    and "\<not> sn_failed (cn_sender st)"
  shows "\<exists>order wire. distinct order \<and>
    set order = {i. i < length (cn_tasks st) \<and> on_wire (pc_of st i)} \<and>
    sn_socket (cn_sender st) = build_handshake_packet A pk sk buf @ wire \<and>
    starts_with (fst (apply_keystream A (snd (connect_ciphers A buf)) wire))
      (concat (map (\<lambda>i. frame_data A (data_of st i)) order)) \<and>
    (sn_owner (cn_sender st) = None \<longrightarrow> fst (apply_keystream A (snd (connect_ciphers A buf)) wire) =
      concat (map (\<lambda>i. frame_data A (data_of st i)) order))"
proof -
  let ?h = "build_handshake_packet A pk sk buf" and ?k = "snd (connect_ciphers A buf)"
  from wire_ok_run [OF wire_ok_connected [of A pk sk buf], of T evs] obtain order
    where ok: "wire_ok A ?h ?k order st" by (auto simp: assms(2))
  from run_after [of "connected A pk sk buf" A T evs] obtain wire
    where socket: "sn_socket (cn_sender st) = ?h @ wire"
    by (auto simp: assms(2) conn_after_def starts_with_def connected_def)
  have "?h @ wire @ rest_of st = ?h @ fst (encrypt_all A ?k (map (data_of st) order))"
    using ok assms(3) socket by (simp add: wire_ok_def)
  then have wire: "wire @ rest_of st = fst (encrypt_all A ?k (map (data_of st) order))" by simp
  show ?thesis
  proof (intro exI [of _ order] exI [of _ wire] conjI impI)
    show "distinct order" and "set order = {i. i < length (cn_tasks st) \<and> on_wire (pc_of st i)}"
      using ok by (simp_all add: wire_ok_def)
    show "starts_with (fst (apply_keystream A ?k wire)) (concat (map (\<lambda>i. frame_data A (data_of st i)) order))"
      using decrypt_prefix [OF A wire] by (simp add: comp_def)
    assume "sn_owner (cn_sender st) = None"
    then have "wire = fst (encrypt_all A ?k (map (data_of st) order))" using wire by (simp add: rest_of_def)
    then show "fst (apply_keystream A ?k wire) = concat (map (\<lambda>i. frame_data A (data_of st i)) order)"
      by (simp add: decrypt_all [OF A] comp_def)
  qed (fact socket)
qed

end
