(* ===== verification/Sending_Properties.thy ===== *)
theory Sending_Properties
  imports Adnl_Sending Demo_Lite
begin

text \<open>The properties of the sending side of a connection, and a small run to try them on.\<close>

section \<open>A small run\<close>

text \<open>Two queries; the first is dropped before its task gets the lock, the second is written in pieces.\<close>

definition demo_conn :: "nat adnl_conn" where
  "demo_conn = connected demo_adnl (replicate 32 1) (replicate 32 2) (replicate 160 3)"

definition demo_drop :: "conn_event list" where
  "demo_drop = [QueryBegins [1], QueryBegins [2], TaskRuns 0 0, TaskRuns 1 0, TaskRuns 1 0, QueryDropped 0]"

definition demo_rest :: "nat \<Rightarrow> conn_event list" where
  "demo_rest n = [TaskRuns 1 0, TaskRuns 0 0, TaskRuns 1 3, TaskRuns 1 n, TaskRuns 1 0, TaskRuns 0 0, TaskRuns 0 0]"

abbreviation demo_dropped :: "nat adnl_conn" where
  "demo_dropped \<equiv> run_conn demo_adnl demo_tl demo_drop demo_conn"

lemma demo_dropped_tasks:
  obtains d0 c0 d1 c1 where "cn_tasks demo_dropped =
      [\<lparr>sd_data = d0, sd_chan = c0, sd_pc = AwaitLock, sd_cancelled = True\<rparr>,
       \<lparr>sd_data = d1, sd_chan = c1, sd_pc = CheckLocked, sd_cancelled = False\<rparr>]"
    and "sn_owner (cn_sender demo_dropped) = Some 1" and "\<not> sn_failed (cn_sender demo_dropped)"
proof -
  obtain c0 d0 sh0 where q0: "start_query demo_tl [1] (cn_shared demo_conn) = ((c0, d0), sh0)" by (metis prod.exhaust)
  obtain c1 d1 sh1 where q1: "start_query demo_tl [2] sh0 = ((c1, d1), sh1)" by (metis prod.exhaust)
  have init: "cn_tasks demo_conn = []" "sn_owner (cn_sender demo_conn) = None" "\<not> sn_failed (cn_sender demo_conn)"
    by (simp_all add: demo_conn_def connected_def)
  show thesis
    by (rule that [of d0 c0 d1 c1])
      (simp_all add: demo_drop_def query_begins_def q0 q1 on_task_def init task_runs_def Let_def set_task_def
        set_sender_def query_dropped_def cancel_def set_cache_def)
qed

lemma demo_rest_tasks:
  assumes "length d1 + 68 \<le> n"
    and "cn_tasks st = [\<lparr>sd_data = d0, sd_chan = c0, sd_pc = AwaitLock, sd_cancelled = True\<rparr>,
       \<lparr>sd_data = d1, sd_chan = c1, sd_pc = CheckLocked, sd_cancelled = False\<rparr>]"
    and "sn_owner (cn_sender st) = Some 1"
  shows "map sd_pc (cn_tasks (run_conn demo_adnl T (demo_rest n) st)) = [SendSkipped, SendWritten] \<and>
    sn_owner (cn_sender (run_conn demo_adnl T (demo_rest n) st)) = None \<and>
    sn_failed (cn_sender (run_conn demo_adnl T (demo_rest n) st)) = sn_failed (cn_sender st)"
proof -
  obtain bs k where e: "encrypt_data demo_adnl (sn_cipher (cn_sender st)) d1 = (bs, k)" by fastforce
  have "length bs = length d1 + 68"
    using arg_cong [OF e, of "\<lambda>x. length (fst x)"]
    by (simp add: encrypt_data_def adnl_lawsD(4) [OF demo_adnl_laws] length_frame [OF demo_adnl_laws])
  then have "bs \<noteq> []" "drop 3 bs \<noteq> []" "drop n (drop 3 bs) = []" "length bs \<le> n + 3" using assms(1) by auto
  then show ?thesis
    by (simp add: demo_rest_def on_task_def assms task_runs_def Let_def set_task_def set_sender_def e)
qed

section \<open>The properties\<close>

text \<open>C20. Whatever queries begin, end or are dropped, and in whatever order their tasks and the socket
  take their steps: as long as no write failed, what the server decrypts behind the handshake is a
  beginning of whole packets, one for every task that found its query alive when it held the lock,
  each task once and with the data of its query. When the lock is free the packets are complete.\<close>

theorem sent_stream_is_packets:
  assumes "adnl_laws A" and "st = run_conn A T evs (connected A pk sk buf)" and "\<not> sn_failed (cn_sender st)"
  shows "\<exists>order wire. distinct order \<and>
    set order = {i. i < length (cn_tasks st) \<and> on_wire (sd_pc (cn_tasks st ! i))} \<and>
    sn_socket (cn_sender st) = build_handshake_packet A pk sk buf @ wire \<and>
    starts_with (fst (apply_keystream A (snd (connect_ciphers A buf)) wire))
      (concat (map (\<lambda>i. frame_data A (sd_data (cn_tasks st ! i))) order)) \<and>
    (sn_owner (cn_sender st) = None \<longrightarrow> fst (apply_keystream A (snd (connect_ciphers A buf)) wire) =
      concat (map (\<lambda>i. frame_data A (sd_data (cn_tasks st ! i))) order))"
  by (rule stream_of_run [OF assms])

lemma sent_stream_is_packets_witness:
  "\<exists>n wire data. sn_socket (cn_sender (run_conn demo_adnl demo_tl (demo_drop @ demo_rest n) demo_conn)) =
      build_handshake_packet demo_adnl (replicate 32 1) (replicate 32 2) (replicate 160 3) @ wire \<and>
    fst (apply_keystream demo_adnl (snd (connect_ciphers demo_adnl (replicate 160 3))) wire) = frame_data demo_adnl data"
proof -
  from demo_dropped_tasks obtain d0 c0 d1 c1 where
    tasks: "cn_tasks demo_dropped = [\<lparr>sd_data = d0, sd_chan = c0, sd_pc = AwaitLock, sd_cancelled = True\<rparr>,
       \<lparr>sd_data = d1, sd_chan = c1, sd_pc = CheckLocked, sd_cancelled = False\<rparr>]"
    and lock: "sn_owner (cn_sender demo_dropped) = Some 1" "\<not> sn_failed (cn_sender demo_dropped)" by blast
  define st where "st = run_conn demo_adnl demo_tl (demo_rest (length d1 + 68)) demo_dropped"
  have run: "st = run_conn demo_adnl demo_tl (demo_drop @ demo_rest (length d1 + 68))
      (connected demo_adnl (replicate 32 1) (replicate 32 2) (replicate 160 3))"
    by (simp add: st_def demo_conn_def)
  from demo_rest_tasks [OF order.refl tasks lock(1), of demo_tl] lock(2)
  have ends: "map sd_pc (cn_tasks st) = [SendSkipped, SendWritten]" "sn_owner (cn_sender st) = None"
    "\<not> sn_failed (cn_sender st)" by (simp_all add: st_def)
  then obtain t u where two: "cn_tasks st = [t, u]" "sd_pc t = SendSkipped" "sd_pc u = SendWritten" by auto
  have sent: "{i. i < length (cn_tasks st) \<and> on_wire (sd_pc (cn_tasks st ! i))} = {1}"
    by (auto simp: two less_Suc_eq numeral_2_eq_2)
  have one: "order = [1]" if "distinct order" "set order = {1 :: nat}" for order
  proof -
    have "length order = 1" using distinct_card [OF that(1)] that(2) by simp
    with that(2) show ?thesis by (cases order) auto
  qed
  from sent_stream_is_packets [OF demo_adnl_laws run ends(3)] obtain order wire where
    "distinct order" "set order = {1}" and
    "sn_socket (cn_sender st) = build_handshake_packet demo_adnl (replicate 32 1) (replicate 32 2) (replicate 160 3) @ wire" and
    "fst (apply_keystream demo_adnl (snd (connect_ciphers demo_adnl (replicate 160 3))) wire) =
      concat (map (\<lambda>i. frame_data demo_adnl (sd_data (cn_tasks st ! i))) order)"
    unfolding sent using ends(2) by blast
  with one [of order] run show ?thesis unfolding demo_conn_def by auto
qed

text \<open>C21. A query that is dropped before its task saw it alive under the lock is never sent, and a
  packet that went onto the wire is not called back: a later drop does not cut it off.\<close>

theorem dropped_query_never_sent:
  assumes "i < length (cn_tasks st)" and "sd_cancelled (cn_tasks st ! i)"
  shows "on_wire (sd_pc (cn_tasks (run_conn A T evs st) ! i)) = on_wire (sd_pc (cn_tasks st ! i)) \<and>
    sd_data (cn_tasks (run_conn A T evs st) ! i) = sd_data (cn_tasks st ! i)"
  using run_after [of st A T evs] assms by (auto simp: conn_after_def task_after_def)

lemma dropped_query_never_sent_witness:
  "\<not> on_wire (sd_pc (cn_tasks (run_conn demo_adnl demo_tl (demo_rest 300) demo_dropped) ! 0))"
proof -
  from demo_dropped_tasks obtain t u where "cn_tasks demo_dropped = [t, u]" "sd_pc t = AwaitLock" "sd_cancelled t"
    by (metis send_task.select_convs(3,4))
  then show ?thesis
    using dropped_query_never_sent [of 0 demo_dropped demo_adnl demo_tl "demo_rest 300"] by simp
qed

text \<open>C22. No drop of a query and no failed write leaves the lock taken: from every state of a run the
  tasks alone can go on until each of them has ended.\<close>

theorem sends_never_stuck:
  "\<exists>runs. \<forall>t\<in>set (cn_tasks (run_conn A T (map (\<lambda>(i, n). TaskRuns i n) runs)
      (run_conn A T evs (connected A pk sk buf)))). ended (sd_pc t)"
proof -
  from wire_ok_run [OF wire_ok_connected [of A pk sk buf], of T evs] obtain order where
    "wire_ok A (build_handshake_packet A pk sk buf) (snd (connect_ciphers A buf)) order
       (run_conn A T evs (connected A pk sk buf))" by blast
  then show ?thesis by (rule tasks_can_end)
qed

lemma sends_never_stuck_witness:
  "\<exists>runs. \<forall>t\<in>set (cn_tasks (run_conn demo_adnl demo_tl (map (\<lambda>(i, n). TaskRuns i n) runs)
      demo_dropped)). ended (sd_pc t)"
  unfolding demo_conn_def by (rule sends_never_stuck)

end
