(* ===== verification/Gql_Client.thy ===== *)
theory Gql_Client
  imports Jrpc_Client Proof_Api_Legacy
begin

text \<open>
  The GraphQL clients \<open>proof-api-legacy/src/client.rs\<close> and \<open>sync-service/src/client/legacy.rs\<close>: the
  text of their queries, the request object, and how the answers are read. Sending a request,
  parsing the text of an answer into a JSON value, and the text form of hashes, addresses and
  cells are arguments.
\<close>

section \<open>Numbers in queries\<close>

fun format_nat :: "nat \<Rightarrow> string" where
  "format_nat n = (if n < 10 then [char_of (48 + n)] else format_nat (n div 10) @ [char_of (48 + n mod 10)])"

declare format_nat.simps [simp del]

definition format_i32 :: "i32 \<Rightarrow> string" where
  "format_i32 w = (if sint w < 0 then CHR ''-'' # format_nat (nat (- sint w)) else format_nat (nat (sint w)))"

section \<open>Queries\<close>

definition block_fields :: string where
  "block_fields = ''workchain_id shard seq_no file_hash boc signatures{signatures{node_id r s}}''"

definition quoted :: "string \<Rightarrow> string" where
  "quoted s = CHR 0x22 # s @ [CHR 0x22]"

definition tx_query :: "(hash_bytes \<Rightarrow> string) \<Rightarrow> hash_bytes \<Rightarrow> string" where
  "tx_query show_hash h =
     ''{blockchain{transaction(hash:'' @ quoted (show_hash h) @ ''){master_seq_no block_id lt account_addr}}}''"

definition seqno_query :: "i32 \<Rightarrow> u64 \<Rightarrow> u32 \<Rightarrow> string" where
  "seqno_query wc pfx n =
     ''{blockchain{block_by_seq_no(workchain:'' @ format_i32 wc @ '',shard:'' @ quoted (format_016x pfx) @
     '',seq_no:'' @ format_nat (unat n) @ ''){'' @ block_fields @ ''}}}''"

definition block_query_text :: "(hash_bytes \<Rightarrow> string) \<Rightarrow> block_query \<Rightarrow> string" where
  "block_query_text show_hash by =
     (case by of
        ByHash h \<Rightarrow> ''{blockchain{block(hash:'' @ quoted (show_hash h) @ ''){'' @ block_fields @ ''}}}''
      | BySeqno b \<Rightarrow> seqno_query (workchain (shard b)) (prefix (shard b)) (seqno b))"

definition key_block_query :: "u32 \<Rightarrow> string" where
  "key_block_query n =
     ''{blockchain{block_by_seq_no(workchain:-1,shard:'' @ quoted (format_016x (prefix MASTERCHAIN)) @
     '',seq_no:'' @ format_nat (unat n) @ ''){'' @ block_fields @ ''}}}''"

definition last_seqno_query :: string where
  "last_seqno_query = ''{blockchain{key_blocks(last:1){edges{node{seq_no}}}}}''"

definition last_boc_query :: string where
  "last_boc_query = ''{blockchain{key_blocks(last:1){edges{node{boc}}}}}''"

definition gql_request :: "string \<Rightarrow> json" where
  "gql_request query_text = JObj [(''query'', JStr query_text)]"

section \<open>Answers\<close>

record 'c gql_values =
  gv_hash :: "json \<Rightarrow> hash_bytes option"
  gv_addr :: "json \<Rightarrow> std_addr option"
  gv_boc :: "json \<Rightarrow> 'c option"
  gv_show_hash :: "hash_bytes \<Rightarrow> string"

definition de_shard_prefix :: "json \<Rightarrow> u64 option" where
  "de_shard_prefix v = Option.bind (de_str v) gql_shard_prefix"

definition de_u64 :: "json \<Rightarrow> u64 option" where
  "de_u64 v = Option.bind (de_str v) gql_u64"

definition de_signature :: "'c gql_values \<Rightarrow> json \<Rightarrow> gql_signature option" where
  "de_signature V v =
     (case struct_fields [''node_id'', ''r'', ''s''] v of
        Some [node_id, r, s] \<Rightarrow>
          Option.bind (de_required (gv_hash V) node_id) (\<lambda>node_id.
          Option.bind (de_required (gv_hash V) r) (\<lambda>r.
          Option.bind (de_required (gv_hash V) s) (\<lambda>s.
          Some \<lparr>gs_node_id = node_id, gs_r = r, gs_s = s\<rparr>)))
      | _ \<Rightarrow> None)"

definition de_signatures :: "'c gql_values \<Rightarrow> json \<Rightarrow> gql_signature list option option" where
  "de_signatures V = de_single ''signatures'' (de_option (de_vec (de_signature V)))"

definition block_names :: "string list" where
  "block_names = [''workchain_id'', ''shard'', ''seq_no'', ''file_hash'', ''boc'', ''signatures'']"

definition de_block :: "'c gql_values \<Rightarrow> json \<Rightarrow> 'c gql_block option" where
  "de_block V v =
     (case struct_fields block_names v of
        Some [wc, sh, n, fh, boc, sigs] \<Rightarrow>
          Option.bind (de_required de_i32 wc) (\<lambda>wc.
          Option.bind (de_required de_shard_prefix sh) (\<lambda>sh.
          Option.bind (de_required de_u32 n) (\<lambda>n.
          Option.bind (de_required (gv_hash V) fh) (\<lambda>fh.
          Option.bind (de_required (gv_boc V) boc) (\<lambda>boc.
          Option.bind (de_required (de_signatures V) sigs) (\<lambda>sigs.
          Some \<lparr>gb_workchain_id = wc, gb_shard = sh, gb_seq_no = n, gb_file_hash = fh, gb_boc = boc,
            gb_signatures = sigs\<rparr>))))))
      | _ \<Rightarrow> None)"

definition tx_names :: "string list" where
  "tx_names = [''master_seq_no'', ''block_id'', ''lt'', ''account_addr'']"

definition de_tx_info :: "'c gql_values \<Rightarrow> json \<Rightarrow> tx_info_brief option" where
  "de_tx_info V v =
     (case struct_fields tx_names v of
        Some [n, block_id, lt, addr] \<Rightarrow>
          Option.bind (de_required de_u32 n) (\<lambda>n.
          Option.bind (de_required (gv_hash V) block_id) (\<lambda>block_id.
          Option.bind (de_required de_u64 lt) (\<lambda>lt.
          Option.bind (de_required (gv_addr V) addr) (\<lambda>addr.
          Some \<lparr>ti_master_seq_no = n, ti_block_id = block_id, ti_lt = lt, ti_account_addr = addr\<rparr>))))
      | _ \<Rightarrow> None)"

definition de_edges :: "(json \<Rightarrow> 'a option) \<Rightarrow> json \<Rightarrow> 'a list option" where
  "de_edges de = de_single ''edges'' (de_required (de_vec (de_single ''node'' (de_required de))))"

text \<open>The answer to a query: the field asked for inside \<open>data\<close> and \<open>blockchain\<close>.\<close>

definition de_answer :: "string \<Rightarrow> (json option \<Rightarrow> 'a option) \<Rightarrow> json \<Rightarrow> 'a option" where
  "de_answer name de =
     de_single ''data'' (de_required (de_single ''blockchain'' (de_required (de_single name de))))"

section \<open>The client of the proof API\<close>

text \<open>\<open>gs_send\<close> is the text of the server's answer to a request.\<close>

record gql_server =
  gs_send :: "json \<Rightarrow> any_error + string"
  gs_parse :: "string \<Rightarrow> json option"

definition gql_post :: "gql_server \<Rightarrow> (json \<Rightarrow> 'a option) \<Rightarrow> string \<Rightarrow> any_error + 'a" where
  "gql_post S de query_text =
     bindR (gs_send S (gql_request query_text)) (\<lambda>res.
     ok_or (Msg ''invalid response'') (Option.bind (gs_parse S res) de))"

definition get_tx_info :: "'c gql_values \<Rightarrow> gql_server \<Rightarrow> hash_bytes \<Rightarrow> any_error + tx_info_brief option" where
  "get_tx_info V S h =
     gql_post S (de_answer ''transaction'' (de_option (de_tx_info V))) (tx_query (gv_show_hash V) h)"

definition post_block :: "'c gql_values \<Rightarrow> gql_server \<Rightarrow> block_query \<Rightarrow> any_error + 'c gql_block option" where
  "post_block V S by =
     gql_post S
       (de_answer (case by of ByHash h \<Rightarrow> ''block'' | BySeqno b \<Rightarrow> ''block_by_seq_no'') (de_option (de_block V)))
       (block_query_text (gv_show_hash V) by)"

text \<open>The proof builder over a server.\<close>

definition over_server ::
  "'c gql_values \<Rightarrow> gql_server \<Rightarrow> ('c, 's, 'u, 'h, 'g, 'b) legacy_api_env \<Rightarrow> ('c, 's, 'u, 'h, 'g, 'b) legacy_api_env" where
  "over_server V S E = E\<lparr>la_tx_info := get_tx_info V S, la_post := post_block V S\<rparr>"

section \<open>The client of the sync service\<close>

definition gql_call ::
  "(json \<Rightarrow> ('w, string) call) \<Rightarrow> (string \<Rightarrow> json option) \<Rightarrow> (json \<Rightarrow> 'a option) \<Rightarrow> string \<Rightarrow> ('w, 'a) call" where
  "gql_call send parse_json de query_text =
     then_result (send (gql_request query_text)) (\<lambda>res.
     ok_or (Msg ''invalid response'') (Option.bind (parse_json res) de))"

definition gql_client ::
  "'c gql_values \<Rightarrow> (json \<Rightarrow> ('w, string) call) \<Rightarrow> (string \<Rightarrow> json option) \<Rightarrow> ('w, 'c) gql_lib" where
  "gql_client V send parse_json =
     \<lparr>gl_key_block_seqnos = gql_call send parse_json
        (de_answer ''key_blocks'' (de_required (de_edges (de_single ''seq_no'' (de_required de_u32))))) last_seqno_query,
      gl_key_block_bocs = gql_call send parse_json
        (de_answer ''key_blocks'' (de_required (de_edges (de_single ''boc'' (de_required (gv_boc V)))))) last_boc_query,
      gl_block_by_seqno = (\<lambda>n. gql_call send parse_json
        (de_answer ''block_by_seq_no'' (de_option (de_block V))) (key_block_query n))\<rparr>"

section \<open>Queries can be told apart\<close>

text \<open>Text up to the first occurrence of a character.\<close>

lemma split_at_char:
  assumes "xs @ c # ys = us @ c # vs" and "c \<notin> set xs" and "c \<notin> set us"
  shows "xs = us \<and> ys = vs"
  using assms
proof (induction xs arbitrary: us)
  case Nil
  then show ?case by (cases us) auto
next
  case (Cons x xs)
  then show ?case by (cases us) auto
qed

definition digit_value :: "char \<Rightarrow> nat" where
  "digit_value c = of_char c - 48"

definition read_nat :: "string \<Rightarrow> nat" where
  "read_nat s = foldl (\<lambda>n c. 10 * n + digit_value c) 0 s"

lemma digit_value_char: "d < 10 \<Longrightarrow> digit_value (char_of (48 + d :: nat)) = d"
  by (simp add: digit_value_def)

lemma read_format_nat [simp]: "read_nat (format_nat n) = n"
proof (induction n rule: format_nat.induct)
  case (1 n)
  show ?case
  proof (cases "n < 10")
    case False
    with 1 show ?thesis
      by (subst format_nat.simps) (simp add: read_nat_def digit_value_char)
  qed (subst format_nat.simps, simp add: read_nat_def digit_value_char)
qed

lemma format_nat_inj [simp]: "format_nat m = format_nat n \<longleftrightarrow> m = n"
  by (metis read_format_nat)

definition is_digit :: "char \<Rightarrow> bool" where
  "is_digit c \<longleftrightarrow> (48 :: nat) \<le> of_char c \<and> of_char c \<le> (57 :: nat)"

lemma format_nat_digits: "c \<in> set (format_nat n) \<Longrightarrow> is_digit c"
proof (induction n rule: format_nat.induct)
  case (1 n)
  have char: "is_digit (char_of (48 + d :: nat))" if "d < 10" for d
    using that by (simp add: is_digit_def)
  show ?case
  proof (cases "n < 10")
    case True
    with 1 char show ?thesis by (subst (asm) (2) format_nat.simps) simp
  next
    case False
    with 1 char [of "n mod 10"] show ?thesis by (subst (asm) (2) format_nat.simps) auto
  qed
qed

lemma not_digits [simp]:
  "\<not> is_digit CHR '',''" "\<not> is_digit CHR '')''" "\<not> is_digit CHR ''-''"
  by (simp_all add: is_digit_def)

lemma format_nat_no [simp]:
  "CHR '','' \<notin> set (format_nat n)" "CHR '')'' \<notin> set (format_nat n)" "CHR ''-'' \<notin> set (format_nat n)"
  using format_nat_digits not_digits by blast+

lemma format_i32_no [simp]: "CHR '','' \<notin> set (format_i32 w)"
  by (simp add: format_i32_def)

lemma format_i32_inj [simp]: "format_i32 v = format_i32 w \<longleftrightarrow> v = w"
proof
  assume eq: "format_i32 v = format_i32 w"
  have minus: "format_nat m \<noteq> CHR ''-'' # s" for m s
    using format_nat_no(3) [of m] by (metis list.set_intros(1))
  have "sint v = sint w"
    using eq minus by (auto simp: format_i32_def minus [symmetric] split: if_splits)
  then show "v = w" by (simp add: signed_word_eqI)
qed simp

lemma format_016x_inj [simp]: "format_016x v = format_016x w \<longleftrightarrow> v = w"
  by (metis gql_shard_prefix_format option.inject)

lemma hex_char_not_quote: "d < 16 \<Longrightarrow> hex_char d \<noteq> CHR 0x22"
  using hex_digit_char [of d] by (auto simp: hex_digit_def)

lemma hex_digits_no_quote: "CHR 0x22 \<notin> set (hex_digits k n)"
proof (induction k)
  case (Suc k)
  have "hex_char (n div 16 ^ k mod 16) \<noteq> CHR 0x22" by (rule hex_char_not_quote) simp
  with Suc show ?case by auto
qed simp

lemma format_016x_no [simp]: "CHR 0x22 \<notin> set (format_016x w)"
  by (simp only: format_016x_def hex_digits_no_quote not_False_eq_True)

text \<open>Hashes have different texts, without a quotation mark.\<close>

definition shows_hashes :: "(hash_bytes \<Rightarrow> string) \<Rightarrow> bool" where
  "shows_hashes show_hash \<longleftrightarrow> inj show_hash \<and> (\<forall>h. CHR 0x22 \<notin> set (show_hash h))"

lemma quoted_split:
  assumes "quoted xs @ ys = quoted us @ vs" and "CHR 0x22 \<notin> set xs" and "CHR 0x22 \<notin> set us"
  shows "xs = us \<and> ys = vs"
  using split_at_char [of xs "CHR 0x22" ys us vs] assms by (simp add: quoted_def)

lemma seqno_query_inj [simp]:
  "seqno_query wc pfx n = seqno_query wc1 pfx1 n1 \<longleftrightarrow> wc = wc1 \<and> pfx = pfx1 \<and> n = n1"
proof
  assume "seqno_query wc pfx n = seqno_query wc1 pfx1 n1"
  then have "format_i32 wc @ CHR '','' # ''shard:'' @ quoted (format_016x pfx) @ '',seq_no:'' @ format_nat (unat n) @
      ''){'' @ block_fields @ ''}}}'' =
    format_i32 wc1 @ CHR '','' # ''shard:'' @ quoted (format_016x pfx1) @ '',seq_no:'' @ format_nat (unat n1) @
      ''){'' @ block_fields @ ''}}}''"
    by (simp add: seqno_query_def)
  from split_at_char [OF this] have wc: "wc = wc1" and
    "quoted (format_016x pfx) @ '',seq_no:'' @ format_nat (unat n) @ ''){'' @ block_fields @ ''}}}'' =
     quoted (format_016x pfx1) @ '',seq_no:'' @ format_nat (unat n1) @ ''){'' @ block_fields @ ''}}}''"
    by simp_all
  from quoted_split [OF this(2)] have pfx: "pfx = pfx1" and
    "format_nat (unat n) @ CHR '')'' # ''{'' @ block_fields @ ''}}}'' =
     format_nat (unat n1) @ CHR '')'' # ''{'' @ block_fields @ ''}}}''"
    by simp_all
  from split_at_char [OF this(2)] have "unat n = unat n1" by simp
  with wc pfx show "wc = wc1 \<and> pfx = pfx1 \<and> n = n1" by (simp add: word_unat_eq_iff)
qed simp

lemma block_id_short_eqI:
  fixes a b :: block_id_short
  assumes "workchain (shard a) = workchain (shard b)" and "prefix (shard a) = prefix (shard b)" and "seqno a = seqno b"
  shows "a = b"
  using assms by (cases a; cases b; cases "shard a"; cases "shard b") auto

lemma block_query_text_inj:
  assumes "shows_hashes show_hash" and "block_query_text show_hash q = block_query_text show_hash r"
  shows "q = r"
proof (cases q)
  case (ByHash h)
  have no: "seqno_query wc pfx n \<noteq> ''{blockchain{block(hash:'' @ s" for wc pfx n s
    by (simp add: seqno_query_def)
  from assms(2) ByHash no obtain h1 where r: "r = ByHash h1"
    by (cases r) (auto simp: block_query_text_def dest: sym)
  with assms(2) ByHash have "quoted (show_hash h) @ ''){'' @ block_fields @ ''}}}'' =
      quoted (show_hash h1) @ ''){'' @ block_fields @ ''}}}''" by (simp add: block_query_text_def)
  from quoted_split [OF this] have "show_hash h = show_hash h1" using assms(1) by (simp add: shows_hashes_def)
  with assms(1) ByHash r show ?thesis by (simp add: shows_hashes_def inj_def)
next
  case (BySeqno b)
  have no: "''{blockchain{block(hash:'' @ s \<noteq> seqno_query wc pfx n" for wc pfx n s
    by (simp add: seqno_query_def)
  from assms(2) BySeqno no obtain c where r: "r = BySeqno c"
    by (cases r) (auto simp: block_query_text_def dest: sym)
  with assms(2) BySeqno show ?thesis
    by (auto simp: block_query_text_def intro: block_id_short_eqI)
qed

lemma tx_query_inj:
  assumes "shows_hashes show_hash" and "tx_query show_hash g = tx_query show_hash h"
  shows "g = h"
proof -
  from assms(2) have "quoted (show_hash g) @ ''){master_seq_no block_id lt account_addr}}}'' =
      quoted (show_hash h) @ ''){master_seq_no block_id lt account_addr}}}''" by (simp add: tx_query_def)
  from quoted_split [OF this] have "show_hash g = show_hash h" using assms(1) by (simp add: shows_hashes_def)
  with assms(1) show ?thesis by (simp add: shows_hashes_def inj_def)
qed

lemma tx_query_no_block_query: "tx_query show_hash h \<noteq> block_query_text show_hash q"
  by (cases q) (simp_all add: tx_query_def block_query_text_def seqno_query_def)

text \<open>The sync service asks for a key block with the words of the proof API.\<close>

lemma format_i32_minus_one: "format_i32 (-1) = ''-1''"
  by (simp add: format_i32_def format_nat.simps [of "Suc 0"] char_of_def bit_0)

lemma key_block_query_eq:
  "key_block_query n = block_query_text show_hash (BySeqno \<lparr>shard = MASTERCHAIN, seqno = n\<rparr>)"
  by (simp add: key_block_query_def block_query_text_def seqno_query_def MASTERCHAIN_def format_i32_minus_one)

section \<open>A server with tables of blocks and transactions\<close>

text \<open>How a server writes what it has. The order of the fields and further fields do not matter.\<close>

record 'c gql_writer =
  gw_hash :: "hash_bytes \<Rightarrow> json"
  gw_addr :: "std_addr \<Rightarrow> json"
  gw_boc :: "'c \<Rightarrow> json"

definition reads_back :: "'c gql_values \<Rightarrow> 'c gql_writer \<Rightarrow> bool" where
  "reads_back V W \<longleftrightarrow> shows_hashes (gv_show_hash V) \<and> (\<forall>h. gv_hash V (gw_hash W h) = Some h) \<and>
     (\<forall>a. gv_addr V (gw_addr W a) = Some a) \<and> (\<forall>c. gv_boc V (gw_boc W c) = Some c)"

definition signature_json :: "'c gql_writer \<Rightarrow> gql_signature \<Rightarrow> json" where
  "signature_json W g = JObj [(''node_id'', gw_hash W (gs_node_id g)), (''r'', gw_hash W (gs_r g)), (''s'', gw_hash W (gs_s g))]"

definition block_json :: "'c gql_writer \<Rightarrow> 'c gql_block \<Rightarrow> json" where
  "block_json W b =
     JObj [(''workchain_id'', JInt (sint (gb_workchain_id b))), (''shard'', JStr (format_016x (gb_shard b))),
       (''seq_no'', JInt (uint (gb_seq_no b))), (''file_hash'', gw_hash W (gb_file_hash b)), (''boc'', gw_boc W (gb_boc b)),
       (''signatures'', JObj [(''signatures'',
          case gb_signatures b of None \<Rightarrow> JNull | Some gs \<Rightarrow> JArr (map (signature_json W) gs))])]"

definition tx_json :: "'c gql_writer \<Rightarrow> tx_info_brief \<Rightarrow> json" where
  "tx_json W t =
     JObj [(''master_seq_no'', JInt (uint (ti_master_seq_no t))), (''block_id'', gw_hash W (ti_block_id t)),
       (''lt'', JStr (''0x'' @ format_016x (ti_lt t))), (''account_addr'', gw_addr W (ti_account_addr t))]"

definition answer_json :: "string \<Rightarrow> ('a \<Rightarrow> json) \<Rightarrow> 'a option \<Rightarrow> json" where
  "answer_json name to_json x =
     JObj [(''data'', JObj [(''blockchain'', JObj [(name, case x of None \<Rightarrow> JNull | Some a \<Rightarrow> to_json a)])])]"

abbreviation block_field :: "block_query \<Rightarrow> string" where
  "block_field by \<equiv> (case by of ByHash h \<Rightarrow> ''block'' | BySeqno b \<Rightarrow> ''block_by_seq_no'')"

definition serves_tables ::
  "'c gql_values \<Rightarrow> 'c gql_writer \<Rightarrow> gql_server \<Rightarrow> (hash_bytes \<Rightarrow> tx_info_brief option) \<Rightarrow>
   (block_query \<Rightarrow> 'c gql_block option) \<Rightarrow> bool" where
  "serves_tables V W S txs blocks \<longleftrightarrow>
     (\<forall>h. \<exists>text. gs_send S (gql_request (tx_query (gv_show_hash V) h)) = Inr text \<and>
        gs_parse S text = Some (answer_json ''transaction'' (tx_json W) (txs h))) \<and>
     (\<forall>by. \<exists>text. gs_send S (gql_request (block_query_text (gv_show_hash V) by)) = Inr text \<and>
        gs_parse S text = Some (answer_json (block_field by) (block_json W) (blocks by)))"

lemma de_answer_json:
  assumes "\<And>a. de (to_json a) = Some a" and "\<And>a. to_json a \<noteq> JNull"
  shows "de_answer name (de_option de) (answer_json name to_json x) = Some x"
proof (cases x)
  case (Some a)
  have "de_option de (Some (to_json a)) = Some (Some a)"
    using assms by (cases "to_json a") (simp_all add: de_option_def, metis+)
  with Some show ?thesis by (simp add: de_answer_def answer_json_def de_required_def)
qed (simp add: de_answer_def answer_json_def de_required_def de_option_def)

lemma de_signature_json: "reads_back V W \<Longrightarrow> de_signature V (signature_json W g) = Some g"
  by (simp add: de_signature_def signature_json_def struct_fields_def de_required_def reads_back_def)

lemma de_signatures_json:
  assumes "reads_back V W"
  shows "de_signatures V (JObj [(''signatures'', case gs of None \<Rightarrow> JNull | Some gs \<Rightarrow> JArr (map (signature_json W) gs))]) = Some gs"
  using all_some_map [of _ "\<lambda>x. de_signature V (signature_json W x)" "\<lambda>x. x"] de_signature_json [OF assms]
  by (cases gs) (simp_all add: de_signatures_def de_option_def comp_def)

lemma de_block_json:
  assumes "reads_back V W"
  shows "de_block V (block_json W b) = Some b"
  using de_signatures_json [OF assms, of "gb_signatures b"] assms
  by (simp add: de_block_def block_json_def block_names_def struct_fields_def de_required_def reads_back_def
      de_shard_prefix_def gql_shard_prefix_format)

lemma de_tx_json:
  assumes "reads_back V W"
  shows "de_tx_info V (tx_json W t) = Some t"
  using gql_u64_format [of "ti_lt t"] assms
  by (simp add: de_tx_info_def tx_json_def tx_names_def struct_fields_def de_required_def reads_back_def de_u64_def)

lemma gql_post_reads:
  assumes "gs_send S (gql_request q) = Inr text" and "gs_parse S text = Some v" and "de v = Some a"
  shows "gql_post S de q = Inr a"
  using assms by (simp add: gql_post_def)

text \<open>The client reads exactly what is in the tables.\<close>

lemma get_tx_info_table:
  assumes "reads_back V W" and "serves_tables V W S txs blocks"
  shows "get_tx_info V S h = Inr (txs h)"
proof -
  from assms(2) obtain res where
    send: "gs_send S (gql_request (tx_query (gv_show_hash V) h)) = Inr res"
      "gs_parse S res = Some (answer_json ''transaction'' (tx_json W) (txs h))"
    unfolding serves_tables_def by blast
  show ?thesis unfolding get_tx_info_def
    by (rule gql_post_reads [OF send], rule de_answer_json)
      (simp_all add: de_tx_json [OF assms(1)], simp add: tx_json_def)
qed

lemma post_block_table:
  assumes "reads_back V W" and "serves_tables V W S txs blocks"
  shows "post_block V S by = Inr (blocks by)"
proof -
  from assms(2) obtain res where
    send: "gs_send S (gql_request (block_query_text (gv_show_hash V) by)) = Inr res"
      "gs_parse S res = Some (answer_json (block_field by) (block_json W) (blocks by))"
    unfolding serves_tables_def by blast
  show ?thesis unfolding post_block_def
    by (rule gql_post_reads [OF send], rule de_answer_json)
      (simp_all add: de_block_json [OF assms(1)], simp add: block_json_def)
qed

lemma over_server_tables:
  assumes "reads_back V W" and "serves_tables V W S txs blocks"
  shows "over_server V S E = E\<lparr>la_tx_info := (\<lambda>h. Inr (txs h)), la_post := (\<lambda>q. Inr (blocks q))\<rparr>"
proof -
  have "get_tx_info V S = (\<lambda>h. Inr (txs h))" and "post_block V S = (\<lambda>q. Inr (blocks q))"
    using get_tx_info_table [OF assms] post_block_table [OF assms] by (simp_all add: fun_eq_iff)
  then show ?thesis by (simp add: over_server_def)
qed

end
