(* ===== verification/Gql_Properties.thy ===== *)
theory Gql_Properties
  imports Gql_Client Demo_Api
begin

text \<open>
  The properties of the GraphQL clients, and a small server that keeps the transaction with hash 3
  and a few blocks.
\<close>

section \<open>A small server\<close>

fun dcell_json :: "dcell \<Rightarrow> json" where
  "dcell_json (DC ts rs) = JArr [JArr (map JInt ts), JArr (map dcell_json rs)]"

fun json_int :: "json \<Rightarrow> int option" where
  "json_int (JInt n) = Some n"
| "json_int _ = None"

fun json_dcell :: "json \<Rightarrow> dcell option" where
  "json_dcell (JArr [JArr ts, JArr rs]) =
     Option.bind (all_some (map json_int ts)) (\<lambda>ts. map_option (DC ts) (all_some (map json_dcell rs)))"
| "json_dcell _ = None"

lemma json_dcell_back: "json_dcell (dcell_json c) = Some c"
proof (induction c)
  case (DC ts rs)
  have "all_some (map (\<lambda>n. json_int (JInt n)) ts) = Some ts"
    using all_some_map [of ts "\<lambda>n. json_int (JInt n)" "\<lambda>n. n"] by simp
  moreover have "all_some (map (\<lambda>c. json_dcell (dcell_json c)) rs) = Some rs"
    using all_some_map [of rs "\<lambda>c. json_dcell (dcell_json c)" "\<lambda>c. c"] DC by simp
  ultimately show ?case by (simp add: comp_def)
qed

fun json_addr :: "json \<Rightarrow> std_addr option" where
  "json_addr (JArr [JInt wc, JInt a]) = Some \<lparr>addr_workchain = word_of_int wc, address = word_of_int a\<rparr>"
| "json_addr _ = None"

definition demo_values :: "dcell gql_values" where
  "demo_values = \<lparr>gv_hash = (\<lambda>v. map_option word_of_int (json_int v)), gv_addr = json_addr, gv_boc = json_dcell,
     gv_show_hash = (\<lambda>h. format_nat (unat h))\<rparr>"

definition demo_writer :: "dcell gql_writer" where
  "demo_writer = \<lparr>gw_hash = (\<lambda>h. JInt (uint h)),
     gw_addr = (\<lambda>a. JArr [JInt (uint (addr_workchain a)), JInt (uint (address a))]), gw_boc = dcell_json\<rparr>"

lemma demo_shows_hashes: "shows_hashes (\<lambda>h. format_nat (unat h))"
proof -
  have "CHR 0x22 \<notin> set (format_nat n)" for n
    using format_nat_digits [of "CHR 0x22" n] by (auto simp: is_digit_def)
  then show ?thesis by (auto simp: shows_hashes_def inj_def word_unat_eq_iff)
qed

lemma demo_reads_back: "reads_back demo_values demo_writer"
  using demo_shows_hashes by (simp add: reads_back_def demo_values_def demo_writer_def json_dcell_back)

definition demo_txs :: "hash_bytes \<Rightarrow> tx_info_brief option" where
  "demo_txs h = (if h = 3 then Some \<lparr>ti_master_seq_no = 5, ti_block_id = 0x11ef55aa, ti_lt = 11,
     ti_account_addr = demo_account\<rparr> else None)"

definition demo_known :: "block_query list" where
  "demo_known = [ByHash 0x11ef55aa, BySeqno \<lparr>shard = MASTERCHAIN, seqno = 5\<rparr>]"

definition demo_blocks :: "block_query \<Rightarrow> dcell gql_block option" where
  "demo_blocks q = (if q \<in> set demo_known then Some (demo_gql q) else None)"

text \<open>The answer depends on nothing but the text of the query.\<close>

definition asked_field :: "string \<Rightarrow> string" where
  "asked_field q = takeWhile (\<lambda>c. c \<noteq> CHR ''('') (drop 12 q)"

definition demo_answer :: "string \<Rightarrow> json" where
  "demo_answer q =
     (let show_hash = gv_show_hash demo_values in
      if q = tx_query show_hash 3 then answer_json ''transaction'' (tx_json demo_writer) (demo_txs 3)
      else case find (\<lambda>by. q = block_query_text show_hash by) demo_known of
        Some by \<Rightarrow> answer_json (asked_field q) (block_json demo_writer) (demo_blocks by)
      | None \<Rightarrow> answer_json (asked_field q) (block_json demo_writer) None)"

definition demo_server :: gql_server where
  "demo_server = \<lparr>gs_send = (\<lambda>req. case req of JObj [(k, JStr q)] \<Rightarrow> Inr q | _ \<Rightarrow> Inl (Msg ''bad request'')),
     gs_parse = (\<lambda>q. Some (demo_answer q))\<rparr>"

lemma asked_field_simps [simp]:
  "asked_field (tx_query f h) = ''transaction''"
  "asked_field (block_query_text f by) = block_field by"
  by (simp_all add: asked_field_def tx_query_def block_query_text_def seqno_query_def split: block_query.split)

lemma demo_answer_tx: "demo_answer (tx_query (gv_show_hash demo_values) h) =
    answer_json ''transaction'' (tx_json demo_writer) (demo_txs h)"
proof (cases "h = 3")
  case False
  have "tx_query (gv_show_hash demo_values) h \<noteq> tx_query (gv_show_hash demo_values) 3"
    using tx_query_inj [OF demo_shows_hashes, of h 3] False by (auto simp: demo_values_def)
  moreover have "find (\<lambda>by. tx_query (gv_show_hash demo_values) h = block_query_text (gv_show_hash demo_values) by) demo_known = None"
    by (simp add: find_None_iff tx_query_no_block_query)
  ultimately show ?thesis using False by (simp add: demo_answer_def Let_def demo_txs_def answer_json_def)
qed (simp add: demo_answer_def)

lemma demo_answer_block: "demo_answer (block_query_text (gv_show_hash demo_values) q) =
    answer_json (block_field q) (block_json demo_writer) (demo_blocks q)"
proof -
  let ?show = "gv_show_hash demo_values"
  have not_tx: "block_query_text ?show q \<noteq> tx_query ?show 3" by (metis tx_query_no_block_query)
  have same: "block_query_text ?show q = block_query_text ?show r \<longleftrightarrow> q = r" for r
    using block_query_text_inj [of ?show q r] demo_shows_hashes by (auto simp: demo_values_def)
  have "find (\<lambda>by. block_query_text ?show q = block_query_text ?show by) demo_known =
      (if q \<in> set demo_known then Some q else None)"
    by (auto simp: same find_None_iff find_Some_iff demo_known_def)
  with not_tx show ?thesis by (simp add: demo_answer_def Let_def demo_blocks_def)
qed

lemma demo_server_serves: "serves_tables demo_values demo_writer demo_server demo_txs demo_blocks"
  by (simp add: serves_tables_def demo_server_def gql_request_def demo_answer_tx demo_answer_block)

section \<open>The properties\<close>



end
