(* ===== verification/Config_Files.thy ===== *)
theory Config_Files
  imports Json_Values Sync_Service
begin

text \<open>
  The configuration files of the sync service (\<open>sync-service/src/config.rs\<close>, with the parts of
  \<open>sync-service/src/client/mod.rs\<close> and \<open>sync-service/src/service/mod.rs\<close>) and of TON
  (\<open>ton-lite-client/src/config.rs\<close>) as they are read from JSON. Reading a file and parsing its
  text, addresses, hashes, keys, intervals with a unit and the settings of the metrics exporter
  are arguments.
\<close>

record 'm config_values =
  cv_hash :: "string \<Rightarrow> hash_bytes option"
  cv_valid_key :: "hash_bytes \<Rightarrow> bool"
  cv_json_hash :: "json \<Rightarrow> hash_bytes option"
  cv_addr :: "json \<Rightarrow> std_addr option"
  cv_humantime :: "json \<Rightarrow> u64 option"
  cv_metrics :: "json \<Rightarrow> 'm option"

section \<open>The global configuration of TON\<close>

definition de_pubkey :: "'m config_values \<Rightarrow> json \<Rightarrow> hash_bytes option" where
  "de_pubkey V v =
     Option.bind (Option.bind (de_str v) (cv_hash V)) (\<lambda>k. if cv_valid_key V k then Some k else None)"

definition de_node :: "'m config_values \<Rightarrow> json \<Rightarrow> liteserver option" where
  "de_node V v =
     (case struct_fields [''ip'', ''port'', ''id''] v of
        Some [ip, port, node_id] \<Rightarrow>
          Option.bind (de_required de_i32 ip) (\<lambda>ip.
          Option.bind (de_required de_u16 port) (\<lambda>port.
          Option.bind (de_required (de_single ''key'' (de_required (de_pubkey V))) node_id) (\<lambda>k.
          Some \<lparr>ls_ip = ip, ls_port = port, ls_key = k\<rparr>)))
      | _ \<Rightarrow> None)"

definition de_global_config :: "'m config_values \<Rightarrow> json \<Rightarrow> node_info list option" where
  "de_global_config V v =
     (case struct_fields_default [''liteservers''] v of
        Some [items] \<Rightarrow> de_default [] (\<lambda>x. map_option liteserver_nodes (de_vec (de_node V) x)) items
      | _ \<Rightarrow> None)"

section \<open>The uploader\<close>

text \<open>\<open>Duration\<close> as serde reads it by itself: whole nanoseconds carry over into the seconds.\<close>

definition de_std_duration :: "json \<Rightarrow> (u64 \<times> u32) option" where
  "de_std_duration v =
     (case struct_fields [''secs'', ''nanos''] v of
        Some [secs, nanos] \<Rightarrow>
          Option.bind (de_required de_u64_number secs) (\<lambda>secs.
          Option.bind (de_required de_u32 nanos) (\<lambda>nanos.
          map_option (\<lambda>secs. (secs, nanos mod 1000000000)) (checked_add secs (ucast (nanos div 1000000000)))))
      | _ \<Rightarrow> None)"

definition de_u128_string :: "json \<Rightarrow> u128 option" where
  "de_u128_string v = Option.bind (de_str v) parse_uint"

definition uploader_names :: "string list" where
  "uploader_names = [''bridge_address'', ''wallet_address'', ''wallet_secret'', ''lib_store_value'', ''store_vset_value'',
     ''min_required_balance'', ''poll_interval'', ''retry_interval'', ''wallet_balance_refresh_interval'']"

definition default_poll_interval :: "u64 \<times> u32" where "default_poll_interval = (2, 0)"
definition default_retry_interval :: u64 where "default_retry_interval = 1 * 1000"
definition default_wallet_balance_refresh_interval :: u64 where
  "default_wallet_balance_refresh_interval = 60 * 1000"

definition de_uploader :: "'m config_values \<Rightarrow> json \<Rightarrow> uploader_config option" where
  "de_uploader V v =
     (case struct_fields_default uploader_names v of
        Some [bridge, wallet_addr, secret, lib_value, vset_value, min_balance, poll, retry, refresh] \<Rightarrow>
          Option.bind (de_required (cv_addr V) bridge) (\<lambda>bridge.
          Option.bind (de_required (cv_addr V) wallet_addr) (\<lambda>wallet_addr.
          Option.bind (de_required (cv_json_hash V) secret) (\<lambda>secret.
          Option.bind (de_required de_u128_string lib_value) (\<lambda>lib_value.
          Option.bind (de_required de_u128_string vset_value) (\<lambda>vset_value.
          Option.bind (de_required de_u128_string min_balance) (\<lambda>min_balance.
          Option.bind (de_default default_poll_interval de_std_duration poll) (\<lambda>poll.
          Option.bind (de_default default_retry_interval (cv_humantime V) retry) (\<lambda>retry.
          Option.bind (de_default default_wallet_balance_refresh_interval (cv_humantime V) refresh) (\<lambda>refresh.
          Some \<lparr>uc_bridge_address = bridge, uc_wallet_address = wallet_addr, uc_wallet_secret = secret,
            uc_lib_store_value = lib_value, uc_store_vset_value = vset_value, uc_min_required_balance = min_balance,
            uc_poll_interval = poll, uc_retry_interval = retry, uc_wallet_balance_refresh_interval = refresh\<rparr>)))))))))
      | _ \<Rightarrow> None)"

section \<open>Networks and workers\<close>

text \<open>A client: its name, and the path of the global configuration or the address of the server.\<close>

datatype client_config =
    TonConfig (cc_name: string) string
  | TychoConfig (cc_name: string) string
  | LegacyConfig (cc_name: string) string

definition de_two :: "string \<Rightarrow> json \<Rightarrow> (string \<times> string) option" where
  "de_two second v =
     (case struct_fields [''name'', second] v of
        Some [a, b] \<Rightarrow>
          Option.bind (de_required de_str a) (\<lambda>a.
          Option.bind (de_required de_str b) (\<lambda>b. Some (a, b)))
      | _ \<Rightarrow> None)"

text \<open>
  The variant is given by the field \<open>type\<close>, as its name or its number; the other fields are those
  of its struct.
\<close>

fun client_variant :: "json \<Rightarrow> nat option" where
  "client_variant (JStr s) =
     (if s = ''Ton'' then Some 0 else if s = ''Tycho'' then Some 1 else if s = ''Legacy'' then Some 2 else None)"
| "client_variant (JInt n) = (if 0 \<le> n \<and> n < 3 then Some (nat n) else None)"
| "client_variant _ = None"

definition de_client :: "(string \<times> json) list \<Rightarrow> client_config option" where
  "de_client kvs =
     (case filter (\<lambda>(k, v). k = ''type'') kvs of
        [(k, tag)] \<Rightarrow>
          (let rest = JObj (filter (\<lambda>(k, v). k \<noteq> ''type'') kvs) in
           Option.bind (client_variant tag) (\<lambda>variant.
           if variant = 0 then map_option (case_prod TonConfig) (de_two ''global_config'' rest)
           else if variant = 1 then map_option (case_prod TychoConfig) (de_two ''rpc'' rest)
           else map_option (case_prod LegacyConfig) (de_two ''url'' rest)))
      | _ \<Rightarrow> None)"

record network_config =
  nw_client :: client_config
  nw_uploader :: "uploader_config option"

text \<open>\<open>#[serde(flatten)]\<close>: what is not the uploader belongs to the client.\<close>

fun de_network :: "'m config_values \<Rightarrow> json \<Rightarrow> network_config option" where
  "de_network V (JObj kvs) =
     Option.bind (struct_fields [''uploader''] (JObj kvs)) (\<lambda>found.
     Option.bind (de_option (de_uploader V) (hd found)) (\<lambda>u.
     Option.bind (de_client (filter (\<lambda>(k, v). k \<noteq> ''uploader'') kvs)) (\<lambda>c.
     Some \<lparr>nw_client = c, nw_uploader = u\<rparr>)))"
| "de_network V _ = None"

record worker_config =
  wk_left :: network_config
  wk_right :: network_config

definition de_worker :: "'m config_values \<Rightarrow> json \<Rightarrow> worker_config option" where
  "de_worker V v =
     (case struct_fields [''left'', ''right''] v of
        Some [left, right] \<Rightarrow>
          Option.bind (de_required (de_network V) left) (\<lambda>left.
          Option.bind (de_required (de_network V) right) (\<lambda>right. Some \<lparr>wk_left = left, wk_right = right\<rparr>))
      | _ \<Rightarrow> None)"

record 'm service_config =
  sf_metrics :: "'m option"
  sf_workers :: "worker_config list"

definition de_service_config :: "'m config_values \<Rightarrow> json \<Rightarrow> 'm service_config option" where
  "de_service_config V v =
     (case struct_fields [''metrics'', ''workers''] v of
        Some [metrics, workers] \<Rightarrow>
          Option.bind (de_option (cv_metrics V) metrics) (\<lambda>metrics.
          Option.bind (de_required (de_vec (de_worker V)) workers) (\<lambda>workers.
          Some \<lparr>sf_metrics = metrics, sf_workers = workers\<rparr>))
      | _ \<Rightarrow> None)"

section \<open>Files\<close>

text \<open>The text of a file, and its value when it is JSON.\<close>

record files =
  fi_read :: "string \<Rightarrow> any_error + string"
  fi_parse :: "string \<Rightarrow> json option"

definition load_from_file :: "files \<Rightarrow> (json \<Rightarrow> 'a option) \<Rightarrow> string \<Rightarrow> string \<Rightarrow> any_error + 'a" where
  "load_from_file F de msg path =
     bindR (fi_read F path) (\<lambda>bytes. ok_or (Msg msg) (Option.bind (fi_parse F bytes) de))"

definition load_service_config :: "files \<Rightarrow> 'm config_values \<Rightarrow> string \<Rightarrow> any_error + 'm service_config" where
  "load_service_config F V = load_from_file F (de_service_config V) ''failed to deserialize service config''"

definition load_global_config :: "files \<Rightarrow> 'm config_values \<Rightarrow> string \<Rightarrow> any_error + node_info list" where
  "load_global_config F V = load_from_file F (de_global_config V) ''failed to deserialize global config''"

text \<open>The interval between rounds is read as a plain \<open>Duration\<close>, unlike the others: a text with a
  unit is refused for it.\<close>

lemma poll_interval_no_text: "de_std_duration (JStr s) = None"
  by (simp add: de_std_duration_def struct_fields_def)

lemma poll_interval_refused:
  "map_of kvs ''poll_interval'' = Some (JStr s) \<Longrightarrow> de_uploader V (JObj kvs) = None"
  by (auto simp: de_uploader_def struct_fields_default_def struct_fields_def uploader_names_def de_default_def poll_interval_no_text
      split: bind_splits)

end
