(* ===== verification/Sync_Command.thy ===== *)
theory Sync_Command
  imports Config_Files Gql_Client
begin

text \<open>
  The command of the sync service, \<open>sync-service/src/cmd/run.rs\<close>, and \<open>ClientConfig::build_client\<close> of
  \<open>sync-service/src/client/mod.rs\<close>: from a configuration file to the uploaders that are started.
  Making a client from its address is an argument, as is starting the exporter of the metrics.
\<close>

section \<open>Clients\<close>

record ('w, 'c, 'i, 't, 'x, 'g) network =
  nt_name :: string
  nt_client :: "('w, 'c, 'i, 't, 'x) network_client"
  nt_blockchain_config :: "('w, 'g) call"

record ('w, 'c, 'i, 't, 'x, 'g) client_lib =
  ct_ton :: "string \<Rightarrow> node_info list \<Rightarrow> ('w, 'c, 'i, 't, 'x, 'g) network"
  ct_tycho :: "string \<Rightarrow> string \<Rightarrow> any_error + ('w, 'c, 'i, 't, 'x, 'g) network"
  ct_legacy :: "string \<Rightarrow> string \<Rightarrow> any_error + ('w, 'c, 'i, 't, 'x, 'g) network"

definition build_client ::
  "files \<Rightarrow> 'm config_values \<Rightarrow> ('w, 'c, 'i, 't, 'x, 'g) client_lib \<Rightarrow> client_config \<Rightarrow>
   any_error + ('w, 'c, 'i, 't, 'x, 'g) network" where
  "build_client F V K cfg =
     (case cfg of
        TonConfig name path \<Rightarrow>
          bindR (load_global_config F V path) (\<lambda>liteservers. Inr (ct_ton K name liteservers))
      | TychoConfig name rpc \<Rightarrow> ct_tycho K name rpc
      | LegacyConfig name url \<Rightarrow> ct_legacy K name url)"

text \<open>The clients of the sources: over JSON-RPC for a Tycho network, over GraphQL for an older one. What
  is left open is the client of TON and how an address becomes a connection.\<close>

record ('w, 'v, 'e, 'c, 's, 'u, 'h, 'i, 't, 'g) connectors =
  kn_cells :: "('c, 's, 'u, 'h, 'g) cell_lib"
  kn_chain :: "('c, 's, 'u, 'g) chain_lib"
  kn_boc64 :: "('c, 't, 'g) boc64_lib"
  kn_tx_hash :: "'t \<Rightarrow> hash_bytes"
  kn_gql :: "'c gql_values"
  kn_jrpc_new :: "string \<Rightarrow> any_error + ('w, 'v, 'e, 'c, 'i, 'g) jrpc_lib"
  kn_gql_new :: "string \<Rightarrow> any_error + (json \<Rightarrow> ('w, string) call)"
  kn_gql_parse :: "string \<Rightarrow> json option"
  kn_ton :: "string \<Rightarrow> node_info list \<Rightarrow>
    ('w, 'c, 'i, 't, signature_context) network_client \<times> ('w, 'g) call"

definition clients_of ::
  "('w, 'v, 'e, 'c, 's, 'u, 'h, 'i, 't, 'g) connectors \<Rightarrow>
   ('w, 'c, 'i, 't, signature_context, 'g) client_lib" where
  "clients_of N =
     \<lparr>ct_ton = (\<lambda>name nodes. case kn_ton N name nodes of (client, blockchain_config) \<Rightarrow>
        \<lparr>nt_name = name, nt_client = client, nt_blockchain_config = blockchain_config\<rparr>),
      ct_tycho = (\<lambda>name rpc. bindR (kn_jrpc_new N rpc) (\<lambda>J.
        Inr \<lparr>nt_name = name, nt_client = tycho_client (kn_cells N) (kn_chain N) J (kn_boc64 N) (kn_tx_hash N),
          nt_blockchain_config = tycho_blockchain_config J\<rparr>)),
      ct_legacy = (\<lambda>name url. bindR (kn_gql_new N url) (\<lambda>send.
        let G = gql_client (kn_gql N) send (kn_gql_parse N) in
        Inr \<lparr>nt_name = name, nt_client = legacy_client (kn_cells N) (kn_chain N) G,
          nt_blockchain_config = legacy_blockchain_config (kn_cells N) G\<rparr>))\<rparr>"

section \<open>Uploaders\<close>

text \<open>An uploader as it is handed to its task: the labels of its metrics, its configuration, what it
  runs in and the state it starts from.\<close>

record ('w, 'c, 'i, 't, 'x, 'b, 'si, 'm, 'v) prepared =
  pr_src :: string
  pr_dst :: string
  pr_config :: uploader_config
  pr_env :: "('w, 'c, 'i, 't, 'x, 'b, 'si, 'm, 'v) sync_env"
  pr_state :: "'c uploader"

definition prepare_uploader ::
  "('w, 'c, 'i, 't, 'x, 'b, 'si, 'm, 'v, 'g, 'y) service_lib \<Rightarrow> ('w, 'c, 'i, 't, 'x, 'g) network \<Rightarrow>
   ('w, 'c, 'i, 't, 'x, 'g) network \<Rightarrow> uploader_config option \<Rightarrow>
   ('w, ('w, 'c, 'i, 't, 'x, 'b, 'si, 'm, 'v) prepared list) call" where
  "prepare_uploader S src dst uploader =
     (case uploader of
        None \<Rightarrow> ret []
      | Some cfg \<Rightarrow>
          bnd (uploader_new S (nt_client src) (nt_client dst) (nt_blockchain_config dst) cfg) (\<lambda>(E, u).
          ret [\<lparr>pr_src = nt_name src, pr_dst = nt_name dst, pr_config = cfg, pr_env = E, pr_state = u\<rparr>]))"

definition prepare_worker ::
  "files \<Rightarrow> 'm config_values \<Rightarrow> ('w, 'c, 'i, 't, 'x, 'g) client_lib \<Rightarrow>
   ('w, 'c, 'i, 't, 'x, 'b, 'si, 'k, 'v, 'g, 'y) service_lib \<Rightarrow> worker_config \<Rightarrow>
   ('w, ('w, 'c, 'i, 't, 'x, 'b, 'si, 'k, 'v) prepared list) call" where
  "prepare_worker F V K S worker =
     bnd (of_result (build_client F V K (nw_client (wk_left worker)))) (\<lambda>left_client.
     bnd (of_result (build_client F V K (nw_client (wk_right worker)))) (\<lambda>right_client.
     bnd (prepare_uploader S left_client right_client (nw_uploader (wk_right worker))) (\<lambda>to_right.
     bnd (prepare_uploader S right_client left_client (nw_uploader (wk_left worker))) (\<lambda>to_left.
     ret (to_right @ to_left)))))"

fun prepare_workers ::
  "files \<Rightarrow> 'm config_values \<Rightarrow> ('w, 'c, 'i, 't, 'x, 'g) client_lib \<Rightarrow>
   ('w, 'c, 'i, 't, 'x, 'b, 'si, 'k, 'v, 'g, 'y) service_lib \<Rightarrow> worker_config list \<Rightarrow>
   ('w, ('w, 'c, 'i, 't, 'x, 'b, 'si, 'k, 'v) prepared list) call" where
  "prepare_workers F V K S [] = ret []"
| "prepare_workers F V K S (worker # workers) =
     bnd (prepare_worker F V K S worker) (\<lambda>uploaders.
     bnd (prepare_workers F V K S workers) (\<lambda>rest. ret (uploaders @ rest)))"

text \<open>The command up to the point where every uploader is spawned; an error before it spawns none.\<close>

definition run_service ::
  "files \<Rightarrow> 'm config_values \<Rightarrow> ('m \<Rightarrow> any_error + unit) \<Rightarrow> ('w, 'c, 'i, 't, 'x, 'g) client_lib \<Rightarrow>
   ('w, 'c, 'i, 't, 'x, 'b, 'si, 'k, 'v, 'g, 'y) service_lib \<Rightarrow> string \<Rightarrow>
   ('w, ('w, 'c, 'i, 't, 'x, 'b, 'si, 'k, 'v) prepared list) call" where
  "run_service F V init_metrics K S path =
     bnd (of_result (load_service_config F V path)) (\<lambda>cfg.
     bnd (guard (sf_workers cfg \<noteq> []) (Msg ''no workers specified'')) (\<lambda>_.
     bnd (of_result (case sf_metrics cfg of None \<Rightarrow> Inr () | Some m \<Rightarrow> init_metrics m)) (\<lambda>_.
     prepare_workers F V K S (sf_workers cfg))))"

section \<open>Which uploaders are started\<close>

text \<open>One for each network that has an uploader, from the other network of its worker.\<close>

definition worker_routes :: "worker_config \<Rightarrow> (string \<times> string \<times> uploader_config) list" where
  "worker_routes worker =
     (let left = wk_left worker; right = wk_right worker in
      (case nw_uploader right of None \<Rightarrow> [] | Some cfg \<Rightarrow> [(cc_name (nw_client left), cc_name (nw_client right), cfg)]) @
      (case nw_uploader left of None \<Rightarrow> [] | Some cfg \<Rightarrow> [(cc_name (nw_client right), cc_name (nw_client left), cfg)]))"

definition route :: "('w, 'c, 'i, 't, 'x, 'b, 'si, 'm, 'v) prepared \<Rightarrow> string \<times> string \<times> uploader_config" where
  "route p = (pr_src p, pr_dst p, pr_config p)"

text \<open>A client has the name it was made with.\<close>

definition names_kept :: "('w, 'c, 'i, 't, 'x, 'g) client_lib \<Rightarrow> bool" where
  "names_kept K \<longleftrightarrow> (\<forall>name nodes. nt_name (ct_ton K name nodes) = name) \<and>
     (\<forall>name a n. ct_tycho K name a = Inr n \<longrightarrow> nt_name n = name) \<and>
     (\<forall>name a n. ct_legacy K name a = Inr n \<longrightarrow> nt_name n = name)"

lemma clients_of_names: "names_kept (clients_of N)"
  by (auto simp: names_kept_def clients_of_def Let_def split: prod.splits)

lemma build_client_name:
  assumes "names_kept K" and "build_client F V K cfg = Inr n"
  shows "nt_name n = cc_name cfg"
  using assms by (cases cfg) (auto simp: build_client_def names_kept_def)

text \<open>An uploader that was prepared signs with the wallet of its configuration and starts afresh.\<close>

definition well_prepared :: "('w, 'c, 'i, 't, 'x, 'b, 'si, 'm, 'v) prepared \<Rightarrow> bool" where
  "well_prepared p \<longleftrightarrow>
     pr_state p = started (pr_config p) \<and> wa_address (se_wallet (pr_env p)) = uc_wallet_address (pr_config p) \<and>
     se_bridge_address (pr_env p) = uc_bridge_address (pr_config p)"

lemma prepare_uploader_ok:
  assumes "prepare_uploader S src dst uploader w = (Inr ps, w1)"
  shows "map route ps = (case uploader of None \<Rightarrow> [] | Some cfg \<Rightarrow> [(nt_name src, nt_name dst, cfg)]) \<and>
    (\<forall>p\<in>set ps. well_prepared p \<and> pr_src p = nt_name src \<and> se_src (pr_env p) = nt_client src)"
proof (cases uploader)
  case None
  with assms show ?thesis by (simp add: prepare_uploader_def rs_apply)
next
  case (Some cfg)
  with assms obtain E u w2 where new: "uploader_new S (nt_client src) (nt_client dst) (nt_blockchain_config dst) cfg w = (Inr (E, u), w2)"
    and ps: "ps = [\<lparr>pr_src = nt_name src, pr_dst = nt_name dst, pr_config = cfg, pr_env = E, pr_state = u\<rparr>]"
    by (auto simp: prepare_uploader_def rs_apply elim!: bnd_InrE)
  from new have "u = started cfg" "se_src E = nt_client src" "se_dst E = nt_client dst"
    "se_bridge_address E = uc_bridge_address cfg" "wa_address (se_wallet E) = uc_wallet_address cfg"
    by (auto elim: uploader_new_InrE)
  with Some ps show ?thesis by (simp add: route_def well_prepared_def)
qed

text \<open>The source of an uploader is the client that was built from the entry of its network.\<close>

definition worker_clients :: "worker_config \<Rightarrow> client_config list" where
  "worker_clients worker = [nw_client (wk_left worker), nw_client (wk_right worker)]"

definition built_source ::
  "files \<Rightarrow> 'm config_values \<Rightarrow> ('w, 'c, 'i, 't, 'x, 'g) client_lib \<Rightarrow> client_config \<Rightarrow>
   ('w, 'c, 'i, 't, 'x, 'b, 'si, 'k, 'v) prepared \<Rightarrow> bool" where
  "built_source F V K cfg p \<longleftrightarrow> cc_name cfg = pr_src p \<and>
     (\<exists>n. build_client F V K cfg = Inr n \<and> se_src (pr_env p) = nt_client n)"

lemma prepare_worker_ok:
  assumes "names_kept K" and "prepare_worker F V K S worker w = (Inr ps, w1)"
  shows "map route ps = worker_routes worker \<and> (\<forall>p\<in>set ps. well_prepared p \<and> (\<exists>cfg\<in>set (worker_clients worker). built_source F V K cfg p))"
proof -
  from assms(2) obtain left_client right_client to_right to_left w2 w3 where
    clients: "build_client F V K (nw_client (wk_left worker)) = Inr left_client"
      "build_client F V K (nw_client (wk_right worker)) = Inr right_client" and
    up: "prepare_uploader S left_client right_client (nw_uploader (wk_right worker)) w = (Inr to_right, w2)"
      "prepare_uploader S right_client left_client (nw_uploader (wk_left worker)) w2 = (Inr to_left, w3)" and
    ps: "ps = to_right @ to_left"
    unfolding prepare_worker_def by (fastforce simp: rs_apply elim!: bnd_InrE)
  note names = clients [THEN build_client_name [OF assms(1)]]
  note ups = up [THEN prepare_uploader_ok]
  note routes = ups [THEN conjunct1]
  have "map route ps = worker_routes worker"
    by (simp add: ps worker_routes_def Let_def routes names split: option.splits)
  moreover have "well_prepared p \<and> (\<exists>cfg\<in>set (worker_clients worker). built_source F V K cfg p)" if "p \<in> set ps" for p
  proof -
    from that consider "p \<in> set to_right" | "p \<in> set to_left" by (auto simp: ps)
    then show ?thesis
    proof cases
      case 1
      with ups(1) clients(1) names(1) show ?thesis
        unfolding built_source_def worker_clients_def by (metis list.set_intros)
    next
      case 2
      with ups(2) clients(2) names(2) show ?thesis
        unfolding built_source_def worker_clients_def by (metis list.set_intros)
    qed
  qed
  ultimately show ?thesis by blast
qed

lemma prepare_workers_ok:
  assumes "names_kept K" and "prepare_workers F V K S workers w = (Inr ps, w1)"
  shows "map route ps = concat (map worker_routes workers) \<and>
    (\<forall>p\<in>set ps. well_prepared p \<and> (\<exists>cfg\<in>set (concat (map worker_clients workers)). built_source F V K cfg p))"
  using assms(2)
proof (induction workers arbitrary: w ps)
  case (Cons worker workers)
  from Cons.prems obtain us w2 rest where
    one: "prepare_worker F V K S worker w = (Inr us, w2)" and
    more: "prepare_workers F V K S workers w2 = (Inr rest, w1)" and ps: "ps = us @ rest"
    by (auto simp: rs_apply elim!: bnd_InrE)
  note parts = prepare_worker_ok [OF assms(1) one] Cons.IH [OF more]
  have "map route ps = concat (map worker_routes (worker # workers))" using parts by (simp add: ps)
  moreover have "\<forall>p\<in>set ps. well_prepared p \<and>
      (\<exists>cfg\<in>set (concat (map worker_clients (worker # workers))). built_source F V K cfg p)"
    using parts [THEN conjunct2] unfolding ps set_append list.map concat.simps by blast
  ultimately show ?case by blast
qed (simp add: rs_apply)

lemma run_service_ok:
  assumes "names_kept K" and "run_service F V init_metrics K S path w = (Inr ps, w1)"
  obtains cfg where "load_service_config F V path = Inr cfg" and "sf_workers cfg \<noteq> []"
    and "map route ps = concat (map worker_routes (sf_workers cfg))"
    and "\<forall>p\<in>set ps. well_prepared p \<and>
      (\<exists>c\<in>set (concat (map worker_clients (sf_workers cfg))). built_source F V K c p)"
proof -
  from assms(2) obtain cfg where cfg: "load_service_config F V path = Inr cfg" "sf_workers cfg \<noteq> []"
    and ps: "prepare_workers F V K S (sf_workers cfg) w = (Inr ps, w1)"
    unfolding run_service_def by (auto simp: rs_apply elim!: rs_elims)
  from prepare_workers_ok [OF assms(1) ps] show thesis using that [OF cfg] by simp
qed

section \<open>What the uploaders send\<close>

text \<open>A round that succeeded sent nothing, or a key block that its own root describes and the bridge
  applied.\<close>

definition sends_described ::
  "('c, 's, 'u, 'h, 'g) cell_lib \<Rightarrow> ('c \<Rightarrow> any_error + u32 \<times> 'g) \<Rightarrow> ('c, 's, 'u, 'g) chain_lib \<Rightarrow>
   ('w, 'c, 'i, 't, 'x, 'b, 'si, 'm, 'v) sync_env \<Rightarrow> 'c uploader \<times> 'w \<Rightarrow> 'c uploader \<times> 'w \<Rightarrow> bool" where
  "sends_described L reads_root H E s s1 \<longleftrightarrow>
     up_min_bridge_state_lt (fst s1) = up_min_bridge_state_lt (fst s) \<or>
     (\<exists>since d raw_tx tx. bridge_epoch E (up_min_bridge_state_lt (fst s)) since \<and>
       since < utime_since (kb_current_vset d) \<and> described_block L reads_root H (nc_key_block_proof (se_src E)) d \<and>
       applied_tx E d raw_tx tx \<and> up_min_bridge_state_lt (fst s1) = t_lt tx)"

text \<open>Which reader the clients of a network use.\<close>

definition reads_of :: "('c, 's, 'u, 'h, 'g) cell_lib \<Rightarrow> client_config \<Rightarrow> 'c \<Rightarrow> any_error + u32 \<times> 'g" where
  "reads_of L cfg =
     (case cfg of
        TonConfig name path \<Rightarrow> read_key_block L (ton_models L) ton_prev_key_block_seqno
      | TychoConfig name rpc \<Rightarrow> reads_tycho L
      | LegacyConfig name url \<Rightarrow> reads_legacy L)"

text \<open>
  The queries of the client of TON may never return, which a \<open>call\<close> cannot express: here it is a
  client that answers nothing but what \<open>ton_get_key_block\<close> could.
\<close>

definition answers_as_ton ::
  "('c, 's, 'u, 'h, 'g) cell_lib \<Rightarrow> ('c, 's, 'u, 'g) chain_lib \<Rightarrow> ('w, 'c, 'i, 't, 'x) network_client \<Rightarrow> bool" where
  "answers_as_ton L H C \<longleftrightarrow>
     (\<forall>n w d w1. nc_key_block C n w = (Inr d, w1) \<longrightarrow> (\<exists>E. ton_get_key_block L H E n = Some (Inr d))) \<and>
     (\<forall>d. nc_key_block_proof C d = make_key_block_proof_to_sync L (ton_models L) d)"

lemma ton_described:
  assumes "answers_as_ton L H C"
  shows "described_client C L (read_key_block L (ton_models L) ton_prev_key_block_seqno) H"
proof
  fix n w d w1
  assume "nc_key_block C n w = (Inr d, w1)"
  with assms obtain E where "ton_get_key_block L H E n = Some (Inr d)" unfolding answers_as_ton_def by blast
  from ton_source.described [OF this] assms
  show "described_block L (read_key_block L (ton_models L) ton_prev_key_block_seqno) H (nc_key_block_proof C) d"
    unfolding described_block_def answers_as_ton_def by (auto dest: sync_proof_hash)
qed

text \<open>Every client the configuration can name describes its key blocks.\<close>

lemma built_described:
  assumes "\<And>name nodes. answers_as_ton (kn_cells N) (kn_chain N) (fst (kn_ton N name nodes))"
    and "build_client F V (clients_of N) cfg = Inr n"
  shows "described_client (nt_client n) (kn_cells N) (reads_of (kn_cells N) cfg) (kn_chain N)"
proof (cases cfg)
  case (TonConfig name path)
  with assms(2) obtain nodes where "load_global_config F V path = Inr nodes"
    and "nt_client n = fst (kn_ton N name nodes)"
    by (fastforce simp: build_client_def clients_of_def split: prod.splits elim!: bindR_InrE)
  with ton_described [OF assms(1)] TonConfig show ?thesis by (simp add: reads_of_def)
next
  case (TychoConfig name rpc)
  with assms(2) obtain J where "kn_jrpc_new N rpc = Inr J"
    and "nt_client n = tycho_client (kn_cells N) (kn_chain N) J (kn_boc64 N) (kn_tx_hash N)"
    by (auto simp: build_client_def clients_of_def elim!: bindR_InrE)
  with TychoConfig tycho_net.described_client_axioms show ?thesis by (simp add: reads_of_def)
next
  case (LegacyConfig name url)
  with assms(2) obtain send where "kn_gql_new N url = Inr send"
    and "nt_client n = legacy_client (kn_cells N) (kn_chain N) (gql_client (kn_gql N) send (kn_gql_parse N))"
    by (auto simp: build_client_def clients_of_def Let_def elim!: bindR_InrE)
  with LegacyConfig legacy_net.described_client_axioms show ?thesis by (simp add: reads_of_def)
qed

lemma built_source_sends:
  assumes "\<And>name nodes. answers_as_ton (kn_cells N) (kn_chain N) (fst (kn_ton N name nodes))"
    and "built_source F V (clients_of N) cfg p" and "well_prepared p"
    and "run_rounds n (pr_env p) (pr_state p, w1) = Some s" and "sync_key_blocks (pr_env p) s = Some (Inr (), s1)"
  shows "sends_described (kn_cells N) (reads_of (kn_cells N) cfg) (kn_chain N) (pr_env p) s s1"
proof -
  from assms(2) obtain net where net: "build_client F V (clients_of N) cfg = Inr net"
    and src: "se_src (pr_env p) = nt_client net"
    unfolding built_source_def by blast
  have "up_cache (pr_state p) = []" using assms(3) by (simp add: well_prepared_def)
  from described_client.sent_described [OF built_described [OF assms(1) net] src assms(4) this assms(5)]
  show ?thesis unfolding sends_described_def src .
qed

end
