(* ===== verification/Command_Properties.thy ===== *)
theory Command_Properties
  imports Sync_Command Service_Properties Gql_Properties
begin

text \<open>
  What the command of the sync service starts, and a configuration file to try it on: an older
  network \<open>L\<close>, read over GraphQL, whose key blocks are brought to the bridge on the network \<open>T\<close>.
\<close>

section \<open>A small configuration\<close>

text \<open>The server of \<open>L\<close> reads the number of the key block from the query.\<close>

definition key_query_start :: string where
  "key_query_start =
     ''{blockchain{block_by_seq_no(workchain:-1,shard:'' @ quoted (format_016x (prefix MASTERCHAIN)) @ '',seq_no:''"

definition key_query_seqno :: "string \<Rightarrow> u32" where
  "key_query_seqno q = word_of_nat (read_nat (takeWhile is_digit (drop (length key_query_start) q)))"

definition edges_json :: "string \<Rightarrow> json \<Rightarrow> json" where
  "edges_json name v = JObj [(''edges'', JArr [JObj [(''node'', JObj [(name, v)])]])]"

definition key_answer :: "string \<Rightarrow> json" where
  "key_answer q =
     (if q = last_seqno_query then answer_json ''key_blocks'' (edges_json ''seq_no'') (Some (JInt 7))
      else if q = last_boc_query then answer_json ''key_blocks'' (edges_json ''boc'') (Some (dcell_json (demo_key_root 5 30)))
      else answer_json ''block_by_seq_no'' (block_json demo_writer) (Some (demo_key_gql (key_query_seqno q))))"

definition key_send :: "json \<Rightarrow> (u64, string) call" where
  "key_send req = of_result (case req of JObj [(k, JStr q)] \<Rightarrow> Inr q | _ \<Rightarrow> Inl (Msg ''bad request''))"

lemma key_query_seqno [simp]: "key_query_seqno (key_block_query n) = n"
proof -
  have "takeWhile is_digit (format_nat (unat n) @ CHR '')'' # s) = format_nat (unat n)" for s
    using format_nat_digits [of _ "unat n"] by (simp add: takeWhile_append2 is_digit_def)
  then show ?thesis by (simp add: key_query_seqno_def key_query_start_def key_block_query_def)
qed

lemma key_answer_block [simp]:
  "key_answer (key_block_query n) = answer_json ''block_by_seq_no'' (block_json demo_writer) (Some (demo_key_gql n))"
proof -
  have "key_block_query n \<noteq> last_seqno_query" "key_block_query n \<noteq> last_boc_query"
    by (simp_all add: key_block_query_def last_seqno_query_def last_boc_query_def)
  then show ?thesis by (simp add: key_answer_def)
qed

lemma key_client: "gql_client demo_values key_send (\<lambda>q. Some (key_answer q)) = demo_gl"
proof -
  have block: "de_answer ''block_by_seq_no'' (de_option (de_block demo_values))
      (answer_json ''block_by_seq_no'' (block_json demo_writer) x) = Some x" for x
    by (rule de_answer_json) (simp_all add: de_block_json [OF demo_reads_back], simp add: block_json_def)
  have boc: "gv_boc demo_values (dcell_json c) = Some c" for c by (simp add: demo_values_def json_dcell_back)
  have seven: "de_u32 (JInt 7) = Some 7" using de_u32_uint [of 7] by simp
  have seqnos: "de_answer ''key_blocks'' (de_required (de_edges (de_single ''seq_no'' (de_required de_u32)))) (key_answer last_seqno_query) =
      Some [7]"
    by (simp add: key_answer_def answer_json_def edges_json_def de_answer_def de_required_def de_edges_def seven)
  have "last_boc_query \<noteq> last_seqno_query" by (simp add: last_boc_query_def last_seqno_query_def)
  then have bocs: "de_answer ''key_blocks'' (de_required (de_edges (de_single ''boc'' (de_required (gv_boc demo_values)))))
      (key_answer last_boc_query) = Some [demo_key_root 5 30]"
    by (simp add: key_answer_def answer_json_def edges_json_def de_answer_def de_required_def de_edges_def boc)
  show ?thesis
    by (simp add: gql_client_def gql_call_def demo_gl_def key_send_def gql_request_def then_result_def bnd_def of_result_def
        fun_eq_iff block seqnos bocs)
qed

definition demo_connectors ::
  "(u64, unit, unit, dcell, dslice, dcell list, dcell, unit, hash_bytes, (int \<times> dcell) list) connectors" where
  "demo_connectors =
     \<lparr>kn_cells = demo_lib, kn_chain = key_chain,
      kn_boc64 = \<lparr>b64_cell = (\<lambda>s. Inr (DC [] [])), b64_lazy_tx = (\<lambda>s. Inr 0), b64_capabilities = (\<lambda>g. Inr 0)\<rparr>,
      kn_tx_hash = (\<lambda>t. t), kn_gql = demo_values, kn_jrpc_new = (\<lambda>rpc. Inl (Msg ''failed to build http client'')),
      kn_gql_new = (\<lambda>url. Inr key_send), kn_gql_parse = (\<lambda>q. Some (key_answer q)),
      kn_ton = (\<lambda>name nodes. (demo_dst, \<lambda>w. (Inr [], w)))\<rparr>"

lemma demo_ton_answers: "answers_as_ton (kn_cells demo_connectors) (kn_chain demo_connectors) (fst (kn_ton demo_connectors name nodes))"
  by (simp add: answers_as_ton_def demo_connectors_def demo_dst_def)

text \<open>The texts of the files.\<close>

definition demo_uploader_json :: json where
  "demo_uploader_json = JObj [(''bridge_address'', JInt 6), (''wallet_address'', JInt 5), (''wallet_secret'', JInt 0),
     (''lib_store_value'', JStr ''20''), (''store_vset_value'', JStr ''30''), (''min_required_balance'', JStr ''10'')]"

definition demo_config_json :: json where
  "demo_config_json = JObj [(''workers'', JArr [JObj [
     (''left'', JObj [(''type'', JStr ''Legacy''), (''name'', JStr ''L''), (''url'', JStr ''gql'')]),
     (''right'', JObj [(''type'', JStr ''Ton''), (''name'', JStr ''T''), (''global_config'', JStr ''ton.json''),
        (''uploader'', demo_uploader_json)])]])]"

definition demo_files :: files where
  "demo_files = \<lparr>fi_read = (\<lambda>path. Inr path),
     fi_parse = (\<lambda>path. if path = ''sync.json'' then Some demo_config_json
        else if path = ''ton.json'' then Some (JObj []) else None)\<rparr>"

definition demo_config_values :: "unit config_values" where
  "demo_config_values = \<lparr>cv_hash = (\<lambda>s. None), cv_valid_key = (\<lambda>k. True),
     cv_json_hash = (\<lambda>v. map_option word_of_int (json_int v)),
     cv_addr = (\<lambda>v. map_option (\<lambda>n. demo_addr (word_of_int n)) (json_int v)),
     cv_humantime = (\<lambda>v. None), cv_metrics = (\<lambda>v. None)\<rparr>"

definition demo_worker :: worker_config where
  "demo_worker =
     \<lparr>wk_left = \<lparr>nw_client = LegacyConfig ''L'' ''gql'', nw_uploader = None\<rparr>,
      wk_right = \<lparr>nw_client = TonConfig ''T'' ''ton.json'', nw_uploader = Some demo_cfg\<rparr>\<rparr>"

lemma demo_config_loads:
  "load_service_config demo_files demo_config_values ''sync.json'' = Inr \<lparr>sf_metrics = None, sf_workers = [demo_worker]\<rparr>"
  "load_global_config demo_files demo_config_values ''ton.json'' = Inr []"
  by code_simp+

abbreviation demo_run where
  "demo_run \<equiv> run_service demo_files demo_config_values (\<lambda>_. Inr ()) (clients_of demo_connectors) demo_service ''sync.json''"

lemma demo_service_started:
  obtains E where "demo_run 0 = (Inr [\<lparr>pr_src = ''L'', pr_dst = ''T'', pr_config = demo_cfg, pr_env = E,
      pr_state = started demo_cfg\<rparr>], 0)"
    and "demo_up_round = sync_key_blocks E (started demo_cfg, 0)"
proof -
  obtain E where new: "uploader_new demo_service demo_src demo_dst (\<lambda>w. (Inr [], w)) demo_cfg 0 = (Inr (E, started demo_cfg), 0)"
    and round: "demo_up_round = sync_key_blocks E (started demo_cfg, 0)" by (rule demo_up_created)
  have left: "build_client demo_files demo_config_values (clients_of demo_connectors) (LegacyConfig ''L'' ''gql'') =
      Inr \<lparr>nt_name = ''L'', nt_client = demo_src, nt_blockchain_config = legacy_blockchain_config demo_lib demo_gl\<rparr>"
    by (simp add: build_client_def clients_of_def demo_connectors_def key_client demo_src_def Let_def)
  have right: "build_client demo_files demo_config_values (clients_of demo_connectors) (TonConfig ''T'' ''ton.json'') =
      Inr \<lparr>nt_name = ''T'', nt_client = demo_dst, nt_blockchain_config = (\<lambda>w. (Inr [], w))\<rparr>"
    by (simp add: build_client_def clients_of_def demo_connectors_def demo_config_loads)
  have "demo_run 0 = (Inr [\<lparr>pr_src = ''L'', pr_dst = ''T'', pr_config = demo_cfg, pr_env = E,
      pr_state = started demo_cfg\<rparr>], 0)"
    by (simp add: run_service_def demo_config_loads prepare_worker_def demo_worker_def left right prepare_uploader_def
        bnd_def new rs_apply guard_def)
  with round that show thesis by blast
qed

section \<open>The properties\<close>

text \<open>C30. When the command of the sync service gets as far as starting its uploaders, they are those of
  the configuration file, in its order: for each worker one to every network that has an
  uploader, from the other network of the worker. There is at least one worker. Each uploader has the
  bridge and the wallet of its configuration, starts with an empty cache, and reads from the client
  that was built from the entry of its source network.\<close>

theorem service_starts_configured:
  assumes "run_service F V init_metrics (clients_of N) S path w = (Inr ps, w1)"
  shows "\<exists>cfg. load_service_config F V path = Inr cfg \<and> sf_workers cfg \<noteq> [] \<and>
    map route ps = concat (map worker_routes (sf_workers cfg)) \<and>
    (\<forall>p\<in>set ps. well_prepared p \<and>
      (\<exists>c\<in>set (concat (map worker_clients (sf_workers cfg))). built_source F V (clients_of N) c p))"
  using run_service_ok [OF clients_of_names assms] by blast

lemma service_starts_configured_witness:
  "\<exists>p. demo_run 0 = (Inr [p], 0) \<and> route p = (''L'', ''T'', demo_cfg) \<and>
     built_source demo_files demo_config_values (clients_of demo_connectors) (LegacyConfig ''L'' ''gql'') p"
proof -
  obtain E where run: "demo_run 0 = (Inr [\<lparr>pr_src = ''L'', pr_dst = ''T'', pr_config = demo_cfg, pr_env = E,
      pr_state = started demo_cfg\<rparr>], 0)" (is "_ = (Inr [?p], 0)") by (rule demo_service_started)
  from service_starts_configured [OF run]
  have "map route [?p] = worker_routes demo_worker \<and>
      (\<exists>c\<in>set (worker_clients demo_worker). built_source demo_files demo_config_values (clients_of demo_connectors) c ?p)"
    by (auto simp: demo_config_loads)
  then have "route ?p = (''L'', ''T'', demo_cfg) \<and>
      built_source demo_files demo_config_values (clients_of demo_connectors) (LegacyConfig ''L'' ''gql'') ?p"
    by (auto simp: route_def worker_clients_def demo_worker_def built_source_def)
  with run show ?thesis by blast
qed

text \<open>C29. The whole way from a configuration file to the bridge: an uploader that the command started, after
  any rounds, in a round that succeeds sends nothing, or it sends a key block newer than the epoch
  of the bridge that is what its own root says when it is read as a block of the source network, and
  the bridge applied it; the proof that was sent has the hash of that root. Nothing is assumed of
  the servers, of the file or of the source beyond its kind; a client of TON is one whose answers \<open>ton_get_key_block\<close>
  can give.\<close>

theorem service_sends_described_blocks:
  assumes "run_service F V init_metrics (clients_of N) S path w = (Inr ps, w1)" and "p \<in> set ps"
    and "\<And>name nodes. answers_as_ton (kn_cells N) (kn_chain N) (fst (kn_ton N name nodes))"
    and "run_rounds n (pr_env p) (pr_state p, w2) = Some s" and "sync_key_blocks (pr_env p) s = Some (Inr (), s1)"
  shows "\<exists>cfg c. load_service_config F V path = Inr cfg \<and>
    c \<in> set (concat (map worker_clients (sf_workers cfg))) \<and> cc_name c = pr_src p \<and>
    sends_described (kn_cells N) (reads_of (kn_cells N) c) (kn_chain N) (pr_env p) s s1"
proof -
  obtain cfg where cfg: "load_service_config F V path = Inr cfg" and
    ps: "\<forall>p\<in>set ps. well_prepared p \<and>
      (\<exists>c\<in>set (concat (map worker_clients (sf_workers cfg))). built_source F V (clients_of N) c p)"
    using run_service_ok [OF clients_of_names assms(1)] by metis
  from ps assms(2) obtain c where c: "c \<in> set (concat (map worker_clients (sf_workers cfg)))"
    and p: "well_prepared p" "built_source F V (clients_of N) c p" by blast
  from built_source_sends [OF assms(3) p(2, 1) assms(4, 5)] cfg c p(2) show ?thesis
    unfolding built_source_def by blast
qed

lemma service_sends_described_blocks_witness:
  "\<exists>p s1 since d raw_tx tx. demo_run 0 = (Inr [p], 0) \<and> sync_key_blocks (pr_env p) (pr_state p, 0) = Some (Inr (), s1) \<and>
     up_min_bridge_state_lt (fst s1) = 30 \<and> since < utime_since (kb_current_vset d) \<and>
     described_block demo_lib (reads_legacy demo_lib) key_chain (nc_key_block_proof (se_src (pr_env p))) d \<and>
     applied_tx (pr_env p) d raw_tx tx"
proof -
  obtain E where run: "demo_run 0 = (Inr [\<lparr>pr_src = ''L'', pr_dst = ''T'', pr_config = demo_cfg, pr_env = E,
      pr_state = started demo_cfg\<rparr>], 0)" (is "_ = (Inr [?p], 0)")
    and round: "demo_up_round = sync_key_blocks E (started demo_cfg, 0)" by (rule demo_service_started)
  from demo_up_round_result obtain u1 where sync: "sync_key_blocks E (started demo_cfg, 0) = Some (Inr (), (u1, 2))"
    and lt: "up_min_bridge_state_lt u1 = 30" unfolding round by auto
  have "run_rounds 0 (pr_env ?p) (pr_state ?p, 0) = Some (started demo_cfg, 0)" by simp
  from service_sends_described_blocks [OF run _ demo_ton_answers this] sync
  obtain c where "c \<in> set (worker_clients demo_worker)" "cc_name c = ''L''" and
    sent: "sends_described demo_lib (reads_of demo_lib c) key_chain E (started demo_cfg, 0) (u1, 2)"
    by (auto simp: demo_config_loads demo_connectors_def)
  from this(1,2) have "c = LegacyConfig ''L'' ''gql''" by (auto simp: worker_clients_def demo_worker_def)
  with sent lt obtain since d raw_tx tx where "since < utime_since (kb_current_vset d)"
    "described_block demo_lib (reads_legacy demo_lib) key_chain (nc_key_block_proof (se_src E)) d" "applied_tx E d raw_tx tx"
    by (auto simp: sends_described_def reads_of_def)
  with run sync lt show ?thesis by (intro exI [of _ ?p] exI [of _ "(u1, 2)"] exI [of _ since] exI [of _ d] exI [of _ raw_tx] exI [of _ tx]) simp
qed

end
