(* ===== verification/Spec2Isabelle.thy ===== *)
theory Spec2Isabelle
  imports Block_Properties Storage_Properties Lite_Properties Sync_Properties Api_Properties Node_Properties
    Service_Properties Sending_Properties Gql_Properties Command_Properties
begin

text \<open>
  Verification library of \<open>tycho-l2\<close>: services that prove transactions of one blockchain to a
  contract of another.

  The program. A \<^emph>\<open>proof API\<close> answers a request for a transaction with a proof chain: a cell with
  the proof of the transaction in its block, the proofs that lead from that block up to a
  masterchain block, and the signatures of the validators under it. There are three: for
  Tycho (\<open>proof-api-l2\<close>, a node that stores pruned blocks as they are applied and proves from its
  tables), for TON (\<open>proof-api-ton\<close>, which asks liteservers through \<open>ton-lite-client\<close>) and for
  older networks (\<open>proof-api-legacy\<close>, over GraphQL). The \<^emph>\<open>sync service\<close> (\<open>sync-service\<close>) keeps the
  bridge contract of one network up to date with the key blocks of another: it finds the first
  key block the bridge does not know, deploys the library with its validator set and sends the
  key block through a wallet. All of them build proofs with the crate \<open>util\<close>.

  The theories, from the bottom up, with the sources under \<open>src/\<close> they model.

  \<^item> \<open>Prelude\<close>, \<open>Bytes\<close>, \<open>Cell_Api\<close>: machine integers as words, results as sums, code over a
    mutable cursor as functions that return the result and the state, big and little endian
    bytes, and the cell library as a record of its operations.
  \<^item> \<open>Block_Models\<close>, \<open>Tycho_Models\<close>, \<open>Ton_Models\<close>, \<open>Legacy_Models\<close> (\<open>util/src/block/\<close>): the traits
    over the blocks of a network as a record, with the locale \<open>blockchain_models\<close> for what the
    proof builders rely on, and the loaders of the three networks that interpret it.
  \<^item> \<open>Block_Proofs\<close>, \<open>Signatures\<close>, \<open>Proof_Chain\<close> (\<open>util/src/block/mod.rs\<close>): pruned blocks and the
    proofs of transactions, pivot blocks, key blocks and masterchain blocks; the epoch data and
    the lists of signatures; the chain cell. \<open>Demo_Cells\<close> holds a small concrete cell library.
  \<^item> \<open>Proof_Tables\<close>, \<open>Storage_Effects\<close>, \<open>Proof_Storage\<close>, \<open>Storage_Node\<close> (\<open>proof-api-l2/src/storage/\<close>,
    \<open>proof-api-l2/src/cmd/run.rs\<close>): keys and values of the tables, atomic batches, storing a block
    with garbage collection, building a proof from a snapshot, and the part of the subscriber of
    the node that drives them. \<open>Light_Node\<close> is the whole subscriber, with the connections between
    blocks and the archive in the storages of the node core, and its runs refine those of
    \<open>Storage_Node\<close>. \<open>Demo_Storage\<close> is a concrete database and run.
  \<^item> \<open>Tl_Codec\<close>, \<open>Lite_Proto\<close>, \<open>Queries_Cache\<close>, \<open>Adnl\<close>, \<open>Lite_Client\<close> (\<open>ton-lite-client/src/\<close>): the TL
    codecs, the messages, the table of waiting queries, the encrypted connection with its packet
    reader and handshake, and the client with its loop over connections. \<open>Adnl_Sending\<close> is the
    sending side: the tasks of the queries, the lock of the sender and the cancellation flags, in
    every order of steps. \<open>Demo_Lite\<close> is concrete.
  \<^item> \<open>Network_Client\<close>, \<open>Chain_Clients\<close>, \<open>Wallet\<close>, \<open>Uploader\<close> (\<open>sync-service/src/\<close>): polling accounts
    and finding the transaction of a message, the three network clients, the wallet, and the
    rounds of the uploader with the metrics it exports (\<open>sync-service/src/metrics.rs\<close>). \<open>Demo_Sync\<close>
    is a concrete pair of networks.
  \<^item> \<open>Jrpc_Client\<close>, \<open>Sync_Service\<close> (\<open>sync-service/src/util/jrpc_client.rs\<close>, \<open>sync-service/src/client/\<close>,
    \<open>sync-service/src/service/\<close>): the requests of the JSON-RPC client, the clients of Tycho and of
    older networks as records of their calls, and the creation of an uploader from its
    configuration. The locale \<open>described_client\<close> says what the uploader relies on of a source, and
    both clients interpret it. The queries of the TON client may not return, so its calls stay
    single definitions of \<open>Chain_Clients\<close>.
  \<^item> \<open>Json_Values\<close>, \<open>Gql_Client\<close> (\<open>proof-api-legacy/src/client.rs\<close>, \<open>sync-service/src/client/legacy.rs\<close>):
    JSON values and what derived deserializers make of them, the texts of the GraphQL queries and
    the reading of their answers.
  \<^item> \<open>Config_Files\<close>, \<open>Sync_Command\<close> (\<open>sync-service/src/config.rs\<close>, \<open>sync-service/src/cmd/run.rs\<close>,
    \<open>ton-lite-client/src/config.rs\<close>): the configuration files, the clients built from them, and the command
    up to the point where it spawns its uploaders.
  \<^item> \<open>Proof_Api\<close> with \<open>Proof_Api_L2\<close>, \<open>Proof_Api_Ton\<close>, \<open>Proof_Api_Legacy\<close> (\<open>proof-api-*/src/client.rs\<close>,
    \<open>proof-api-*/src/api.rs\<close>) and \<open>Http_Api\<close> (\<open>util/src/api.rs\<close>): the contract of a proof API as a
    locale, that an answer is a chain whose last block proves the transaction, and the three
    services that interpret it; the responses with their statuses and headers. \<open>Demo_Api\<close> holds
    a small liteserver and GraphQL server.
  \<^item> \<open>Serde_Helpers\<close>, \<open>Getter\<close> (\<open>util/src/serde_helpers.rs\<close>, \<open>sync-service/src/util/\<close>,
    \<open>ton-lite-client/src/config.rs\<close>): hexadecimal numbers, the response object of JSON-RPC, the
    list of liteservers, and running a getter of a contract.

  What the properties show. \<open>Block_Properties\<close>: which signatures are accepted, which
  transactions the walk over a block visits, that a chain cell can be unpacked to its blocks in
  order (and the lengths for which building it panics), that proofs keep the hash of the block.
  \<open>Storage_Properties\<close>: what is stored can be proved, what garbage collection removes, that the
  tables stay well formed in every run, and that a failed write changes nothing.
  \<open>Lite_Properties\<close>: messages survive the encrypted stream however it is cut, a query gets
  its own answer, what the retry loop returns and when it never does, invariants of the shared
  counters. \<open>Node_Properties\<close>: which links between blocks the node writes, and that its runs are runs of
  the proof storage. \<open>Sync_Properties\<close>: a successful round has sent the first new key block and
  the bridge applied it, and the search for a transaction is complete and ends.
  \<open>Service_Properties\<close>: the same for an uploader between the real clients, where the epoch of the
  bridge comes from, that the metrics agree with the state, and that a round towards an older
  network never returns. \<open>Command_Properties\<close>: which uploaders a configuration file starts, and what each
  of them sends. \<open>Sending_Properties\<close>: what queries that run and are dropped at the same time leave
  on the socket. \<open>Gql_Properties\<close>: a server with tables of blocks is read as these tables.
  \<open>Api_Properties\<close>:
  the proofs of an answer hang together by their hashes and leave out no block, which response
  means what, and how the answers of servers are read.

  Conventions. Code outside the repository (the crates for cells, cryptography, TL hashing, the
  RocksDB binding, the virtual machine, HTTP) is a parameter: a record of functions, with what
  is relied on stated as a predicate (\<open>builder_laws\<close>, \<open>tl_laws\<close>, \<open>kv_laws\<close> and the like) that the
  concrete theories show to hold. An error of the library is \<open>Lib\<close>, a message of the code
  \<open>Msg\<close>; contexts added to an error are not kept. A panic is the error \<open>Panic\<close>. Integers wrap
  around as in a release build, where the sources use plain operators. Loops that may not end
  are partial functions with \<open>None\<close> for a run that never returns; bounded loops carry the bound of
  the code (\<open>MAX_ATTEMPTS\<close>, \<open>MAX_ERRORS\<close>, the 63 levels of a shard tree) and no fuel is used that
  the code does not have. Tasks that run concurrently are step relations over the shared state
  (connections, the closed flag); elsewhere a task runs to its next wait as one step.

  Not modelled: sending requests over HTTP and parsing the text of JSON (values as \<open>json\<close>, or typed
  values for the JSON-RPC answers, are arguments), the time limits and routes of the web framework,
  opening sockets and databases, the command lines and the start of the node and of the proof APIs,
  publishing metrics as gauges, the OpenAPI documents, build scripts, and the code of the
  contracts. Pauses between attempts have no effect on the state and are left out.
\<close>

end
